(* ===== verification/Prelude.thy ===== *)
theory Prelude
  imports Main "HOL-Library.AList"
begin

text \<open>
  Shared material: insertion-ordered dictionaries with the interface the components rely
  on, actions that pass a state and may raise, runs of operations with their invariants,
  and the Python string operations the sources use.
\<close>

named_theorems dict_simps "reading a dictionary after it was written"
named_theorems keeps_intros "actions that keep an invariant"

section \<open>Insertion-ordered dictionaries\<close>

text \<open>
  A Python \<open>dict\<close> (and \<open>OrderedDict\<close>) keeps its insertion order: writing a key that is
  present keeps its place, writing a new key appends it. It is an association list.
\<close>

type_synonym ('k, 'v) dict = "('k \<times> 'v) list"

definition dempty :: "('k, 'v) dict" where
  "dempty = []"

definition dget :: "('k, 'v) dict \<Rightarrow> 'k \<Rightarrow> 'v option" where
  "dget d k = map_of d k"

definition dput :: "'k \<Rightarrow> 'v \<Rightarrow> ('k, 'v) dict \<Rightarrow> ('k, 'v) dict" where
  "dput k v d = AList.update k v d"

definition dpop :: "'k \<Rightarrow> ('k, 'v) dict \<Rightarrow> ('k, 'v) dict" where
  "dpop k d = AList.delete k d"

definition dkeys :: "('k, 'v) dict \<Rightarrow> 'k list" where
  "dkeys d = map fst d"

definition dict_ok :: "('k, 'v) dict \<Rightarrow> bool" where
  "dict_ok d \<longleftrightarrow> distinct (map fst d)"

definition dhas :: "('k, 'v) dict \<Rightarrow> 'k \<Rightarrow> bool" where
  "dhas d k \<longleftrightarrow> dget d k \<noteq> None"

definition dget_or :: "('k, 'v) dict \<Rightarrow> 'k \<Rightarrow> 'v \<Rightarrow> 'v" where
  "dget_or d k v = (case dget d k of None \<Rightarrow> v | Some w \<Rightarrow> w)"

locale ordered_dict =
  fixes emp :: 'd
    and get :: "'d \<Rightarrow> 'k \<Rightarrow> 'v option"
    and put :: "'k \<Rightarrow> 'v \<Rightarrow> 'd \<Rightarrow> 'd"
    and pop :: "'k \<Rightarrow> 'd \<Rightarrow> 'd"
    and keys :: "'d \<Rightarrow> 'k list"
    and ok :: "'d \<Rightarrow> bool"
  assumes get_emp: "get emp k = None"
    and get_put: "get (put k v d) j = (if j = k then Some v else get d j)"
    and get_pop: "get (pop k d) j = (if j = k then None else get d j)"
    and set_keys: "set (keys d) = {k. get d k \<noteq> None}"
    and keys_put: "keys (put k v d) = (if get d k = None then keys d @ [k] else keys d)"
    and ok_distinct: "ok d \<longleftrightarrow> distinct (keys d)"
    and ok_emp: "ok emp"
    and ok_pop: "ok d \<Longrightarrow> ok (pop k d)"
begin

lemma ok_put: "ok d \<Longrightarrow> ok (put k v d)"
  using set_keys [of d] by (simp add: ok_distinct keys_put)

lemma get_put_same: "get (put k v d) k = Some v"
  by (simp add: get_put)

lemma get_put_other: "j \<noteq> k \<Longrightarrow> get (put k v d) j = get d j"
  by (simp add: get_put)

lemma length_keys_put: "length (keys (put k v d)) \<le> Suc (length (keys d))"
  by (simp add: keys_put)

lemma keys_get: "k \<in> set (keys d) \<longleftrightarrow> get d k \<noteq> None"
  using set_keys by simp

lemma put_pop_get: "get (pop k (put k v d)) j = get (pop k d) j"
  by (simp add: get_put get_pop)

end

interpretation pydict: ordered_dict dempty dget dput dpop dkeys dict_ok
  by unfold_locales
     (auto simp: dempty_def dget_def dput_def dpop_def dkeys_def dict_ok_def update_conv'
        delete_conv' update_keys map_of_eq_None_iff image_iff delete_keys distinct_removeAll
        intro: weak_map_of_SomeI split: if_splits)

lemmas [dict_simps, simp] = pydict.get_emp pydict.get_put pydict.get_pop pydict.ok_emp

lemmas [intro, simp] = pydict.ok_put pydict.ok_pop

lemma dget_or_put [simp]: "dget_or (dput k v d) j w = (if j = k then v else dget_or d j w)"
  by (simp add: dget_or_def)

lemma dget_or_pop [simp]: "dget_or (dpop k d) j w = (if j = k then w else dget_or d j w)"
  by (simp add: dget_or_def)

lemma dget_or_empty [simp]: "dget_or dempty j w = w"
  by (simp add: dget_or_def)

lemma dget_Nil [simp]: "dget [] k = None"
  by (simp add: dget_def)

lemma dget_Cons [simp]: "dget ((k, v) # d) j = (if j = k then Some v else dget d j)"
  by (simp add: dget_def)

lemma dget_Some_in: "dget d k = Some v \<Longrightarrow> (k, v) \<in> set d"
  by (simp add: dget_def map_of_SomeD)

lemma dget_in: "dict_ok d \<Longrightarrow> (k, v) \<in> set d \<Longrightarrow> dget d k = Some v"
  by (simp add: dget_def dict_ok_def)

lemma dget_None_iff: "dget d k = None \<longleftrightarrow> k \<notin> fst ` set d"
  by (simp add: dget_def map_of_eq_None_iff)

lemma dict_ok_Nil [simp]: "dict_ok []"
  by (simp add: dict_ok_def)

lemma dict_ok_Cons [simp]: "dict_ok (p # d) \<longleftrightarrow> fst p \<notin> fst ` set d \<and> dict_ok d"
  by (auto simp: dict_ok_def)

lemma dput_new: "dget d k = None \<Longrightarrow> dput k v d = d @ [(k, v)]"
  by (induction d) (auto simp: dput_def dget_def split: if_splits)

lemma dput_keys: "dkeys (dput k v d) = (if dget d k = None then dkeys d @ [k] else dkeys d)"
  by (rule pydict.keys_put)

lemma length_dput: "length (dput k v d) = (if dhas d k then length d else Suc (length d))"
proof -
  have "length (dkeys (dput k v d)) = (if dhas d k then length (dkeys d) else Suc (length (dkeys d)))"
    by (simp add: dput_keys dhas_def)
  then show ?thesis by (simp add: dkeys_def)
qed

section \<open>The first element with a property\<close>

fun find_index :: "('a \<Rightarrow> bool) \<Rightarrow> 'a list \<Rightarrow> nat option" where
  "find_index p [] = None"
| "find_index p (x # xs) = (if p x then Some 0 else map_option Suc (find_index p xs))"

lemma find_index_less: "find_index p xs = Some i \<Longrightarrow> i < length xs \<and> p (xs ! i)"
  by (induction xs arbitrary: i) (auto split: if_splits)

lemma find_index_None: "find_index p xs = None \<Longrightarrow> filter p xs = []"
  by (induction xs) (auto split: if_splits)

section \<open>Actions: a state that survives an exception\<close>

text \<open>
  A method that may raise half-way keeps what it wrote before. An action maps a state to
  the outcome (\<open>Inl\<close> the exception, \<open>Inr\<close> the value returned) and the state it leaves.
\<close>

type_synonym ('s, 'e, 'a) act = "'s \<Rightarrow> ('e + 'a) \<times> 's"

definition returning :: "'a \<Rightarrow> ('s, 'e, 'a) act" where
  "returning a s = (Inr a, s)"

definition raising :: "'e \<Rightarrow> ('s, 'e, 'a) act" where
  "raising e s = (Inl e, s)"

definition then_do :: "('s, 'e, 'a) act \<Rightarrow> ('a \<Rightarrow> ('s, 'e, 'b) act) \<Rightarrow> ('s, 'e, 'b) act" where
  "then_do m f s = (case m s of (Inl e, s') \<Rightarrow> (Inl e, s') | (Inr a, s') \<Rightarrow> f a s')"

definition reading :: "('s \<Rightarrow> 'a) \<Rightarrow> ('s, 'e, 'a) act" where
  "reading f s = (Inr (f s), s)"

definition updating :: "('s \<Rightarrow> 's) \<Rightarrow> ('s, 'e, unit) act" where
  "updating f s = (Inr (), f s)"

definition on_error :: "('s, 'e, 'a) act \<Rightarrow> ('e \<Rightarrow> ('s, 'e, 'a) act) \<Rightarrow> ('s, 'e, 'a) act" where
  "on_error m h s = (case m s of (Inl e, s') \<Rightarrow> h e s' | (Inr a, s') \<Rightarrow> (Inr a, s'))"

text \<open>An action chosen by the state it starts in.\<close>

definition depending :: "('s \<Rightarrow> ('s, 'e, 'a) act) \<Rightarrow> ('s, 'e, 'a) act" where
  "depending f s = f s s"

lemmas act_defs = depending_def returning_def raising_def then_do_def reading_def updating_def on_error_def

definition keeps :: "('s \<Rightarrow> bool) \<Rightarrow> ('s, 'e, 'a) act \<Rightarrow> bool" where
  "keeps P m \<longleftrightarrow> (\<forall>s. P s \<longrightarrow> P (snd (m s)))"

lemma keepsD: "keeps P m \<Longrightarrow> P s \<Longrightarrow> P (snd (m s))"
  by (simp add: keeps_def)

lemma keeps_returning [keeps_intros]: "keeps P (returning a)"
  by (simp add: keeps_def returning_def)

lemma keeps_raising [keeps_intros]: "keeps P (raising e)"
  by (simp add: keeps_def raising_def)

lemma keeps_reading [keeps_intros]: "keeps P (reading f)"
  by (simp add: keeps_def reading_def)

lemma keeps_updating: "(\<And>s. P s \<Longrightarrow> P (f s)) \<Longrightarrow> keeps P (updating f)"
  by (simp add: keeps_def updating_def)

lemma keeps_then_do [keeps_intros]:
  "keeps P m \<Longrightarrow> (\<And>a. keeps P (f a)) \<Longrightarrow> keeps P (then_do m f)"
  by (auto simp: keeps_def then_do_def split: prod.splits sum.splits)

lemma keeps_depending [keeps_intros]: "(\<And>s. keeps P (f s)) \<Longrightarrow> keeps P (depending f)"
  by (simp add: keeps_def depending_def)

lemma keeps_if [keeps_intros]: "(b \<Longrightarrow> keeps P m) \<Longrightarrow> (\<not> b \<Longrightarrow> keeps P n) \<Longrightarrow> keeps P (if b then m else n)"
  by simp

lemma keeps_case_option [keeps_intros]:
  "(v = None \<Longrightarrow> keeps P m) \<Longrightarrow> (\<And>x. v = Some x \<Longrightarrow> keeps P (f x)) \<Longrightarrow>
   keeps P (case v of None \<Rightarrow> m | Some x \<Rightarrow> f x)"
  by (simp split: option.split)

lemma keeps_on_error [keeps_intros]:
  "keeps P m \<Longrightarrow> (\<And>e. keeps P (h e)) \<Longrightarrow> keeps P (on_error m h)"
  by (auto simp: keeps_def on_error_def split: prod.splits sum.splits)

section \<open>Runs of operations\<close>

text \<open>
  A component is used by a sequence of operations. What holds at the start and is kept by
  every operation holds after every sequence.
\<close>

fun run_ops :: "('op \<Rightarrow> 's \<Rightarrow> 's) \<Rightarrow> 'op list \<Rightarrow> 's \<Rightarrow> 's" where
  "run_ops step [] s = s"
| "run_ops step (x # xs) s = run_ops step xs (step x s)"

lemma run_ops_append: "run_ops step (xs @ ys) s = run_ops step ys (run_ops step xs s)"
  by (induction xs arbitrary: s) simp_all

locale kept_invariant =
  fixes start :: "'s \<Rightarrow> bool"
    and step :: "'op \<Rightarrow> 's \<Rightarrow> 's"
    and inv :: "'s \<Rightarrow> bool"
  assumes inv_start: "start s \<Longrightarrow> inv s"
    and inv_step: "inv s \<Longrightarrow> inv (step x s)"
begin

lemma inv_run: "inv s \<Longrightarrow> inv (run_ops step xs s)"
  by (induction xs arbitrary: s) (simp_all add: inv_step)

lemma inv_reached: "start s \<Longrightarrow> inv (run_ops step xs s)"
  by (rule inv_run) (rule inv_start)

end

section \<open>Monotone counters\<close>

text \<open>
  Layer slots, short handles and registration numbers come from a counter that is read
  and advanced. A number handed out is never one in use.
\<close>

locale fresh_counter =
  fixes alloc :: "'s \<Rightarrow> nat \<times> 's"
    and ceiling_of :: "'s \<Rightarrow> nat"
    and in_use :: "'s \<Rightarrow> nat set"
  assumes alloc_value: "fst (alloc s) = ceiling_of s"
    and alloc_ceiling: "ceiling_of (snd (alloc s)) = Suc (ceiling_of s)"
    and alloc_in_use: "in_use (snd (alloc s)) \<subseteq> insert (ceiling_of s) (in_use s)"
begin

lemma alloc_bounded:
  "\<forall>k \<in> in_use s. k < ceiling_of s \<Longrightarrow> k \<in> in_use (snd (alloc s)) \<Longrightarrow> k < ceiling_of (snd (alloc s))"
  using alloc_in_use [of s] by (auto simp: alloc_ceiling less_Suc_eq)

lemma alloc_fresh: "\<forall>k \<in> in_use s. k < ceiling_of s \<Longrightarrow> fst (alloc s) \<notin> in_use s"
  by (auto simp: alloc_value)

fun allocs :: "nat \<Rightarrow> 's \<Rightarrow> nat list \<times> 's" where
  "allocs 0 s = ([], s)"
| "allocs (Suc n) s = (let (k, s1) = alloc s; (ks, s2) = allocs n s1 in (k # ks, s2))"

lemma allocs_upt: "fst (allocs n s) = [ceiling_of s..<ceiling_of s + n]"
proof (induction n arbitrary: s)
  case 0
  then show ?case by simp
next
  case (Suc n)
  have "ceiling_of s < ceiling_of s + Suc n" by simp
  with Suc.IH [of "snd (alloc s)"] show ?case
    by (simp add: Let_def split_beta alloc_value alloc_ceiling upt_conv_Cons)
qed

lemma allocs_distinct: "distinct (fst (allocs n s))"
  by (simp add: allocs_upt)

lemma allocs_fresh:
  "\<forall>k \<in> in_use s. k < ceiling_of s \<Longrightarrow> set (fst (allocs n s)) \<inter> in_use s = {}"
  by (auto simp: allocs_upt)

end

end
