(* ===== verification/PyValues.thy ===== *)
theory PyValues
  imports Prelude Complex_Main "HOL-Library.Char_ord" "HOL-Library.List_Lexorder"
begin

text \<open>
  The Python values, strings and exceptions the components exchange: JSON-like values
  with their truth value, string operations on ASCII text, decimal numerals, and the
  class hierarchy behind \<open>isinstance\<close> on exceptions.
\<close>

section \<open>Values\<close>

text \<open>
  A float is an exact rational, an infinity or a NaN: rounding to a double is not
  modelled. \<open>PObj t\<close> is any other object, known by its \<open>str()\<close> text \<open>t\<close>.
\<close>

datatype pyfloat = Fin rat | PosInf | NegInf | NaN

datatype pyval =
    PNone
  | PBool bool
  | PInt int
  | PFloat pyfloat
  | PStr string
  | PList "pyval list"
  | PTuple "pyval list"
  | PDict "(string \<times> pyval) list"
  | PObj string

fun py_truth :: "pyval \<Rightarrow> bool" where
  "py_truth PNone = False"
| "py_truth (PBool b) = b"
| "py_truth (PInt n) = (n \<noteq> 0)"
| "py_truth (PFloat f) = (f \<noteq> Fin 0)"
| "py_truth (PStr s) = (s \<noteq> [])"
| "py_truth (PList xs) = (xs \<noteq> [])"
| "py_truth (PTuple xs) = (xs \<noteq> [])"
| "py_truth (PDict d) = (d \<noteq> [])"
| "py_truth (PObj t) = True"

text \<open>\<open>d.get(k)\<close>: the value, or \<open>None\<close> where the key is absent.\<close>

definition pget :: "(string \<times> pyval) list \<Rightarrow> string \<Rightarrow> pyval" where
  "pget d k = dget_or d k PNone"

fun is_str :: "pyval \<Rightarrow> bool" where
  "is_str (PStr s) = True"
| "is_str v = False"

fun is_dict :: "pyval \<Rightarrow> bool" where
  "is_dict (PDict d) = True"
| "is_dict v = False"

section \<open>Strings\<close>

definition char_code :: "char \<Rightarrow> nat" where
  "char_code c = of_char c"

definition lower_char :: "char \<Rightarrow> char" where
  "lower_char c = (if 65 \<le> char_code c \<and> char_code c \<le> 90 then char_of (char_code c + 32) else c)"

definition upper_char :: "char \<Rightarrow> char" where
  "upper_char c = (if 97 \<le> char_code c \<and> char_code c \<le> 122 then char_of (char_code c - 32) else c)"

definition py_lower :: "string \<Rightarrow> string" where
  "py_lower s = map lower_char s"

definition py_upper :: "string \<Rightarrow> string" where
  "py_upper s = map upper_char s"

definition is_space :: "char \<Rightarrow> bool" where
  "is_space c \<longleftrightarrow> (9 \<le> char_code c \<and> char_code c \<le> 13) \<or> (28 \<le> char_code c \<and> char_code c \<le> 32)"

definition newline :: char where
  "newline = CHR 0x0A"

definition is_digit :: "char \<Rightarrow> bool" where
  "is_digit c \<longleftrightarrow> 48 \<le> char_code c \<and> char_code c \<le> 57"

definition is_upper :: "char \<Rightarrow> bool" where
  "is_upper c \<longleftrightarrow> 65 \<le> char_code c \<and> char_code c \<le> 90"

definition is_lower :: "char \<Rightarrow> bool" where
  "is_lower c \<longleftrightarrow> 97 \<le> char_code c \<and> char_code c \<le> 122"

definition is_letter :: "char \<Rightarrow> bool" where
  "is_letter c \<longleftrightarrow> is_upper c \<or> is_lower c"

text \<open>\<open>\w\<close> of a Python regular expression, on ASCII.\<close>

definition is_word_char :: "char \<Rightarrow> bool" where
  "is_word_char c \<longleftrightarrow> is_letter c \<or> is_digit c \<or> c = CHR ''_''"

definition py_strip :: "string \<Rightarrow> string" where
  "py_strip s = rev (dropWhile is_space (rev (dropWhile is_space s)))"

definition starts_with :: "string \<Rightarrow> string \<Rightarrow> bool" where
  "starts_with p s \<longleftrightarrow> take (length p) s = p"

fun contains :: "string \<Rightarrow> string \<Rightarrow> bool" where
  "contains p [] = (p = [])"
| "contains p (c # s) = (starts_with p (c # s) \<or> contains p s)"

fun split_on :: "char \<Rightarrow> string \<Rightarrow> string list" where
  "split_on x [] = [[]]"
| "split_on x (c # s) =
     (if c = x then [] # split_on x s
      else (case split_on x s of [] \<Rightarrow> [[c]] | w # ws \<Rightarrow> (c # w) # ws))"

text \<open>
  \<open>s.rpartition(x)[0]\<close> and \<open>[2]\<close>: before and after the last \<open>x\<close>; with no \<open>x\<close> the first is
  empty and the last is \<open>s\<close>.
\<close>

definition before_last :: "char \<Rightarrow> string \<Rightarrow> string" where
  "before_last x s = rev (drop 1 (dropWhile (\<lambda>c. c \<noteq> x) (rev s)))"

definition after_last :: "char \<Rightarrow> string \<Rightarrow> string" where
  "after_last x s = rev (takeWhile (\<lambda>c. c \<noteq> x) (rev s))"

text \<open>\<open>s.rsplit(x, 1)[0]\<close>: before the last \<open>x\<close>, all of \<open>s\<close> where there is none.\<close>

definition rsplit_head :: "char \<Rightarrow> string \<Rightarrow> string" where
  "rsplit_head x s = (if x \<in> set s then before_last x s else s)"

text \<open>The text after the first \<open>p\<close>, where there is one.\<close>

fun after_first :: "string \<Rightarrow> string \<Rightarrow> string option" where
  "after_first p [] = (if p = [] then Some [] else None)"
| "after_first p (c # s) =
     (if starts_with p (c # s) then Some (drop (length p) (c # s)) else after_first p s)"

text \<open>Truth of an optional string, and \<open>a or b\<close> on one.\<close>

definition some_text :: "string option \<Rightarrow> bool" where
  "some_text v \<longleftrightarrow> v \<noteq> None \<and> v \<noteq> Some []"

definition text_or :: "string option \<Rightarrow> string \<Rightarrow> string" where
  "text_or v d = (if some_text v then the v else d)"

lemma some_text_simps [simp]: "\<not> some_text None" "some_text (Some t) \<longleftrightarrow> t \<noteq> []"
  by (simp_all add: some_text_def)

lemma text_or_simps [simp]: "text_or None d = d" "text_or (Some t) d = (if t = [] then d else t)"
  by (simp_all add: text_or_def)

fun first_some :: "'a option list \<Rightarrow> 'a option" where
  "first_some [] = None"
| "first_some (x # xs) = (case x of Some a \<Rightarrow> Some a | None \<Rightarrow> first_some xs)"

text \<open>\<open>s.replace(p, q)\<close> for a non-empty \<open>p\<close>.\<close>

function replace_all :: "string \<Rightarrow> string \<Rightarrow> string \<Rightarrow> string" where
  "replace_all p q s =
     (if p = [] then s
      else case s of
             [] \<Rightarrow> []
           | c # cs \<Rightarrow> if starts_with p s then q @ replace_all p q (drop (length p) s)
                       else c # replace_all p q cs)"
  by pat_completeness auto
termination
  by (relation "measure (\<lambda>(p, q, s). length s)") auto

declare replace_all.simps [simp del]

lemma split_on_nonempty [simp]: "split_on x s \<noteq> []"
  by (induction s) (auto split: list.splits)

lemma split_on_none: "x \<notin> set s \<Longrightarrow> split_on x s = [s]"
  by (induction s) auto

lemma split_on_append: "x \<notin> set s \<Longrightarrow> split_on x (s @ x # t) = s # split_on x t"
  by (induction s) auto

lemma before_last_append: "x \<notin> set t \<Longrightarrow> before_last x (s @ x # t) = s"
proof -
  assume "x \<notin> set t"
  then have "dropWhile (\<lambda>c. c \<noteq> x) (rev t @ x # rev s) = x # rev s"
    by (subst dropWhile_append2) auto
  then show ?thesis by (simp add: before_last_def)
qed

lemma rsplit_head_append: "x \<notin> set t \<Longrightarrow> rsplit_head x (s @ x # t) = s"
  by (simp add: rsplit_head_def before_last_append)

lemma starts_with_append [simp]: "starts_with p (p @ s)"
  by (simp add: starts_with_def)

lemma starts_with_iff: "starts_with p s \<longleftrightarrow> (\<exists>t. s = p @ t)"
  by (metis append_eq_conv_conj append_take_drop_id starts_with_def)

lemma contains_iff: "contains p s \<longleftrightarrow> (\<exists>a b. s = a @ p @ b)"
proof (induction s)
  case Nil
  then show ?case by auto
next
  case (Cons c s)
  have "contains p (c # s) \<longleftrightarrow> (\<exists>b. c # s = p @ b) \<or> (\<exists>a b. s = a @ p @ b)"
    using Cons by (simp add: starts_with_iff)
  also have "\<dots> \<longleftrightarrow> (\<exists>a b. c # s = a @ p @ b)"
    by (metis append_Cons append_Nil list.sel(3) neq_Nil_conv)
  finally show ?case .
qed

lemma py_strip_id: "s \<noteq> [] \<Longrightarrow> \<not> is_space (hd s) \<Longrightarrow> \<not> is_space (last s) \<Longrightarrow> py_strip s = s"
proof -
  assume s: "s \<noteq> []" "\<not> is_space (hd s)" "\<not> is_space (last s)"
  then have "dropWhile is_space s = s" by (cases s) auto
  moreover from s have "dropWhile is_space (rev s) = rev s"
    by (cases s rule: rev_cases) auto
  ultimately show ?thesis by (simp add: py_strip_def)
qed

lemma dropWhile_hd: "dropWhile P xs = [] \<or> \<not> P (hd (dropWhile P xs))"
  by (induction xs) auto

lemma py_strip_last: "py_strip s = [] \<or> \<not> is_space (last (py_strip s))"
  using dropWhile_hd [of is_space "rev (dropWhile is_space s)"]
  by (auto simp: py_strip_def last_rev)

lemma py_strip_Nil_iff: "py_strip s = [] \<longleftrightarrow> (\<forall>c \<in> set s. is_space c)"
proof -
  have "(\<forall>c \<in> set (dropWhile is_space s). is_space c) = (\<forall>c \<in> set s. is_space c)"
    by (metis dropWhile_eq_Nil_conv empty_iff empty_set hd_dropWhile hd_in_set set_dropWhileD)
  then show ?thesis by (simp add: py_strip_def dropWhile_eq_Nil_conv)
qed

lemma py_strip_hd: "py_strip s = [] \<or> \<not> is_space (hd (py_strip s))"
proof -
  let ?d = "dropWhile is_space s"
  have "?d = py_strip s @ rev (takeWhile is_space (rev ?d))"
    unfolding py_strip_def by (metis rev_append rev_rev_ident takeWhile_dropWhile_id)
  then show ?thesis using dropWhile_hd [of is_space s] by (metis append_is_Nil_conv hd_append2)
qed

section \<open>Decimal numerals\<close>

fun digit_char :: "nat \<Rightarrow> char" where
  "digit_char d = char_of (48 + d)"

fun show_nat :: "nat \<Rightarrow> string" where
  "show_nat n = (if n < 10 then [digit_char n] else show_nat (n div 10) @ [digit_char (n mod 10)])"

declare show_nat.simps [simp del]

definition show_int :: "int \<Rightarrow> string" where
  "show_int k = (if k < 0 then CHR ''-'' # show_nat (nat (- k)) else show_nat (nat k))"

definition digit_value :: "char \<Rightarrow> nat" where
  "digit_value c = char_code c - 48"

text \<open>\<open>int(s)\<close> on a non-empty string of digits.\<close>

definition digits_value :: "string \<Rightarrow> nat" where
  "digits_value s = foldl (\<lambda>n c. 10 * n + digit_value c) 0 s"

lemma char_code_char_of: "n < 256 \<Longrightarrow> char_code (char_of n) = n"
  by (simp add: char_code_def)

lemma is_digit_digit_char: "d < 10 \<Longrightarrow> is_digit (digit_char d)"
  by (simp add: is_digit_def char_code_char_of)

lemma digit_value_digit_char: "d < 10 \<Longrightarrow> digit_value (digit_char d) = d"
  by (simp add: digit_value_def char_code_char_of)

lemma digits_value_snoc: "digits_value (s @ [c]) = 10 * digits_value s + digit_value c"
  by (simp add: digits_value_def)

lemma digits_value_show_nat: "digits_value (show_nat n) = n"
proof (induction n rule: show_nat.induct)
  case (1 n)
  show ?case
  proof (cases "n < 10")
    case True
    then show ?thesis
      by (subst show_nat.simps) (simp add: digits_value_def digit_value_digit_char del: digit_char.simps)
  next
    case False
    with "1.IH" show ?thesis
      by (subst show_nat.simps) (simp add: digits_value_snoc digit_value_digit_char del: digit_char.simps)
  qed
qed

lemma show_nat_digits: "\<forall>c \<in> set (show_nat n). is_digit c"
proof (induction n rule: show_nat.induct)
  case (1 n)
  then show ?case
    by (subst show_nat.simps) (auto simp: is_digit_digit_char simp del: digit_char.simps)
qed

lemma show_nat_nonempty [simp]: "show_nat n \<noteq> []"
  by (subst show_nat.simps) simp

lemma show_nat_inject [simp]: "show_nat m = show_nat n \<longleftrightarrow> m = n"
  by (metis digits_value_show_nat)

text \<open>\<open>str(v)\<close>; \<open>rep\<close> is the text of a float or a container. \<open>a or b\<close>.\<close>

fun py_str :: "(pyval \<Rightarrow> string) \<Rightarrow> pyval \<Rightarrow> string" where
  "py_str rep PNone = ''None''"
| "py_str rep (PBool b) = (if b then ''True'' else ''False'')"
| "py_str rep (PInt n) = show_int n"
| "py_str rep (PStr t) = t"
| "py_str rep (PObj t) = t"
| "py_str rep v = rep v"

definition py_or :: "pyval \<Rightarrow> pyval \<Rightarrow> pyval" where
  "py_or a b = (if py_truth a then a else b)"

section \<open>Exceptions\<close>

text \<open>
  Every class the sources test with \<open>isinstance\<close>, with the hierarchy of Python 3.12;
  \<open>Derived n b\<close> is a class named \<open>n\<close> that derives from \<open>b\<close>.
\<close>

datatype exn_class =
    ExcBase | ExcException | ExcCancelled
  | ExcOSError | ExcTimeoutError | ExcConnectionError
  | ExcLookupError | ExcKeyError
  | ExcValueError | ExcTypeError | ExcAttributeError | ExcAssertionError
  | ExcRuntimeError | ExcNotImplementedError
  | Derived string exn_class

primrec bases :: "exn_class \<Rightarrow> exn_class list" where
  "bases ExcBase = [ExcBase]"
| "bases ExcException = [ExcException, ExcBase]"
| "bases ExcCancelled = [ExcCancelled, ExcBase]"
| "bases ExcOSError = [ExcOSError, ExcException, ExcBase]"
| "bases ExcTimeoutError = [ExcTimeoutError, ExcOSError, ExcException, ExcBase]"
| "bases ExcConnectionError = [ExcConnectionError, ExcOSError, ExcException, ExcBase]"
| "bases ExcLookupError = [ExcLookupError, ExcException, ExcBase]"
| "bases ExcKeyError = [ExcKeyError, ExcLookupError, ExcException, ExcBase]"
| "bases ExcValueError = [ExcValueError, ExcException, ExcBase]"
| "bases ExcTypeError = [ExcTypeError, ExcException, ExcBase]"
| "bases ExcAttributeError = [ExcAttributeError, ExcException, ExcBase]"
| "bases ExcAssertionError = [ExcAssertionError, ExcException, ExcBase]"
| "bases ExcRuntimeError = [ExcRuntimeError, ExcException, ExcBase]"
| "bases ExcNotImplementedError = [ExcNotImplementedError, ExcRuntimeError, ExcException, ExcBase]"
| "bases (Derived n b) = Derived n b # bases b"

primrec class_name :: "exn_class \<Rightarrow> string" where
  "class_name ExcBase = ''BaseException''"
| "class_name ExcException = ''Exception''"
| "class_name ExcCancelled = ''CancelledError''"
| "class_name ExcOSError = ''OSError''"
| "class_name ExcTimeoutError = ''TimeoutError''"
| "class_name ExcConnectionError = ''ConnectionError''"
| "class_name ExcLookupError = ''LookupError''"
| "class_name ExcKeyError = ''KeyError''"
| "class_name ExcValueError = ''ValueError''"
| "class_name ExcTypeError = ''TypeError''"
| "class_name ExcAttributeError = ''AttributeError''"
| "class_name ExcAssertionError = ''AssertionError''"
| "class_name ExcRuntimeError = ''RuntimeError''"
| "class_name ExcNotImplementedError = ''NotImplementedError''"
| "class_name (Derived n b) = n"

text \<open>An exception: its class, its \<open>str()\<close> text and the attributes \<open>getattr\<close> finds on it.\<close>

record py_exn =
  exc_class :: exn_class
  exc_text :: string
  exc_attrs :: "(string, pyval) dict"

definition plain_exn :: "exn_class \<Rightarrow> string \<Rightarrow> py_exn" where
  "plain_exn c t = \<lparr>exc_class = c, exc_text = t, exc_attrs = []\<rparr>"

definition isinstance :: "py_exn \<Rightarrow> exn_class list \<Rightarrow> bool" where
  "isinstance e cs \<longleftrightarrow> (\<exists>c \<in> set cs. c \<in> set (bases (exc_class e)))"

text \<open>\<open>getattr(e, name, None)\<close>.\<close>

definition exn_attr :: "py_exn \<Rightarrow> string \<Rightarrow> pyval" where
  "exn_attr e name = pget (exc_attrs e) name"

lemma bases_closed: "c \<in> set (bases d) \<Longrightarrow> set (bases c) \<subseteq> set (bases d)"
  by (induction d) auto

lemma isinstance_super: "isinstance e [c] \<Longrightarrow> d \<in> set (bases c) \<Longrightarrow> isinstance e [d]"
  using bases_closed by (fastforce simp: isinstance_def)

end
