(* ===== verification/ToolFaults.thy ===== *)
theory ToolFaults
  imports PyValues
begin

text \<open>
  The guards over failing tools, under trid3nt_server/model/guards: the three-way
  classifier of dispatch errors (actionability.py), the per-session circuit breaker
  (circuit_breaker.py) and the loop watchdog (runaway_guard.py).
\<close>

section \<open>actionability.py\<close>

datatype actionability = AgentClass | UserClass | OperatorClass

text \<open>The tuples \<open>_AGENT_CLASS_UNTYPED\<close> and \<open>_OPERATOR_CLASS_TYPES\<close>.\<close>

definition agent_class_untyped :: "exn_class list" where
  "agent_class_untyped =
     [ExcTimeoutError, ExcConnectionError, ExcOSError, ExcValueError, ExcTypeError,
      ExcKeyError, ExcAttributeError]"

definition operator_class_types :: "exn_class list" where
  "operator_class_types = [ExcAssertionError, ExcNotImplementedError]"

definition explicit_actionability :: "pyval \<Rightarrow> actionability option" where
  "explicit_actionability v =
     (if v = PStr ''agent'' then Some AgentClass
      else if v = PStr ''user'' then Some UserClass
      else if v = PStr ''operator'' then Some OperatorClass
      else None)"

text \<open>
  \<open>pydantic.ValidationError\<close> belongs to a third-party package: its class is the parameter
  \<open>validation_error\<close>.
\<close>

definition classify_actionability :: "exn_class \<Rightarrow> string \<Rightarrow> py_exn \<Rightarrow> actionability" where
  "classify_actionability validation_error tool_name error =
     (case explicit_actionability (exn_attr error ''actionability'') of
        Some a \<Rightarrow> a
      | None \<Rightarrow>
          if is_str (exn_attr error ''error_code'') \<and> py_truth (exn_attr error ''error_code'')
          then AgentClass
          else if isinstance error agent_class_untyped then AgentClass
          else if isinstance error operator_class_types then OperatorClass
          else if isinstance error [validation_error] then OperatorClass
          else AgentClass)"

section \<open>circuit_breaker.py\<close>

definition breaker_threshold :: int where
  "breaker_threshold = 3"

definition breaker_cooldown_s :: rat where
  "breaker_cooldown_s = 60"

definition is_client_arg_error :: "py_exn option \<Rightarrow> bool" where
  "is_client_arg_error error =
     (case error of
        None \<Rightarrow> False
      | Some e \<Rightarrow>
          (case exn_attr e ''retryable'' of
             PBool b \<Rightarrow> \<not> b
           | _ \<Rightarrow> isinstance e [ExcValueError, ExcTypeError, ExcKeyError, ExcAttributeError]))"

definition is_operator_class_error :: "exn_class \<Rightarrow> string \<Rightarrow> py_exn \<Rightarrow> bool" where
  "is_operator_class_error validation_error tool_name error =
     (classify_actionability validation_error tool_name error = OperatorClass)"

text \<open>
  \<open>ToolCircuitBreaker\<close>. Clock readings are \<open>time.monotonic()\<close> values, passed to each
  operation that reads the clock.
\<close>

record breaker =
  threshold :: int
  cooldown_s :: rat
  consecutive_failures :: "(string, int) dict"
  cooldown_until :: "(string, rat) dict"

definition new_breaker :: "int \<Rightarrow> rat \<Rightarrow> breaker" where
  "new_breaker th cd =
     \<lparr>threshold = th, cooldown_s = cd, consecutive_failures = dempty, cooldown_until = dempty\<rparr>"

definition is_tripped :: "rat \<Rightarrow> string \<Rightarrow> breaker \<Rightarrow> bool \<times> breaker" where
  "is_tripped now tool b =
     (case dget (cooldown_until b) tool of
        None \<Rightarrow> (False, b)
      | Some deadline \<Rightarrow>
          if deadline \<le> now
          then (False, b\<lparr>cooldown_until := dpop tool (cooldown_until b),
                         consecutive_failures := dpop tool (consecutive_failures b)\<rparr>)
          else (True, b))"

definition cooldown_remaining_s :: "rat \<Rightarrow> string \<Rightarrow> breaker \<Rightarrow> rat" where
  "cooldown_remaining_s now tool b =
     (case dget (cooldown_until b) tool of
        None \<Rightarrow> 0
      | Some deadline \<Rightarrow> max 0 (deadline - now))"

text \<open>The faults \<open>record_failure\<close> skips: a decline, a client fault, an operator fault.\<close>

definition failure_skipped :: "exn_class \<Rightarrow> string \<Rightarrow> py_exn option \<Rightarrow> bool" where
  "failure_skipped validation_error tool error \<longleftrightarrow>
     (case error of None \<Rightarrow> False | Some e \<Rightarrow> py_truth (exn_attr e ''declined'')) \<or>
     is_client_arg_error error \<or>
     (case error of None \<Rightarrow> False | Some e \<Rightarrow> is_operator_class_error validation_error tool e)"

text \<open>
  \<open>record_failure\<close> reads the clock in \<open>is_tripped\<close> (\<open>now\<close>) and again for the deadline
  (\<open>later\<close>).
\<close>

definition record_failure ::
  "exn_class \<Rightarrow> rat \<Rightarrow> rat \<Rightarrow> string \<Rightarrow> py_exn option \<Rightarrow> breaker \<Rightarrow> breaker" where
  "record_failure validation_error now later tool error b =
     (if failure_skipped validation_error tool error then b
      else
        (let (tripped, b1) = is_tripped now tool b in
         if tripped then b1
         else
           (let count = dget_or (consecutive_failures b1) tool 0 + 1;
                b2 = b1\<lparr>consecutive_failures := dput tool count (consecutive_failures b1)\<rparr>
            in if threshold b2 \<le> count
               then b2\<lparr>cooldown_until := dput tool (later + cooldown_s b2) (cooldown_until b2)\<rparr>
               else b2)))"

definition record_success :: "string \<Rightarrow> breaker \<Rightarrow> breaker" where
  "record_success tool b =
     b\<lparr>consecutive_failures := dpop tool (consecutive_failures b),
       cooldown_until := dpop tool (cooldown_until b)\<rparr>"

section \<open>runaway_guard.py\<close>

definition loop_repeat_n :: int where
  "loop_repeat_n = 4"

datatype abort_code = AbortWallClock | AbortLoopWatchdog

definition abort_reason :: "abort_code \<Rightarrow> string" where
  "abort_reason a =
     (case a of AbortWallClock \<Rightarrow> ''AGENT_TURN_TIMEOUT''
      | AbortLoopWatchdog \<Rightarrow> ''AGENT_LOOP_DETECTED'')"

text \<open>\<open>_ABORT_MESSAGES\<close> and \<open>abort_message\<close>; a code that is not in the table has a default.\<close>

definition abort_message :: "string \<Rightarrow> string" where
  "abort_message reason_code =
     (if reason_code = abort_reason AbortWallClock
      then ''Agent turn time limit reached - stopping to protect the session. '' @
           ''Try a narrower request or run heavy work as a separate step.''
      else if reason_code = abort_reason AbortLoopWatchdog
      then ''Agent appears to be looping with no progress - stopping to protect '' @
           ''the session. Try rephrasing your request.''
      else ''Agent stopped to protect the session.'')"

type_synonym signature = "(string \<times> string) list"

record watchdog =
  wd_threshold :: int
  last_signature :: "signature option"
  repeat_count :: int

definition new_watchdog :: "int option \<Rightarrow> watchdog" where
  "new_watchdog th =
     \<lparr>wd_threshold = (case th of None \<Rightarrow> loop_repeat_n | Some n \<Rightarrow> n),
      last_signature = None, repeat_count = 0\<rparr>"

definition watchdog_tripped :: "watchdog \<Rightarrow> abort_code option" where
  "watchdog_tripped w =
     (if wd_threshold w \<le> repeat_count w then Some AbortLoopWatchdog else None)"

definition record_round :: "signature \<Rightarrow> bool \<Rightarrow> watchdog \<Rightarrow> abort_code option \<times> watchdog" where
  "record_round calls made_progress w =
     (if calls = [] \<or> made_progress
      then (None, w\<lparr>last_signature := None, repeat_count := 0\<rparr>)
      else
        (let w1 = (if last_signature w = Some calls
                   then w\<lparr>repeat_count := repeat_count w + 1\<rparr>
                   else w\<lparr>last_signature := Some calls, repeat_count := 1\<rparr>)
         in (if wd_threshold w1 \<le> repeat_count w1 then Some AbortLoopWatchdog else None, w1)))"

section \<open>The breaker as one circuit per tool\<close>

text \<open>
  What the breaker promises, per tool: the circuit is closed with a number of counted
  failures, or open until a deadline.
\<close>

datatype circuit = Closed int | Open rat

definition circuit_of :: "breaker \<Rightarrow> string \<Rightarrow> circuit" where
  "circuit_of b tool =
     (case dget (cooldown_until b) tool of
        Some d \<Rightarrow> Open d
      | None \<Rightarrow> Closed (dget_or (consecutive_failures b) tool 0))"

fun circuit_query :: "rat \<Rightarrow> circuit \<Rightarrow> circuit" where
  "circuit_query now (Open d) = (if d \<le> now then Closed 0 else Open d)"
| "circuit_query now (Closed n) = Closed n"

definition circuit_fail :: "int \<Rightarrow> rat \<Rightarrow> rat \<Rightarrow> rat \<Rightarrow> circuit \<Rightarrow> circuit" where
  "circuit_fail th cd now later c =
     (case circuit_query now c of
        Open d \<Rightarrow> Open d
      | Closed n \<Rightarrow> if th \<le> n + 1 then Open (later + cd) else Closed (n + 1))"

fun circuit_open :: "circuit \<Rightarrow> bool" where
  "circuit_open (Open d) = True"
| "circuit_open (Closed n) = False"

lemma is_tripped_circuit:
  "fst (is_tripped now tool b) = circuit_open (circuit_query now (circuit_of b tool))"
  "circuit_of (snd (is_tripped now tool b)) t =
     (if t = tool then circuit_query now (circuit_of b tool) else circuit_of b t)"
  "threshold (snd (is_tripped now tool b)) = threshold b"
  "cooldown_s (snd (is_tripped now tool b)) = cooldown_s b"
  by (auto simp: is_tripped_def circuit_of_def split: option.splits)

lemma record_success_circuit:
  "circuit_of (record_success tool b) t = (if t = tool then Closed 0 else circuit_of b t)"
  by (auto simp: record_success_def circuit_of_def split: option.splits)

lemma record_failure_params:
  "threshold (record_failure ve now later tool e b) = threshold b"
  "cooldown_s (record_failure ve now later tool e b) = cooldown_s b"
  using is_tripped_circuit(3,4) [of now tool b]
  by (auto simp: record_failure_def Let_def split: prod.splits)

lemma circuit_of_put:
  "circuit_of (b\<lparr>consecutive_failures := dput tool n (consecutive_failures b)\<rparr>) t =
     (if t = tool \<and> \<not> circuit_open (circuit_of b tool) then Closed n else circuit_of b t)"
  "circuit_of (b\<lparr>consecutive_failures := fs, cooldown_until := dput tool d (cooldown_until b)\<rparr>) tool = Open d"
  by (auto simp: circuit_of_def split: option.splits)

lemma circuit_closed_count:
  "circuit_of b tool = Closed n \<Longrightarrow> dget_or (consecutive_failures b) tool 0 = n"
  by (simp add: circuit_of_def split: option.splits)

lemma record_failure_other:
  assumes "t \<noteq> tool"
  shows "circuit_of (record_failure ve now later tool e b) t = circuit_of b t"
proof -
  obtain tripped b1 where b1: "is_tripped now tool b = (tripped, b1)" by fastforce
  with assms have "circuit_of b1 t = circuit_of b t"
    using is_tripped_circuit(2) [of now tool b t] by simp
  with assms b1 show ?thesis
    by (auto simp: record_failure_def Let_def circuit_of_def split: option.splits)
qed

lemma record_failure_counted:
  assumes "\<not> failure_skipped ve tool e"
  shows "circuit_of (record_failure ve now later tool e b) tool =
           circuit_fail (threshold b) (cooldown_s b) now later (circuit_of b tool)"
proof -
  obtain tripped b1 where b1: "is_tripped now tool b = (tripped, b1)" by fastforce
  then have c: "tripped = circuit_open (circuit_query now (circuit_of b tool))"
    "circuit_of b1 tool = circuit_query now (circuit_of b tool)"
    "threshold b1 = threshold b" "cooldown_s b1 = cooldown_s b"
    using is_tripped_circuit [of now tool b] by simp_all
  show ?thesis
  proof (cases "circuit_query now (circuit_of b tool)")
    case (Open d)
    with c assms b1 show ?thesis by (simp add: record_failure_def circuit_fail_def)
  next
    case (Closed n)
    with c have "dget_or (consecutive_failures b1) tool 0 = n"
      by (simp add: circuit_closed_count)
    with Closed c assms b1 show ?thesis
      by (simp add: record_failure_def circuit_fail_def circuit_of_put)
  qed
qed

text \<open>
  C1: the dictionaries of the breaker implement one circuit per tool. Asking, failing and
  succeeding act on the circuit of the tool named as the abstract circuit does, a skipped
  fault changes nothing, and no operation touches the circuit of another tool.
\<close>

theorem breaker_refines_circuits:
  "circuit_of (record_failure ve now later tool e b) t =
     (if t = tool \<and> \<not> failure_skipped ve tool e
      then circuit_fail (threshold b) (cooldown_s b) now later (circuit_of b tool)
      else circuit_of b t) \<and>
   circuit_of (snd (is_tripped now tool b)) t =
     (if t = tool then circuit_query now (circuit_of b tool) else circuit_of b t) \<and>
   fst (is_tripped now tool b) = circuit_open (circuit_query now (circuit_of b tool)) \<and>
   circuit_of (record_success tool b) t = (if t = tool then Closed 0 else circuit_of b t)"
proof -
  have "failure_skipped ve tool e \<Longrightarrow> record_failure ve now later tool e b = b"
    by (simp add: record_failure_def)
  then have "circuit_of (record_failure ve now later tool e b) t =
     (if t = tool \<and> \<not> failure_skipped ve tool e
      then circuit_fail (threshold b) (cooldown_s b) now later (circuit_of b tool)
      else circuit_of b t)"
    by (cases "t = tool"; cases "failure_skipped ve tool e")
       (simp_all add: record_failure_counted record_failure_other)
  then show ?thesis by (simp add: is_tripped_circuit record_success_circuit)
qed

section \<open>Runs of the breaker\<close>

datatype breaker_op =
    Ask rat string
  | Fail rat rat string "py_exn option"
  | Succeed string

fun breaker_step :: "exn_class \<Rightarrow> breaker_op \<Rightarrow> breaker \<Rightarrow> breaker" where
  "breaker_step ve (Ask now tool) b = snd (is_tripped now tool b)"
| "breaker_step ve (Fail now later tool e) b = record_failure ve now later tool e b"
| "breaker_step ve (Succeed tool) b = record_success tool b"

text \<open>The invariant: a closed circuit has counted fewer failures than the threshold.\<close>

definition breaker_ok :: "breaker \<Rightarrow> bool" where
  "breaker_ok b \<longleftrightarrow> 1 \<le> threshold b \<and>
     (\<forall>t n. circuit_of b t = Closed n \<longrightarrow> 0 \<le> n \<and> n < threshold b)"

definition breaker_fresh :: "breaker \<Rightarrow> bool" where
  "breaker_fresh b \<longleftrightarrow> 1 \<le> threshold b \<and> b = new_breaker (threshold b) (cooldown_s b)"

lemma circuit_of_new [simp]: "circuit_of (new_breaker th cd) t = Closed 0"
  by (simp add: circuit_of_def new_breaker_def)

lemma new_breaker_params [simp]:
  "threshold (new_breaker th cd) = th" "cooldown_s (new_breaker th cd) = cd"
  by (simp_all add: new_breaker_def)

lemma breaker_step_params [simp]:
  "threshold (breaker_step ve x b) = threshold b"
  "cooldown_s (breaker_step ve x b) = cooldown_s b"
  by (cases x; simp add: record_failure_params is_tripped_circuit record_success_def)+

lemma circuit_query_Closed:
  "circuit_query now c = Closed n \<Longrightarrow> c = Closed n \<or> n = 0"
  by (cases c) (auto split: if_splits)

lemma circuit_fail_Closed:
  "circuit_fail th cd now later c = Closed n \<Longrightarrow> n < th \<and> (\<exists>m. circuit_query now c = Closed m \<and> n = m + 1)"
  by (auto simp: circuit_fail_def split: circuit.splits if_splits)

lemma breaker_ok_closed: "breaker_ok b \<Longrightarrow> circuit_of b t = Closed n \<Longrightarrow> 0 \<le> n \<and> n < threshold b"
  by (simp add: breaker_ok_def)

lemma breaker_ok_query:
  "breaker_ok b \<Longrightarrow> circuit_query now (circuit_of b t) = Closed n \<Longrightarrow> 0 \<le> n \<and> n < threshold b"
  using circuit_query_Closed [of now "circuit_of b t" n] breaker_ok_closed [of b t n]
  by (auto simp: breaker_ok_def)

lemma breaker_step_circuit:
  "circuit_of (breaker_step ve x b) t =
     (case x of
        Ask now tool \<Rightarrow> if t = tool then circuit_query now (circuit_of b tool) else circuit_of b t
      | Fail now later tool e \<Rightarrow>
          if t = tool \<and> \<not> failure_skipped ve tool e
          then circuit_fail (threshold b) (cooldown_s b) now later (circuit_of b tool)
          else circuit_of b t
      | Succeed tool \<Rightarrow> if t = tool then Closed 0 else circuit_of b t)"
proof (cases x)
  case (Fail now later tool e)
  have "failure_skipped ve tool e \<Longrightarrow> record_failure ve now later tool e b = b"
    by (simp add: record_failure_def)
  with Fail show ?thesis
    by (cases "t = tool"; cases "failure_skipped ve tool e")
       (simp_all add: record_failure_counted record_failure_other)
qed (simp_all add: is_tripped_circuit record_success_circuit)

lemma breaker_ok_fail:
  assumes "breaker_ok b" and "circuit_fail (threshold b) cd now later (circuit_of b t) = Closed n"
  shows "0 \<le> n \<and> n < threshold b"
proof -
  obtain m where "n < threshold b" "circuit_query now (circuit_of b t) = Closed m" "n = m + 1"
    using circuit_fail_Closed [OF assms(2)] by auto
  with breaker_ok_query [OF assms(1)] show ?thesis by force
qed

lemma breaker_step_ok: "breaker_ok b \<Longrightarrow> breaker_ok (breaker_step ve x b)"
proof -
  assume ok: "breaker_ok b"
  have pos: "1 \<le> threshold b" using ok by (simp add: breaker_ok_def)
  have "0 \<le> n \<and> n < threshold b" if c: "circuit_of (breaker_step ve x b) t = Closed n" for t n
  proof (cases x)
    case (Ask now tool)
    with c [unfolded breaker_step_circuit] show ?thesis
      using breaker_ok_query [OF ok, of now tool n] breaker_ok_closed [OF ok, of t n]
      by (simp split: if_splits)
  next
    case (Fail now later tool e)
    with c [unfolded breaker_step_circuit] show ?thesis
      using breaker_ok_fail [OF ok, of "cooldown_s b" now later tool n] breaker_ok_closed [OF ok, of t n]
      by (simp split: if_splits)
  next
    case (Succeed tool)
    with c [unfolded breaker_step_circuit] pos show ?thesis
      using breaker_ok_closed [OF ok, of t n] by (simp split: if_splits)
  qed
  with pos show ?thesis by (simp add: breaker_ok_def)
qed

lemma breaker_fresh_ok: "breaker_fresh b \<Longrightarrow> breaker_ok b"
proof -
  assume "breaker_fresh b"
  then have "1 \<le> threshold b" and b: "b = new_breaker (threshold b) (cooldown_s b)"
    by (simp_all add: breaker_fresh_def)
  moreover have "circuit_of b t = Closed 0" for t
    by (subst b) simp
  ultimately show ?thesis by (simp add: breaker_ok_def)
qed

interpretation breaker_runs: kept_invariant breaker_fresh "breaker_step ve" breaker_ok
  for ve
  by unfold_locales (rule breaker_fresh_ok, assumption, rule breaker_step_ok)

lemma fails_below_threshold:
  assumes "\<forall>x \<in> set fs. \<not> failure_skipped ve tool (snd (snd x))"
    and "circuit_of b tool = Closed k" and "k + int (length fs) < threshold b"
  shows "circuit_of (run_ops (breaker_step ve)
           (map (\<lambda>(now, later, e). Fail now later tool e) fs) b) tool = Closed (k + int (length fs))"
  using assms
proof (induction fs arbitrary: b k)
  case Nil
  then show ?case by simp
next
  case (Cons x fs)
  obtain now later e where x: "x = (now, later, e)" by (cases x) auto
  let ?b = "breaker_step ve (Fail now later tool e) b"
  have "circuit_of ?b tool = Closed (k + 1)"
    using Cons.prems x by (simp add: record_failure_counted circuit_fail_def)
  moreover have "k + 1 + int (length fs) < threshold ?b"
    using Cons.prems(3) by (simp add: record_failure_params)
  ultimately show ?case
    using Cons.IH [of ?b "k + 1"] Cons.prems(1) x by (simp add: algebra_simps)
qed



text \<open>
  in every state a session's breaker can reach, by any sequence of questions, failures
  and successes, a tool that is not in its cooldown has counted fewer failures than the
  threshold, and its count is not negative.
\<close>

theorem breaker_reachable_counts:
  assumes "1 \<le> th"
    and "\<not> fst (is_tripped now tool (run_ops (breaker_step ve) ops (new_breaker th cd)))"
  shows "0 \<le> dget_or (consecutive_failures
             (snd (is_tripped now tool (run_ops (breaker_step ve) ops (new_breaker th cd))))) tool 0 \<and>
         dget_or (consecutive_failures
             (snd (is_tripped now tool (run_ops (breaker_step ve) ops (new_breaker th cd))))) tool 0 < th"
proof -
  let ?b = "run_ops (breaker_step ve) ops (new_breaker th cd)"
  have th: "threshold (run_ops (breaker_step ve) xs b) = threshold b" for xs b
    by (induction xs arbitrary: b) simp_all
  have "breaker_fresh (new_breaker th cd)"
    using assms(1) by (simp add: breaker_fresh_def new_breaker_def)
  then have "breaker_ok ?b" by (rule breaker_runs.inv_reached)
  then have ok: "breaker_ok (snd (is_tripped now tool ?b))"
    using breaker_step_ok [of ?b ve "Ask now tool"] by simp
  obtain n where n: "circuit_of (snd (is_tripped now tool ?b)) tool = Closed n"
    using assms(2) by (cases "circuit_query now (circuit_of ?b tool)") (auto simp: is_tripped_circuit)
  have "threshold (snd (is_tripped now tool ?b)) = th"
    by (simp add: is_tripped_circuit th new_breaker_def)
  then show ?thesis
    using breaker_ok_closed [OF ok n] circuit_closed_count [OF n] by simp
qed

theorem breaker_reachable_counts_witness:
  "dget_or (consecutive_failures (snd (is_tripped 5 ''t''
      (run_ops (breaker_step ExcValueError) [Fail 0 0 ''t'' None, Fail 1 1 ''t'' None]
        (new_breaker 3 60))))) ''t'' 0 < 3"
proof -
  have "\<not> fst (is_tripped 5 ''t'' (run_ops (breaker_step ExcValueError)
      [Fail 0 0 ''t'' None, Fail 1 1 ''t'' None] (new_breaker 3 60)))"
    by (simp add: is_tripped_def record_failure_def failure_skipped_def is_client_arg_error_def
        new_breaker_def dget_or_def Let_def)
  from breaker_reachable_counts [OF _ this] show ?thesis by simp
qed

section \<open>The watchdog as a function of the rounds\<close>

text \<open>
  The watchdog keeps one signature and one count. What it computes is the length of the
  run of equal, call-bearing, no-progress rounds at the end of the turn so far.
\<close>

type_synonym round = "signature \<times> bool"

fun watch :: "round list \<Rightarrow> watchdog \<Rightarrow> watchdog" where
  "watch [] w = w"
| "watch ((calls, progress) # rs) w = watch rs (snd (record_round calls progress w))"

definition counted_round :: "round \<Rightarrow> bool" where
  "counted_round r \<longleftrightarrow> fst r \<noteq> [] \<and> \<not> snd r"

definition trailing_streak :: "round list \<Rightarrow> nat" where
  "trailing_streak rs =
     (if rs \<noteq> [] \<and> counted_round (last rs)
      then length (takeWhile (\<lambda>r. r = last rs) (rev rs)) else 0)"

lemma watch_append: "watch (xs @ ys) w = watch ys (watch xs w)"
proof (induction xs arbitrary: w)
  case (Cons x xs)
  then show ?case by (cases x) simp
qed simp

lemma watch_threshold [simp]: "wd_threshold (watch rs w) = wd_threshold w"
proof (induction rs arbitrary: w)
  case (Cons r rs)
  then show ?case by (cases r) (simp add: record_round_def Let_def)
qed simp

lemma trailing_streak_snoc:
  "trailing_streak (rs @ [r]) =
     (if counted_round r
      then (if rs \<noteq> [] \<and> last rs = r then Suc (trailing_streak rs) else 1)
      else 0)"
proof (cases "counted_round r \<and> rs \<noteq> [] \<and> last rs = r")
  case True
  then show ?thesis by (simp add: trailing_streak_def)
next
  case False
  then show ?thesis
    by (cases rs rule: rev_cases) (auto simp: trailing_streak_def)
qed

lemma trailing_streak_single: "trailing_streak [r] = (if counted_round r then 1 else 0)"
  using trailing_streak_snoc [of "[]" r] by simp

lemma watch_state:
  "repeat_count (watch rs (new_watchdog th)) = int (trailing_streak rs) \<and>
   last_signature (watch rs (new_watchdog th)) =
     (if rs \<noteq> [] \<and> counted_round (last rs) then Some (fst (last rs)) else None)"
proof (induction rs rule: rev_induct)
  case Nil
  then show ?case by (simp add: new_watchdog_def trailing_streak_def)
next
  case (snoc r rs)
  obtain calls progress where r: "r = (calls, progress)" by fastforce
  show ?case
  proof (cases "counted_round r")
    case False
    with r show ?thesis
      by (auto simp: watch_append record_round_def trailing_streak_snoc counted_round_def)
  next
    case True
    obtain calls' progress' where l: "last rs = (calls', progress')" by fastforce
    show ?thesis
      using True snoc by (cases "rs = []")
        (auto simp: r l watch_append record_round_def Let_def trailing_streak_snoc
           trailing_streak_single counted_round_def new_watchdog_def)
  qed
qed

text \<open>
  C3: the watchdog, fed any rounds one at a time, answers with the loop abort on a round
  exactly when that round bears calls, made no progress, and ends a run of at least
  threshold equal such rounds. Its constant-size state computes the run length that a
  scan over all rounds of the turn would.
\<close>

theorem watchdog_counts_trailing_rounds:
  "repeat_count (watch rs (new_watchdog (Some th))) = int (trailing_streak rs) \<and>
   fst (record_round calls progress (watch rs (new_watchdog (Some th)))) =
     (if counted_round (calls, progress) \<and> th \<le> int (trailing_streak (rs @ [(calls, progress)]))
      then Some AbortLoopWatchdog else None)"
proof -
  have th: "wd_threshold (new_watchdog (Some th)) = th" by (simp add: new_watchdog_def)
  have "trailing_streak (rs @ [(calls, progress)]) =
      nat (repeat_count (watch (rs @ [(calls, progress)]) (new_watchdog (Some th))))"
    using watch_state [of "rs @ [(calls, progress)]" "Some th"] by simp
  moreover have "0 \<le> repeat_count (watch (rs @ [(calls, progress)]) (new_watchdog (Some th)))"
    using watch_state [of "rs @ [(calls, progress)]" "Some th"] by simp
  ultimately show ?thesis
    using watch_state [of rs "Some th"]
    by (auto simp: watch_append record_round_def Let_def counted_round_def th)
qed

section \<open>What the classifier answers\<close>

text \<open>
  where the class of validation errors derives from \<open>ValueError\<close> (as it does in
  pydantic 2), a validation error that declares neither an actionability nor an error code
  is classified as the agent's. The branch that would answer operator for it is never
  reached, and the breaker skips it as an argument error, not as an operator fault.
\<close>

theorem validation_error_is_agent_class:
  assumes "ExcValueError \<in> set (bases validation_error)"
    and "isinstance e [validation_error]"
    and "explicit_actionability (exn_attr e ''actionability'') = None"
    and "exn_attr e ''error_code'' = PNone"
  shows "classify_actionability validation_error tool e = AgentClass \<and>
         \<not> is_operator_class_error validation_error tool e"
proof -
  have "isinstance e [ExcValueError]" using assms(1,2) isinstance_super by blast
  then have "isinstance e agent_class_untyped"
    by (auto simp: isinstance_def agent_class_untyped_def)
  with assms(3,4) have "classify_actionability validation_error tool e = AgentClass"
    by (simp add: classify_actionability_def)
  then show ?thesis by (simp add: is_operator_class_error_def)
qed

theorem validation_error_is_agent_class_witness:
  "classify_actionability (Derived ''ValidationError'' ExcValueError) ''fetch_dem''
     (plain_exn (Derived ''ValidationError'' ExcValueError) ''1 validation error'') = AgentClass"
  using validation_error_is_agent_class [of "Derived ''ValidationError'' ExcValueError"
      "plain_exn (Derived ''ValidationError'' ExcValueError) ''1 validation error''" "''fetch_dem''"]
  by (simp add: isinstance_def plain_exn_def exn_attr_def pget_def dget_or_def
      explicit_actionability_def)

text \<open>
  no exception is classified operator unless it says so itself or is an assertion, an
  unimplemented operation or a validation error, and a fault that is answered agent or user
  never counts as an operator fault in the breaker.
\<close>

theorem operator_class_is_narrow:
  "classify_actionability validation_error tool e = OperatorClass \<longleftrightarrow>
     exn_attr e ''actionability'' = PStr ''operator'' \<or>
     (explicit_actionability (exn_attr e ''actionability'') = None \<and>
      \<not> (is_str (exn_attr e ''error_code'') \<and> py_truth (exn_attr e ''error_code'')) \<and>
      \<not> isinstance e agent_class_untyped \<and>
      isinstance e [ExcAssertionError, ExcNotImplementedError, validation_error])"
proof (cases "explicit_actionability (exn_attr e ''actionability'')")
  case None
  then have "exn_attr e ''actionability'' \<noteq> PStr ''operator''"
    by (auto simp: explicit_actionability_def)
  with None show ?thesis
    by (auto simp: classify_actionability_def operator_class_types_def isinstance_def)
next
  case (Some a)
  then show ?thesis
    by (auto simp: classify_actionability_def explicit_actionability_def split: if_splits)
qed

end
