(* ===== verification/PendingReplies.thy ===== *)
theory PendingReplies
  imports PyValues
begin

text \<open>
  trid3nt_server/inputs/gate/pending.py: the registry a turn parks on while it waits for the
  user's answer to a card. Futures live in a store and are named by their place in it; the
  coroutines suspended inside \<open>park\<close> are listed with the key and the future their frames hold.
  What other coroutines do to the registry during a wait is a sequence of operations.
\<close>

section \<open>Futures and registries\<close>

datatype 'v future = Waiting | Answered 'v | Broken py_exn | Abandoned

record ('k, 'v) replies =
  rp_entries :: "('k, string \<times> nat) dict"
  rp_futures :: "'v future list"
  rp_parked :: "(nat, 'k) dict"

definition no_replies :: "('k, 'v) replies" where
  "no_replies = \<lparr>rp_entries = [], rp_futures = [], rp_parked = []\<rparr>"

definition future_done :: "'v future \<Rightarrow> bool" where
  "future_done fut = (case fut of Waiting \<Rightarrow> False | _ \<Rightarrow> True)"

definition future_of :: "('k, 'v) replies \<Rightarrow> nat \<Rightarrow> 'v future" where
  "future_of st f = (if f < length (rp_futures st) then rp_futures st ! f else Abandoned)"

definition put_future :: "nat \<Rightarrow> 'v future \<Rightarrow> ('k, 'v) replies \<Rightarrow> ('k, 'v) replies" where
  "put_future f v st = st\<lparr>rp_futures := (rp_futures st)[f := v]\<rparr>"

definition register_reply :: "string \<Rightarrow> 'k \<Rightarrow> nat \<Rightarrow> ('k, 'v) replies \<Rightarrow> ('k, 'v) replies" where
  "register_reply session key f st = st\<lparr>rp_entries := dput key (session, f) (rp_entries st)\<rparr>"

definition drop_reply :: "'k \<Rightarrow> ('k, 'v) replies \<Rightarrow> ('k, 'v) replies" where
  "drop_reply key st = st\<lparr>rp_entries := dpop key (rp_entries st)\<rparr>"

text \<open>\<open>_claim\<close>: the live future of a key, for its owner alone.\<close>

definition claim :: "string \<Rightarrow> 'k \<Rightarrow> ('k, 'v) replies \<Rightarrow> nat option \<times> ('k, 'v) replies" where
  "claim session key st =
     (case dget (rp_entries st) key of
        None \<Rightarrow> (None, st)
      | Some (owner, f) \<Rightarrow>
          if owner \<noteq> session then (None, st)
          else (if future_done (future_of st f) then None else Some f, drop_reply key st))"

definition resolve :: "string \<Rightarrow> 'k \<Rightarrow> 'v \<Rightarrow> ('k, 'v) replies \<Rightarrow> bool \<times> ('k, 'v) replies" where
  "resolve session key v st =
     (case claim session key st of
        (None, st') \<Rightarrow> (False, st')
      | (Some f, st') \<Rightarrow> (True, put_future f (Answered v) st'))"

definition fail_reply :: "string \<Rightarrow> 'k \<Rightarrow> py_exn \<Rightarrow> ('k, 'v) replies \<Rightarrow> bool \<times> ('k, 'v) replies" where
  "fail_reply session key e st =
     (case claim session key st of
        (None, st') \<Rightarrow> (False, st')
      | (Some f, st') \<Rightarrow> (True, put_future f (Broken e) st'))"

section \<open>park\<close>

text \<open>
  The three parts of \<open>park\<close>: up to the send, the wait itself, and its \<open>finally\<close>. A wait ends
  by its deadline or by the cancellation of the task; a future still waiting then is cancelled.
\<close>

datatype wait_end = Deadline | TaskCancelled

definition park_open :: "string \<Rightarrow> 'k \<Rightarrow> ('k, 'v) replies \<Rightarrow> nat \<times> ('k, 'v) replies" where
  "park_open session key st =
     (let f = length (rp_futures st) in
      (f, register_reply session key f
            (st\<lparr>rp_futures := rp_futures st @ [Waiting], rp_parked := dput f key (rp_parked st)\<rparr>)))"

definition wait_outcome :: "wait_end \<Rightarrow> 'v future \<Rightarrow> py_exn + 'v" where
  "wait_outcome e fut =
     (case e of
        TaskCancelled \<Rightarrow> Inl (plain_exn ExcCancelled [])
      | Deadline \<Rightarrow>
          (case fut of
             Answered v \<Rightarrow> Inr v
           | Broken x \<Rightarrow> Inl x
           | Waiting \<Rightarrow> Inl (plain_exn ExcTimeoutError [])
           | Abandoned \<Rightarrow> Inl (plain_exn ExcCancelled [])))"

definition leave_park :: "nat \<Rightarrow> 'k \<Rightarrow> ('k, 'v) replies \<Rightarrow> ('k, 'v) replies" where
  "leave_park f key st = drop_reply key (st\<lparr>rp_parked := dpop f (rp_parked st)\<rparr>)"

definition park_close :: "nat \<Rightarrow> 'k \<Rightarrow> wait_end \<Rightarrow> ('k, 'v) replies \<Rightarrow> (py_exn + 'v) \<times> ('k, 'v) replies" where
  "park_close f key e st =
     (let fut = future_of st f;
          st1 = (if future_done fut then st else put_future f Abandoned st)
      in (wait_outcome e fut, leave_park f key st1))"

text \<open>
  What other coroutines do: answer a key, fail it, open a wait of their own, end one. An end
  of a wait that is not suspended is nothing.
\<close>

datatype ('k, 'v) reply_op =
    Resolve string 'k 'v
  | Fail string 'k py_exn
  | OpenWait string 'k
  | EndWait nat wait_end

fun reply_step :: "('k, 'v) reply_op \<Rightarrow> ('k, 'v) replies \<Rightarrow> ('k, 'v) replies" where
  "reply_step (Resolve session key v) st = snd (resolve session key v st)"
| "reply_step (Fail session key e) st = snd (fail_reply session key e st)"
| "reply_step (OpenWait session key) st = snd (park_open session key st)"
| "reply_step (EndWait f e) st =
     (case dget (rp_parked st) f of None \<Rightarrow> st | Some key \<Rightarrow> snd (park_close f key e st))"

definition park ::
  "string \<Rightarrow> 'k \<Rightarrow> py_exn option \<Rightarrow> ('k, 'v) reply_op list \<Rightarrow> wait_end \<Rightarrow> ('k, 'v) replies
     \<Rightarrow> (py_exn + 'v) \<times> ('k, 'v) replies" where
  "park session key send_fault during e st =
     (let (f, st1) = park_open session key st in
      case send_fault of
        Some x \<Rightarrow> (Inl x, leave_park f key st1)
      | None \<Rightarrow> park_close f key e (run_ops reply_step during st1))"

section \<open>An entry never outlives its wait\<close>

lemma future_of_put:
  "future_of (put_future f v st) g = (if g = f \<and> f < length (rp_futures st) then v else future_of st g)"
  by (simp add: future_of_def put_future_def nth_list_update)

lemma future_of_frame [simp]:
  "future_of (rp_entries_update fe st) g = future_of st g"
  "future_of (rp_parked_update fp st) g = future_of st g"
  "future_of (drop_reply key st) g = future_of st g"
  "future_of (register_reply session key f st) g = future_of st g"
  by (simp_all add: future_of_def drop_reply_def register_reply_def)

lemma reply_fields [simp]:
  "rp_entries (put_future f v st) = rp_entries st"
  "rp_parked (put_future f v st) = rp_parked st"
  "length (rp_futures (put_future f v st)) = length (rp_futures st)"
  "rp_entries (drop_reply key st) = dpop key (rp_entries st)"
  "rp_parked (drop_reply key st) = rp_parked st"
  "rp_futures (drop_reply key st) = rp_futures st"
  by (simp_all add: put_future_def drop_reply_def)

lemma future_done_simps [simp]:
  "\<not> future_done Waiting" "future_done (Answered v)" "future_done (Broken e)" "future_done Abandoned"
  by (simp_all add: future_done_def)

lemma not_done [simp]: "\<not> future_done fut \<longleftrightarrow> fut = Waiting"
  by (cases fut) simp_all

text \<open>Every entry belongs to a coroutine still suspended on it, and its future is not done.\<close>

definition replies_ok :: "('k, 'v) replies \<Rightarrow> bool" where
  "replies_ok st \<longleftrightarrow>
     (\<forall>f key. dget (rp_parked st) f = Some key \<longrightarrow> f < length (rp_futures st)) \<and>
     (\<forall>key session f. dget (rp_entries st) key = Some (session, f) \<longrightarrow>
        dget (rp_parked st) f = Some key \<and> future_of st f = Waiting)"

lemma replies_okD:
  "replies_ok st \<Longrightarrow> dget (rp_parked st) f = Some key \<Longrightarrow> f < length (rp_futures st)"
  "replies_ok st \<Longrightarrow> dget (rp_entries st) key = Some (session, f) \<Longrightarrow> dget (rp_parked st) f = Some key"
  "replies_ok st \<Longrightarrow> dget (rp_entries st) key = Some (session, f) \<Longrightarrow> future_of st f = Waiting"
  unfolding replies_ok_def by blast+

lemma no_replies_ok: "replies_ok no_replies"
  by (simp add: replies_ok_def no_replies_def)

lemma drop_reply_ok: "replies_ok st \<Longrightarrow> replies_ok (drop_reply key st)"
  by (auto simp: replies_ok_def split: if_splits)

text \<open>What a claim hands out, and what it leaves.\<close>

lemma claim_cases:
  obtains (stranger) "claim session key st = (None, st)"
  | (spent) f where "claim session key st = (None, drop_reply key st)" "future_done (future_of st f)"
      "dget (rp_entries st) key = Some (session, f)"
  | (live) f where "claim session key st = (Some f, drop_reply key st)" "future_of st f = Waiting"
      "dget (rp_entries st) key = Some (session, f)"
proof (cases "dget (rp_entries st) key")
  case None
  then show thesis by (intro stranger) (simp add: claim_def)
next
  case (Some p)
  obtain owner f where p: "p = (owner, f)" by (cases p)
  consider "owner \<noteq> session" | "owner = session" "future_done (future_of st f)"
    | "owner = session" "future_of st f = Waiting" by fastforce
  then show thesis
    by cases (use Some p in \<open>simp_all add: claim_def stranger spent live\<close>)
qed

lemma claimed_ok:
  assumes "replies_ok st" and "claim session key st = (Some f, st')"
  shows "replies_ok (put_future f v st')"
proof -
  from assms(2) have e: "dget (rp_entries st) key = Some (session, f)" and st': "st' = drop_reply key st"
    by (auto simp: claim_def split: option.splits if_splits)
  from e have own: "dget (rp_parked st) f = Some key" using assms(1) by (blast dest: replies_okD)
  then have "k = key" if "dget (rp_entries st) k = Some (s, f)" for k s
    using replies_okD(2) [OF assms(1) that] by simp
  with assms(1) show ?thesis
    unfolding st' replies_ok_def by (auto simp: future_of_put split: if_splits)
qed

lemma claim_ok: "replies_ok st \<Longrightarrow> claim session key st = (None, st') \<Longrightarrow> replies_ok st'"
  by (cases session key st rule: claim_cases) (auto intro: drop_reply_ok)

lemma resolve_ok: "replies_ok st \<Longrightarrow> replies_ok (snd (resolve session key v st))"
  by (auto simp: resolve_def split: prod.split option.split intro: claim_ok claimed_ok)

lemma fail_reply_ok: "replies_ok st \<Longrightarrow> replies_ok (snd (fail_reply session key e st))"
  by (auto simp: fail_reply_def split: prod.split option.split intro: claim_ok claimed_ok)

lemma park_open_ok: "replies_ok st \<Longrightarrow> replies_ok (snd (park_open session key st))"
proof -
  assume ok: "replies_ok st"
  have old: "dget (rp_parked st) f = Some k \<and> f < length (rp_futures st) \<and> rp_futures st ! f = Waiting"
    if "dget (rp_entries st) k = Some (s, f)" for s k f
    using replies_okD [OF ok] that by (metis future_of_def)
  show ?thesis
    unfolding replies_ok_def park_open_def Let_def register_reply_def
    using old replies_okD(1) [OF ok]
    by (fastforce simp: future_of_def nth_append less_Suc_eq split: if_splits)
qed

lemma leave_park_ok:
  assumes "replies_ok st" and "dget (rp_parked st) f = Some key"
  shows "replies_ok (leave_park f key st)"
  using assms unfolding replies_ok_def leave_park_def by (auto split: if_splits)

lemma park_close_ok:
  assumes "replies_ok st" and "dget (rp_parked st) f = Some key"
  shows "replies_ok (snd (park_close f key e st))"
proof -
  have "replies_ok (leave_park f key (put_future f Abandoned st))"
  proof -
    have "dget (rp_parked st) g = Some k \<Longrightarrow> k \<noteq> key \<Longrightarrow> g \<noteq> f" for g k
      using assms(2) by auto
    then show ?thesis
      using assms unfolding replies_ok_def leave_park_def by (auto simp: future_of_put split: if_splits)
  qed
  with assms show ?thesis by (simp add: park_close_def Let_def leave_park_ok)
qed

lemma reply_step_ok: "replies_ok st \<Longrightarrow> replies_ok (reply_step op st)"
  by (cases op)
     (auto simp: resolve_ok fail_reply_ok park_open_ok park_close_ok split: option.split)

interpretation pending_replies: kept_invariant "\<lambda>st. st = no_replies" reply_step replies_ok
  by unfold_locales (auto simp: no_replies_ok reply_step_ok)

text \<open>
  The operations of other coroutines do not end this wait, and the waits they open hold other
  futures: a wait still suspended is ended by its own coroutine alone.
\<close>

fun spares_wait :: "nat \<Rightarrow> ('k, 'v) reply_op \<Rightarrow> bool" where
  "spares_wait f (EndWait g e) \<longleftrightarrow> g \<noteq> f"
| "spares_wait f op \<longleftrightarrow> True"

lemma claim_frame [simp]:
  "rp_parked (snd (claim session key st)) = rp_parked st"
  "rp_futures (snd (claim session key st)) = rp_futures st"
  by (auto simp: claim_def split: option.splits)

lemma resolve_frame [simp]:
  "rp_parked (snd (resolve session key v st)) = rp_parked st"
  "length (rp_futures (snd (resolve session key v st))) = length (rp_futures st)"
  by (cases session key st rule: claim_cases; simp add: resolve_def)+

lemma fail_frame [simp]:
  "rp_parked (snd (fail_reply session key e st)) = rp_parked st"
  "length (rp_futures (snd (fail_reply session key e st))) = length (rp_futures st)"
  by (cases session key st rule: claim_cases; simp add: fail_reply_def)+

lemma parked_step:
  assumes "replies_ok st" and "dget (rp_parked st) f = Some key" and "f < length (rp_futures st)"
    and "spares_wait f op"
  shows "dget (rp_parked (reply_step op st)) f = Some key \<and> f < length (rp_futures (reply_step op st))"
  using assms
  by (cases op) (auto simp: park_open_def Let_def register_reply_def park_close_def leave_park_def split: option.split)

lemma parked_run:
  "replies_ok st \<Longrightarrow> dget (rp_parked st) f = Some key \<Longrightarrow> f < length (rp_futures st) \<Longrightarrow>
   list_all (spares_wait f) ops \<Longrightarrow>
   replies_ok (run_ops reply_step ops st) \<and> dget (rp_parked (run_ops reply_step ops st)) f = Some key"
  by (induction ops arbitrary: st) (simp_all add: parked_step reply_step_ok)

section \<open>Whose answer ends a wait\<close>

text \<open>The entries that lead to a future are those of one key and one owner.\<close>

definition leads_only :: "('k, string \<times> nat) dict \<Rightarrow> nat \<Rightarrow> 'k \<Rightarrow> string \<Rightarrow> bool" where
  "leads_only d f key session \<longleftrightarrow> (\<forall>k s. dget d k = Some (s, f) \<longrightarrow> k = key \<and> s = session)"

lemma leads_onlyD: "leads_only d f key session \<Longrightarrow> dget d k = Some (s, f) \<Longrightarrow> k = key \<and> s = session"
  by (simp add: leads_only_def)

lemma leads_only_dpop: "leads_only d f key session \<Longrightarrow> leads_only (dpop k d) f key session"
  by (simp add: leads_only_def)

lemma leads_only_dput: "leads_only d f key session \<Longrightarrow> g \<noteq> f \<Longrightarrow> leads_only (dput k (s, g) d) f key session"
  by (simp add: leads_only_def)

text \<open>
  Seen from one wait: its future is answered only with one of the values \<open>vs\<close>, and the only entry
  that leads to it is its own.
\<close>

definition waits_for :: "string \<Rightarrow> 'k \<Rightarrow> nat \<Rightarrow> 'v set \<Rightarrow> ('k, 'v) replies \<Rightarrow> bool" where
  "waits_for session key f vs st \<longleftrightarrow>
     f < length (rp_futures st) \<and> leads_only (rp_entries st) f key session \<and>
     (\<forall>v. future_of st f = Answered v \<longrightarrow> v \<in> vs)"

definition replies_from :: "string \<Rightarrow> 'k \<Rightarrow> ('k, 'v) reply_op list \<Rightarrow> 'v set" where
  "replies_from session key ops = {v. Resolve session key v \<in> set ops}"

lemma waits_for_drop: "waits_for session key f vs st \<Longrightarrow> waits_for session key f vs (drop_reply k st)"
  by (simp add: waits_for_def leads_only_dpop)

lemma waits_for_put:
  assumes "waits_for session key f vs st" and "\<And>v. g = f \<Longrightarrow> fut = Answered v \<Longrightarrow> v \<in> ws"
  shows "waits_for session key f (vs \<union> ws) (put_future g fut st)"
  using assms by (auto simp: waits_for_def future_of_put)

lemma waits_for_more: "waits_for session key f vs st \<Longrightarrow> waits_for session key f (vs \<union> ws) st"
  by (auto simp: waits_for_def)

lemma waits_for_leave: "waits_for session key f vs st \<Longrightarrow> waits_for session key f vs (leave_park g k st)"
  by (simp add: leave_park_def waits_for_def leads_only_dpop)

lemma waits_for_close:
  assumes "waits_for session key f vs st"
  shows "waits_for session key f vs (snd (park_close g k e st))"
proof -
  have "waits_for session key f (vs \<union> {}) (put_future g Abandoned st)"
    using assms by (rule waits_for_put) simp
  with assms show ?thesis by (simp add: park_close_def Let_def waits_for_leave)
qed

lemma waits_for_open:
  assumes "waits_for session key f vs st"
  shows "waits_for session key f vs (snd (park_open s k st))"
  using assms
  by (auto simp: park_open_def Let_def register_reply_def waits_for_def leads_only_dput future_of_def nth_append)

lemma waits_for_resolve:
  assumes w: "waits_for session key f vs st"
  shows "waits_for session key f (vs \<union> replies_from session key [Resolve s k v]) (snd (resolve s k v st))"
proof (cases s k st rule: claim_cases)
  case (live g)
  have "waits_for session key f (vs \<union> replies_from session key [Resolve s k v])
          (put_future g (Answered v) (drop_reply k st))"
  proof (rule waits_for_put [OF waits_for_drop [OF w]])
    fix u assume "g = f" and u: "Answered v = Answered u"
    with live(3) w have "k = key \<and> s = session" by (auto simp: waits_for_def dest: leads_onlyD)
    with u show "u \<in> replies_from session key [Resolve s k v]" by (simp add: replies_from_def)
  qed
  with live(1) show ?thesis by (simp add: resolve_def)
qed (use w in \<open>simp_all add: resolve_def waits_for_more waits_for_drop\<close>)

lemma waits_for_fail:
  assumes w: "waits_for session key f vs st"
  shows "waits_for session key f vs (snd (fail_reply s k e st))"
proof (cases s k st rule: claim_cases)
  case (live g)
  have "waits_for session key f (vs \<union> {}) (put_future g (Broken e) (drop_reply k st))"
    by (rule waits_for_put [OF waits_for_drop [OF w]]) simp
  with live(1) show ?thesis by (simp add: fail_reply_def)
qed (use w in \<open>simp_all add: fail_reply_def waits_for_drop\<close>)

lemma waits_for_step:
  assumes "waits_for session key f vs st"
  shows "waits_for session key f (vs \<union> replies_from session key [op]) (reply_step op st)"
proof (cases op)
  case (Resolve s k v)
  with assms show ?thesis by (simp add: waits_for_resolve)
qed (use assms in \<open>simp_all add: waits_for_more waits_for_fail waits_for_open waits_for_close split: option.split\<close>)

lemma waits_for_run:
  "waits_for session key f vs st \<Longrightarrow>
   waits_for session key f (vs \<union> replies_from session key ops) (run_ops reply_step ops st)"
proof (induction ops arbitrary: st vs)
  case Nil
  then show ?case by (simp add: replies_from_def)
next
  case (Cons op ops)
  have "vs \<union> replies_from session key [op] \<union> replies_from session key ops = vs \<union> replies_from session key (op # ops)"
    by (auto simp: replies_from_def)
  with Cons.IH [OF waits_for_step [OF Cons.prems, of op]] show ?case by simp
qed

lemma waits_for_opened:
  assumes "replies_ok st"
  shows "waits_for session key (fst (park_open session key st)) {} (snd (park_open session key st))"
proof -
  have "f < length (rp_futures st)" if "dget (rp_entries st) k = Some (s, f)" for k s f
    using replies_okD [OF assms] that by blast
  then show ?thesis
    by (force simp: park_open_def Let_def register_reply_def waits_for_def leads_only_def future_of_def split: if_splits)
qed

lemma parked_answer:
  assumes "replies_ok st" and "park session key send_fault during e st = (Inr v, st')"
  shows "Resolve session key v \<in> set during"
proof -
  let ?f = "fst (park_open session key st)" and ?st = "run_ops reply_step during (snd (park_open session key st))"
  from assms(2) have "send_fault = None" and o: "wait_outcome e (future_of ?st ?f) = Inr v"
    by (auto simp: park_def park_close_def Let_def split: prod.splits option.splits)
  from o have "future_of ?st ?f = Answered v"
    by (cases "future_of ?st ?f"; cases e) (simp_all add: wait_outcome_def)
  with waits_for_run [OF waits_for_opened [OF assms(1)], of session key during] show ?thesis
    by (simp add: waits_for_def replies_from_def)
qed

text \<open>
  C34: a wait that returns a value returns one the owning session sent for this very key while
  it waited: no reply of another session, to another key or before the wait can end it.
\<close>

theorem answer_comes_from_owner:
  assumes "replies_ok st" and "park session key send_fault during e st = (Inr v, st')"
  shows "Resolve session key v \<in> set during"
  using assms by (rule parked_answer)

theorem answer_comes_from_owner_witness:
  "Resolve ''a'' (7::nat) True \<in>
     set [Resolve ''b'' 7 False, Resolve ''a'' 8 False, Resolve ''a'' 7 True, Resolve ''a'' 7 False]"
proof (rule answer_comes_from_owner [OF no_replies_ok])
  show "park ''a'' (7::nat) None
      [Resolve ''b'' 7 False, Resolve ''a'' 8 False, Resolve ''a'' 7 True, Resolve ''a'' 7 False]
      Deadline no_replies =
    (Inr True, \<lparr>rp_entries = [], rp_futures = [Answered True], rp_parked = []\<rparr>)"
    by code_simp
qed

lemma park_ok:
  assumes "replies_ok st" and "list_all (spares_wait (length (rp_futures st))) during"
  shows "replies_ok (snd (park session key send_fault during e st))"
proof -
  let ?f = "length (rp_futures st)"
  obtain st1 where p: "park_open session key st = (?f, st1)" by (simp add: park_open_def Let_def)
  then have o: "replies_ok st1" "dget (rp_parked st1) ?f = Some key" "?f < length (rp_futures st1)"
    using park_open_ok [OF assms(1), of session key] by (auto simp: park_open_def register_reply_def Let_def)
  note run = parked_run [OF o assms(2)]
  have c: "replies_ok (snd (park_close ?f key e (run_ops reply_step during st1)))"
    using run by (intro park_close_ok) simp_all
  show ?thesis
  proof (cases send_fault)
    case None
    with c show ?thesis by (simp add: park_def p)
  next
    case (Some x)
    with leave_park_ok [OF o(1,2)] show ?thesis by (simp add: park_def p)
  qed
qed

section \<open>The owner's answer arrives\<close>

text \<open>An operation that leaves the wait on \<open>key\<close> alone: a stranger's answer to it is one.\<close>

fun spares :: "string \<Rightarrow> 'k \<Rightarrow> nat \<Rightarrow> ('k, 'v) reply_op \<Rightarrow> bool" where
  "spares session key f (Resolve s k v) \<longleftrightarrow> k \<noteq> key \<or> s \<noteq> session"
| "spares session key f (Fail s k e) \<longleftrightarrow> k \<noteq> key \<or> s \<noteq> session"
| "spares session key f (OpenWait s k) \<longleftrightarrow> k \<noteq> key"
| "spares session key f (EndWait g e) \<longleftrightarrow> g \<noteq> f"

definition undisturbed :: "string \<Rightarrow> 'k \<Rightarrow> nat \<Rightarrow> ('k, 'v) replies \<Rightarrow> bool" where
  "undisturbed session key f st \<longleftrightarrow>
     f < length (rp_futures st) \<and> future_of st f = Waiting \<and>
     dget (rp_entries st) key = Some (session, f) \<and> leads_only (rp_entries st) f key session \<and>
     (\<forall>g. g \<noteq> f \<longrightarrow> dget (rp_parked st) g \<noteq> Some key)"

lemma undisturbed_other:
  "undisturbed session key f st \<Longrightarrow> dget (rp_entries st) k = Some (s, g) \<Longrightarrow> k \<noteq> key \<Longrightarrow> g \<noteq> f"
  by (auto simp: undisturbed_def dest: leads_onlyD)

lemma spared_drop: "undisturbed session key f st \<Longrightarrow> k \<noteq> key \<Longrightarrow> undisturbed session key f (drop_reply k st)"
  by (simp add: undisturbed_def leads_only_dpop)

lemma spared_put: "undisturbed session key f st \<Longrightarrow> g \<noteq> f \<Longrightarrow> undisturbed session key f (put_future g fut st)"
  by (simp add: undisturbed_def future_of_put)

lemma spared_claim:
  assumes u: "undisturbed session key f st" and d: "k \<noteq> key \<or> s \<noteq> session"
  shows "undisturbed session key f (snd (resolve s k v st)) \<and> undisturbed session key f (snd (fail_reply s k e st))"
proof (cases s k st rule: claim_cases)
  case (live g)
  with u d have "k \<noteq> key" by (auto simp: undisturbed_def)
  with u live undisturbed_other [OF u live(3)] show ?thesis
    by (simp add: resolve_def fail_reply_def spared_put spared_drop)
next
  case (spent g)
  with u d have "k \<noteq> key" by (auto simp: undisturbed_def)
  with u spent show ?thesis by (simp add: resolve_def fail_reply_def spared_drop)
qed (use u in \<open>simp add: resolve_def fail_reply_def\<close>)

lemma spared_open:
  assumes "undisturbed session key f st" and "k \<noteq> key"
  shows "undisturbed session key f (snd (park_open s k st))"
  using assms
  by (auto simp: park_open_def Let_def register_reply_def undisturbed_def leads_only_dput future_of_def nth_append)

lemma spared_close:
  assumes "undisturbed session key f st" and "g \<noteq> f" and "k \<noteq> key"
  shows "undisturbed session key f (snd (park_close g k e st))"
proof -
  have leave: "undisturbed session key f (leave_park g k st')" if "undisturbed session key f st'" for st' :: "('a, 'b) replies"
    using that assms(2,3) by (simp add: leave_park_def undisturbed_def leads_only_dpop)
  show ?thesis
    by (simp add: park_close_def Let_def leave [OF assms(1)] leave [OF spared_put [OF assms(1,2)]])
qed

lemma spared_step:
  assumes "undisturbed session key f st" and "spares session key f op"
  shows "undisturbed session key f (reply_step op st)"
proof (cases op)
  case (EndWait g e)
  show ?thesis
  proof (cases "dget (rp_parked st) g")
    case None
    with assms EndWait show ?thesis by simp
  next
    case (Some k)
    with assms EndWait have "g \<noteq> f" "k \<noteq> key" by (auto simp: undisturbed_def)
    with assms EndWait Some show ?thesis by (simp add: spared_close)
  qed
qed (use assms in \<open>simp_all add: spared_claim spared_open\<close>)

lemma spared_run:
  "undisturbed session key f st \<Longrightarrow> list_all (spares session key f) ops \<Longrightarrow>
   undisturbed session key f (run_ops reply_step ops st)"
  by (induction ops arbitrary: st) (simp_all add: spared_step)

lemma undisturbed_opened:
  assumes "replies_ok st" and "list_all (\<lambda>p. snd p \<noteq> key) (rp_parked st)"
  shows "undisturbed session key (length (rp_futures st)) (snd (park_open session key st))"
proof -
  have "dget (rp_parked st) g \<noteq> Some key" for g
    using assms(2) by (force simp: list_all_iff dest: dget_Some_in)
  moreover have "f < length (rp_futures st)" if "dget (rp_entries st) k = Some (s, f)" for k s f
    using replies_okD [OF assms(1)] that by blast
  ultimately show ?thesis
    by (force simp: undisturbed_def leads_only_def park_open_def Let_def register_reply_def future_of_def
        split: if_splits)
qed

text \<open>A future that is done stays as it is: no later operation answers it again.\<close>

lemma answered_stays: "future_of st f = Answered v \<Longrightarrow> future_of (reply_step op st) f = Answered v"
proof (cases op)
  case (Resolve s k u)
  assume "future_of st f = Answered v"
  with Resolve show ?thesis by (cases s k st rule: claim_cases) (auto simp: resolve_def future_of_put)
next
  case (Fail s k e)
  assume "future_of st f = Answered v"
  with Fail show ?thesis by (cases s k st rule: claim_cases) (auto simp: fail_reply_def future_of_put)
next
  case (OpenWait s k)
  assume "future_of st f = Answered v"
  with OpenWait show ?thesis
    by (auto simp: park_open_def Let_def register_reply_def future_of_def nth_append split: if_splits)
next
  case (EndWait g e)
  assume "future_of st f = Answered v"
  with EndWait show ?thesis
    by (auto simp: park_close_def Let_def leave_park_def future_of_put split: option.split)
qed

lemma answered_stays_run: "future_of st f = Answered v \<Longrightarrow> future_of (run_ops reply_step ops st) f = Answered v"
  by (induction ops arbitrary: st) (simp_all add: answered_stays)

lemma owner_resolves:
  assumes "undisturbed session key f st"
  shows "future_of (snd (resolve session key v st)) f = Answered v"
  using assms by (simp add: undisturbed_def resolve_def claim_def future_of_put)

text \<open>
  C35: the first answer the owning session sends while the wait lasts is the value the wait
  returns, whatever other sessions send to the same key, whatever other waits open and end, and
  whatever comes after it; and the wait leaves no entry behind.
\<close>

theorem owner_answer_arrives:
  assumes "replies_ok st" and "list_all (\<lambda>p. snd p \<noteq> key) (rp_parked st)"
    and "list_all (spares session key (length (rp_futures st))) before"
  shows "\<exists>st'. park session key None (before @ Resolve session key v # after) Deadline st = (Inr v, st') \<and>
           dget (rp_entries st') key = None"
proof -
  let ?f = "length (rp_futures st)"
  let ?st1 = "run_ops reply_step before (snd (park_open session key st))"
  let ?st2 = "reply_step (Resolve session key v) ?st1"
  have u: "undisturbed session key ?f ?st1"
    using assms by (intro spared_run undisturbed_opened)
  then have "future_of ?st2 ?f = Answered v"
    by (simp add: owner_resolves)
  then have "future_of (run_ops reply_step after ?st2) ?f = Answered v"
    by (rule answered_stays_run)
  then show ?thesis
    by (simp add: park_def park_open_def park_close_def Let_def run_ops_append wait_outcome_def leave_park_def)
qed

theorem owner_answer_arrives_witness:
  "\<exists>st'. park ''a'' (7::nat) None
      ([Resolve ''b'' 7 False, OpenWait ''b'' 8, Fail ''b'' 7 (plain_exn ExcValueError [])] @
       Resolve ''a'' 7 True # [Resolve ''a'' 7 False]) Deadline no_replies = (Inr True, st') \<and>
     dget (rp_entries st') 7 = None"
  by (rule owner_answer_arrives [OF no_replies_ok]) (simp_all add: no_replies_def)

text \<open>
  C36: after any sequence of waits opened and ended, answered, failed and answered late, by any
  sessions, every entry belongs to a wait still suspended whose future is not done; so once no
  wait is suspended the registry is empty.
\<close>

theorem entries_belong_to_waits:
  "let st = run_ops reply_step ops no_replies in
     replies_ok st \<and> (if rp_parked st = [] then rp_entries st = [] else True)"
proof -
  let ?st = "run_ops reply_step ops no_replies"
  have ok: "replies_ok ?st" by (rule pending_replies.inv_reached) (rule refl)
  moreover have "rp_entries ?st = []" if "rp_parked ?st = []"
  proof (cases "rp_entries ?st")
    case (Cons p d)
    obtain key session f where "p = (key, session, f)" by (cases p)
    with Cons have "dget (rp_entries ?st) key = Some (session, f)" by simp
    then have "dget (rp_parked ?st) f = Some key" by (rule replies_okD(2) [OF ok])
    with that show ?thesis by simp
  qed
  ultimately show ?thesis by (simp add: Let_def)
qed

end
