(* ===== verification/CacheWindows.thy ===== *)
theory CacheWindows
  imports PyValues
begin

text \<open>
  The TTL classes of contracts/trid3nt_contracts/tool_registry.py and the cache windows of
  \<open>ttl_bucket_vintage\<close> in trid3nt_server/tools/cache.py, with the part of Python's
  \<open>datetime\<close> they rest on: proleptic Gregorian ordinals and \<open>isocalendar\<close>.
\<close>

section \<open>Python dates\<close>

text \<open>The fields of a \<open>datetime\<close>, read in the timezone it carries.\<close>

record py_datetime =
  dt_year :: int
  dt_month :: int
  dt_day :: int
  dt_hour :: int
  dt_minute :: int
  dt_second :: int
  dt_microsecond :: int

definition is_leap :: "int \<Rightarrow> bool" where
  "is_leap y \<longleftrightarrow> y mod 4 = 0 \<and> (y mod 100 \<noteq> 0 \<or> y mod 400 = 0)"

definition days_before_year :: "int \<Rightarrow> int" where
  "days_before_year y = (y - 1) * 365 + (y - 1) div 4 - (y - 1) div 100 + (y - 1) div 400"

definition days_in_month :: "int \<Rightarrow> int \<Rightarrow> int" where
  "days_in_month y m =
     (if m = 2 then (if is_leap y then 29 else 28)
      else if m = 4 \<or> m = 6 \<or> m = 9 \<or> m = 11 then 30 else 31)"

definition days_before_month :: "int \<Rightarrow> int \<Rightarrow> int" where
  "days_before_month y m =
     [0, 0, 31, 59, 90, 120, 151, 181, 212, 243, 273, 304, 334] ! nat m +
     (if 2 < m \<and> is_leap y then 1 else 0)"

definition to_ordinal :: "py_datetime \<Rightarrow> int" where
  "to_ordinal t = days_before_year (dt_year t) + days_before_month (dt_year t) (dt_month t) + dt_day t"

text \<open>The Monday on which ISO week 1 of a year starts.\<close>

definition iso_week1_monday :: "int \<Rightarrow> int" where
  "iso_week1_monday y =
     (let firstday = days_before_year y + 1; firstweekday = (firstday + 6) mod 7;
          monday = firstday - firstweekday
      in if 3 < firstweekday then monday + 7 else monday)"

definition iso_week :: "int \<Rightarrow> int \<Rightarrow> int \<times> int" where
  "iso_week y today =
     (let week = (today - iso_week1_monday y) div 7 in
      if week < 0 then (y - 1, (today - iso_week1_monday (y - 1)) div 7 + 1)
      else if 52 \<le> week \<and> iso_week1_monday (y + 1) \<le> today then (y + 1, 1)
      else (y, week + 1))"

definition isocalendar :: "py_datetime \<Rightarrow> int \<times> int" where
  "isocalendar t = iso_week (dt_year t) (to_ordinal t)"

definition datetime_ok :: "py_datetime \<Rightarrow> bool" where
  "datetime_ok t \<longleftrightarrow> 1 \<le> dt_year t \<and> dt_year t \<le> 9999 \<and> 1 \<le> dt_month t \<and> dt_month t \<le> 12 \<and>
     1 \<le> dt_day t \<and> dt_day t \<le> days_in_month (dt_year t) (dt_month t) \<and>
     0 \<le> dt_hour t \<and> dt_hour t < 24 \<and> 0 \<le> dt_minute t \<and> dt_minute t < 60 \<and>
     0 \<le> dt_second t \<and> dt_second t < 60 \<and> 0 \<le> dt_microsecond t \<and> dt_microsecond t < 1000000"

section \<open>Windows\<close>

datatype ttl_class = Static30d | SemiStatic7d | Dynamic1h | LiveNoCache

definition ttl_text :: "ttl_class \<Rightarrow> string" where
  "ttl_text c = (case c of Static30d \<Rightarrow> ''static-30d'' | SemiStatic7d \<Rightarrow> ''semi-static-7d''
     | Dynamic1h \<Rightarrow> ''dynamic-1h'' | LiveNoCache \<Rightarrow> ''live-no-cache'')"

text \<open>\<open>%02d\<close>.\<close>

definition two_digits :: "int \<Rightarrow> string" where
  "two_digits n = (if n < 10 then CHR ''0'' # show_int n else show_int n)"

definition ttl_bucket_vintage :: "ttl_class \<Rightarrow> py_datetime \<Rightarrow> string" where
  "ttl_bucket_vintage c now =
     (case c of
        Static30d \<Rightarrow> show_int (dt_year now) @ ''-'' @ two_digits (dt_month now)
      | SemiStatic7d \<Rightarrow>
          (let (iso_year, week) = isocalendar now in show_int iso_year @ ''-W'' @ two_digits week)
      | Dynamic1h \<Rightarrow>
          (let top_of_hour = now\<lparr>dt_minute := 0, dt_second := 0, dt_microsecond := 0\<rparr> in
           show_int (dt_year top_of_hour) @ ''-'' @ two_digits (dt_month top_of_hour) @ ''-'' @
           two_digits (dt_day top_of_hour) @ ''T'' @ two_digits (dt_hour top_of_hour) @ '':00:00Z'')
      | LiveNoCache \<Rightarrow> ''live'')"

section \<open>ISO weeks\<close>

lemma div_step:
  fixes y k :: int
  assumes "0 < k"
  shows "y div k = (y - 1) div k + (if y mod k = 0 then 1 else 0)"
proof (cases "y mod k = 0")
  case True
  have "(y - 1) div k = y div k - 1"
    using True assms div_mult_mod_eq [of y k]
    by (intro int_div_pos_eq [where r = "k - 1"]) (simp_all add: algebra_simps)
  with True show ?thesis by simp
next
  case False
  then have "0 < y mod k" "y mod k < k"
    using pos_mod_sign [OF assms, of y] pos_mod_bound [OF assms, of y] by linarith+
  then have "(y - 1) div k = y div k"
    using div_mult_mod_eq [of y k]
    by (intro int_div_pos_eq [where r = "y mod k - 1"]) (simp_all add: algebra_simps)
  with False show ?thesis by simp
qed

lemma year_length:
  "days_before_year (y + 1) = days_before_year y + (if is_leap y then 366 else 365)"
proof -
  have a: "(4 :: int) dvd 100" and b: "(100 :: int) dvd 400" by simp_all
  have c: "y mod 100 = 0 \<longrightarrow> y mod 4 = 0" "y mod 400 = 0 \<longrightarrow> y mod 100 = 0"
    using dvd_trans [OF a, of y] dvd_trans [OF b, of y] unfolding mod_eq_0_iff_dvd by blast+
  have l: "is_leap y \<longleftrightarrow> y mod 4 = 0 \<and> (y mod 100 \<noteq> 0 \<or> y mod 400 = 0)" by (rule is_leap_def)
  have d: "days_before_year (y + 1) - days_before_year y =
      365 + (y div 4 - (y - 1) div 4) - (y div 100 - (y - 1) div 100) + (y div 400 - (y - 1) div 400)"
  proof -
    have "(y * 365 + a - b + c) - ((y - 1) * 365 + a' - b' + c') = 365 + (a - a') - (b - b') + (c - c')"
      for a b c a' b' c' :: int by simp
    then show ?thesis unfolding days_before_year_def add_diff_cancel_right' .
  qed
  have "y div 4 - (y - 1) div 4 = (if y mod 4 = 0 then 1 else 0)"
    "y div 100 - (y - 1) div 100 = (if y mod 100 = 0 then 1 else 0)"
    "y div 400 - (y - 1) div 400 = (if y mod 400 = 0 then 1 else 0)"
    unfolding div_step [of 4 y, simplified] div_step [of 100 y, simplified] div_step [of 400 y, simplified]
    by (simp_all only: add_diff_cancel_left')
  then have "days_before_year (y + 1) - days_before_year y =
      365 + (if y mod 4 = 0 then 1 else 0) - (if y mod 100 = 0 then 1 else 0) + (if y mod 400 = 0 then 1 else 0)"
    using d by (simp only:)
  then show ?thesis using c l by (cases "y mod 4 = 0"; cases "y mod 100 = 0"; cases "y mod 400 = 0"; simp)
qed

lemma week1_monday_mod: "iso_week1_monday y mod 7 = 1"
proof -
  define d where "d = days_before_year y + 1 + 6"
  have "iso_week1_monday y = 7 * (d div 7) - 6 \<or> iso_week1_monday y = 7 * (d div 7) + 1"
    using minus_mod_eq_mult_div [of d 7] by (auto simp: iso_week1_monday_def Let_def d_def)
  then show ?thesis by presburger
qed

lemma week1_monday_near:
  "days_before_year y - 2 \<le> iso_week1_monday y \<and> iso_week1_monday y \<le> days_before_year y + 4"
proof -
  have "0 \<le> (days_before_year y + 1 + 6) mod 7" "(days_before_year y + 1 + 6) mod 7 < 7" by simp_all
  then show ?thesis unfolding iso_week1_monday_def Let_def by (auto split: if_splits)
qed

lemma week1_monday_step:
  "iso_week1_monday y + 364 \<le> iso_week1_monday (y + 1) \<and>
   iso_week1_monday (y + 1) \<le> iso_week1_monday y + 371"
proof -
  have aligned: "a + 364 \<le> b \<and> b \<le> a + 371"
    if "a mod 7 = 1" "b mod 7 = 1" "a + 359 \<le> b" "b \<le> a + 372" for a b :: int
  proof -
    define m n where "m = a div 7" and "n = b div 7"
    have "a = 7 * m + 1" "b = 7 * n + 1"
      using that(1,2) mult_div_mod_eq [of 7 a] mult_div_mod_eq [of 7 b] unfolding m_def n_def by linarith+
    then have m: "a = 7 * m + 1" and n: "b = 7 * n + 1" .
    show ?thesis using that(3,4) unfolding m n by presburger
  qed
  show ?thesis
    using week1_monday_near [of y] week1_monday_near [of "y + 1"] year_length [of y]
    by (intro aligned) (auto simp: week1_monday_mod split: if_splits)
qed

text \<open>
  \<open>iso_week\<close> finds the year and week of a day: the weeks of a year run from its first
  Monday to the next, whichever calendar year the day is in.
\<close>

definition in_iso_week :: "int \<Rightarrow> int \<times> int \<Rightarrow> bool" where
  "in_iso_week today yw \<longleftrightarrow>
     iso_week1_monday (fst yw) + 7 * (snd yw - 1) \<le> today \<and>
     today < iso_week1_monday (fst yw) + 7 * snd yw \<and>
     1 \<le> snd yw \<and> today < iso_week1_monday (fst yw + 1)"

lemma iso_week_correct:
  assumes "days_before_year y < today" "today \<le> days_before_year (y + 1)"
  shows "in_iso_week today (iso_week y today)"
proof -
  have week: "a + 7 * ((t - a) div 7) \<le> t \<and> t < a + 7 * ((t - a) div 7 + 1)" for a t :: int
  proof -
    define q r where "q = (t - a) div 7" and "r = (t - a) mod 7"
    have "r < 7" "0 \<le> r" "7 * q + r = t - a" by (simp_all add: q_def r_def)
    then show ?thesis unfolding q_def [symmetric] by auto
  qed
  have nonneg: "a \<le> t \<Longrightarrow> 0 \<le> (t - a) div 7" for a t :: int by (simp add: pos_imp_zdiv_nonneg_iff)
  have neg: "(t - a) div 7 < 0 \<longleftrightarrow> t < a" for a t :: int by (simp add: pos_imp_zdiv_neg_iff)
  have big: "52 \<le> (t - a) div 7 \<longleftrightarrow> a + 364 \<le> t" for a t :: int
    using week [of a t] by linarith
  consider "today < iso_week1_monday y" | "iso_week1_monday y \<le> today" "today < iso_week1_monday (y + 1)"
    | "iso_week1_monday (y + 1) \<le> today" by linarith
  then show ?thesis
  proof cases
    case 1
    have "iso_week1_monday (y - 1) \<le> today"
      using assms week1_monday_near [of "y - 1"] year_length [of "y - 1"] by (simp split: if_splits)
    with 1 week [of "iso_week1_monday (y - 1)" today] nonneg [of "iso_week1_monday (y - 1)" today] show ?thesis
      by (simp add: iso_week_def in_iso_week_def Let_def neg)
  next
    case 2
    with week [of "iso_week1_monday y" today] nonneg [of "iso_week1_monday y" today] show ?thesis
      by (simp add: iso_week_def in_iso_week_def Let_def neg)
  next
    case 3
    have "today < iso_week1_monday (y + 1) + 7" "today < iso_week1_monday (y + 1 + 1)"
      using assms week1_monday_near [of "y + 1"] week1_monday_step [of "y + 1"] week1_monday_near [of y]
        year_length [of y] by (auto split: if_splits)
    with 3 week1_monday_step [of y] show ?thesis
      by (simp add: iso_week_def in_iso_week_def Let_def neg big)
  qed
qed

lemma in_iso_week_monday:
  assumes "in_iso_week today yw"
  shows "iso_week1_monday (fst yw) + 7 * (snd yw - 1) = 7 * ((today - 1) div 7) + 1"
proof -
  define k where "k = iso_week1_monday (fst yw) div 7"
  have k: "iso_week1_monday (fst yw) = 7 * k + 1"
    using div_mult_mod_eq [of "iso_week1_monday (fst yw)" 7] week1_monday_mod by (simp add: k_def)
  have "(today - 1) div 7 = k + snd yw - 1"
    using assms by (intro int_div_pos_eq [where r = "today - 1 - 7 * (k + snd yw - 1)"])
      (simp_all add: in_iso_week_def k algebra_simps)
  with k show ?thesis by simp
qed

lemma week1_monday_less: "y < z \<Longrightarrow> iso_week1_monday y + 364 \<le> iso_week1_monday z"
proof (induction "nat (z - y)" arbitrary: z)
  case (Suc n)
  show ?case
  proof (cases "z = y + 1")
    case False
    with Suc have "iso_week1_monday y + 364 \<le> iso_week1_monday (z - 1)" by auto
    with week1_monday_step [of "z - 1"] show ?thesis by simp
  qed (use week1_monday_step [of y] in simp)
qed simp

lemma in_iso_week_year:
  assumes "in_iso_week s v" "1 \<le> snd w" "iso_week1_monday (fst w) + 7 * (snd w - 1) = iso_week1_monday (fst v) + 7 * (snd v - 1)"
  shows "\<not> fst v < fst w"
proof
  assume "fst v < fst w"
  then have "iso_week1_monday (fst v + 1) \<le> iso_week1_monday (fst w)"
    using week1_monday_less [of "fst v + 1" "fst w"] by (cases "fst v + 1 = fst w") auto
  then show False using assms by (simp add: in_iso_week_def)
qed

lemma iso_week_eq_iff:
  assumes "in_iso_week s v" "in_iso_week t w"
  shows "v = w \<longleftrightarrow> (s - 1) div 7 = (t - 1) div 7"
proof
  assume "v = w"
  then show "(s - 1) div 7 = (t - 1) div 7"
    using in_iso_week_monday [OF assms(1)] in_iso_week_monday [OF assms(2)] by simp
next
  assume "(s - 1) div 7 = (t - 1) div 7"
  then have m: "iso_week1_monday (fst v) + 7 * (snd v - 1) = iso_week1_monday (fst w) + 7 * (snd w - 1)"
    using in_iso_week_monday [OF assms(1)] in_iso_week_monday [OF assms(2)] by simp
  have "fst v = fst w"
    using in_iso_week_year [OF assms(1), of w] in_iso_week_year [OF assms(2), of v] m assms
    by (auto simp: in_iso_week_def)
  with m show "v = w" by (simp add: prod_eq_iff)
qed

section \<open>Windows and their texts\<close>

lemma digits_split:
  assumes "\<forall>c \<in> set a. is_digit c" "\<forall>c \<in> set b. is_digit c" "\<not> is_digit x"
    and "a @ x # r = b @ x # r'"
  shows "a = b \<and> r = r'"
proof -
  have "takeWhile is_digit (a @ x # r) = a" "takeWhile is_digit (b @ x # r') = b"
    using assms(1,2,3) by (simp_all add: takeWhile_append2)
  with assms(4) show ?thesis by simp
qed

lemma show_int_digits: "0 \<le> n \<Longrightarrow> \<forall>c \<in> set (show_int n). is_digit c"
  using show_nat_digits [of "nat n"] by (simp add: show_int_def)

lemma digits_value_zero: "digits_value (CHR ''0'' # t) = digits_value t"
  by (simp add: digits_value_def digit_value_def char_code_def)

lemma digits_value_show_int: "0 \<le> n \<Longrightarrow> digits_value (show_int n) = nat n"
  by (simp add: show_int_def digits_value_show_nat)

lemma show_int_inject: "0 \<le> m \<Longrightarrow> 0 \<le> n \<Longrightarrow> show_int m = show_int n \<longleftrightarrow> m = n"
  by (metis digits_value_show_int eq_nat_nat_iff)

lemma two_digits_value: "0 \<le> n \<Longrightarrow> digits_value (two_digits n) = nat n"
  by (simp add: two_digits_def digits_value_zero digits_value_show_int)

lemma two_digits_inject: "0 \<le> m \<Longrightarrow> 0 \<le> n \<Longrightarrow> two_digits m = two_digits n \<longleftrightarrow> m = n"
  by (metis two_digits_value eq_nat_nat_iff)

lemma two_digits_digits: "0 \<le> n \<Longrightarrow> \<forall>c \<in> set (two_digits n). is_digit c"
  by (auto simp: two_digits_def show_int_digits is_digit_def char_code_def dest: show_int_digits)

lemma not_digits [simp]: "\<not> is_digit (CHR ''-'')" "\<not> is_digit (CHR ''T'')" "\<not> is_digit (CHR '':'')"
  by (simp_all add: is_digit_def char_code_def)

lemma year_text_split:
  "0 \<le> m \<Longrightarrow> 0 \<le> n \<Longrightarrow> show_int m @ CHR ''-'' # r = show_int n @ CHR ''-'' # r' \<longleftrightarrow> m = n \<and> r = r'"
  using digits_split [OF show_int_digits show_int_digits, of m n "CHR ''-''" r r']
  by (auto simp: show_int_inject)

lemma field_text_split:
  "0 \<le> m \<Longrightarrow> 0 \<le> n \<Longrightarrow> \<not> is_digit x \<Longrightarrow>
     two_digits m @ x # r = two_digits n @ x # r' \<longleftrightarrow> m = n \<and> r = r'"
  using digits_split [OF two_digits_digits two_digits_digits, of m n x r r']
  by (auto simp: two_digits_inject)

lemma month_split:
  assumes "1 \<le> m" "m \<le> (12 :: int)"
  shows "m = 1 \<or> m = 2 \<or> m = 3 \<or> m = 4 \<or> m = 5 \<or> m = 6 \<or> m = 7 \<or> m = 8 \<or> m = 9 \<or> m = 10 \<or> m = 11 \<or> m = 12"
  using assms by presburger

lemma to_ordinal_in_year:
  assumes "datetime_ok t"
  shows "days_before_year (dt_year t) < to_ordinal t" "to_ordinal t \<le> days_before_year (dt_year t + 1)"
proof -
  have nonneg: "0 \<le> days_before_month (dt_year t) m"
    and fits: "days_before_month (dt_year t) m + days_in_month (dt_year t) m \<le> (if is_leap (dt_year t) then 366 else 365)"
    if "1 \<le> m" "m \<le> 12" for m
    using month_split [OF that] by (auto simp: days_before_month_def days_in_month_def)
  have m: "1 \<le> dt_month t" "dt_month t \<le> 12" using assms by (simp_all add: datetime_ok_def)
  show "days_before_year (dt_year t) < to_ordinal t"
    using assms nonneg [OF m] by (simp add: to_ordinal_def datetime_ok_def)
  show "to_ordinal t \<le> days_before_year (dt_year t + 1)"
    using assms fits [OF m] by (simp add: to_ordinal_def datetime_ok_def year_length split: if_splits)
qed

lemma isocalendar_correct: "datetime_ok t \<Longrightarrow> in_iso_week (to_ordinal t) (isocalendar t)"
  by (simp add: isocalendar_def iso_week_correct to_ordinal_in_year)

lemma isocalendar_nonneg:
  assumes "datetime_ok t"
  shows "0 \<le> fst (isocalendar t)" "0 \<le> snd (isocalendar t)"
  using assms isocalendar_correct [OF assms]
  by (auto simp: isocalendar_def iso_week_def Let_def datetime_ok_def in_iso_week_def)

text \<open>
  two calls get one vintage exactly inside one window: the calendar month for
  static-30d, the Monday-to-Sunday week of the days' ordinals for semi-static-7d (across a
  year boundary too), the hour for dynamic-1h; live-no-cache has one vintage.
\<close>

theorem vintage_windows:
  assumes "datetime_ok s" "datetime_ok t"
  shows "(ttl_bucket_vintage Static30d s = ttl_bucket_vintage Static30d t \<longleftrightarrow>
            dt_year s = dt_year t \<and> dt_month s = dt_month t) \<and>
         (ttl_bucket_vintage SemiStatic7d s = ttl_bucket_vintage SemiStatic7d t \<longleftrightarrow>
            (to_ordinal s - 1) div 7 = (to_ordinal t - 1) div 7) \<and>
         (ttl_bucket_vintage Dynamic1h s = ttl_bucket_vintage Dynamic1h t \<longleftrightarrow>
            dt_year s = dt_year t \<and> dt_month s = dt_month t \<and> dt_day s = dt_day t \<and> dt_hour s = dt_hour t) \<and>
         ttl_bucket_vintage LiveNoCache s = ttl_bucket_vintage LiveNoCache t"
proof (intro conjI)
  have pos: "0 \<le> dt_year u" "0 \<le> dt_month u" "0 \<le> dt_day u" "0 \<le> dt_hour u" if "datetime_ok u" for u
    using that by (simp_all add: datetime_ok_def)
  note pos = pos [OF assms(1)] pos [OF assms(2)]
  show "ttl_bucket_vintage Static30d s = ttl_bucket_vintage Static30d t \<longleftrightarrow>
      dt_year s = dt_year t \<and> dt_month s = dt_month t"
    using pos by (simp add: ttl_bucket_vintage_def year_text_split two_digits_inject)
  show "ttl_bucket_vintage Dynamic1h s = ttl_bucket_vintage Dynamic1h t \<longleftrightarrow>
      dt_year s = dt_year t \<and> dt_month s = dt_month t \<and> dt_day s = dt_day t \<and> dt_hour s = dt_hour t"
    using pos by (simp add: ttl_bucket_vintage_def Let_def year_text_split field_text_split two_digits_inject)
  have "ttl_bucket_vintage SemiStatic7d s = ttl_bucket_vintage SemiStatic7d t \<longleftrightarrow> isocalendar s = isocalendar t"
    using isocalendar_nonneg [OF assms(1)] isocalendar_nonneg [OF assms(2)]
    by (simp add: ttl_bucket_vintage_def split_beta year_text_split two_digits_inject prod_eq_iff)
  also have "\<dots> \<longleftrightarrow> (to_ordinal s - 1) div 7 = (to_ordinal t - 1) div 7"
    by (rule iso_week_eq_iff [OF isocalendar_correct [OF assms(1)] isocalendar_correct [OF assms(2)]])
  finally show "ttl_bucket_vintage SemiStatic7d s = ttl_bucket_vintage SemiStatic7d t \<longleftrightarrow>
      (to_ordinal s - 1) div 7 = (to_ordinal t - 1) div 7" .
qed (simp add: ttl_bucket_vintage_def)

text \<open>Tuesday 31 December 2024 and Wednesday 1 January 2025 are in the first week of 2025.\<close>

theorem vintage_windows_witness:
  "ttl_bucket_vintage SemiStatic7d \<lparr>dt_year = 2024, dt_month = 12, dt_day = 31, dt_hour = 9,
      dt_minute = 0, dt_second = 0, dt_microsecond = 0\<rparr> =
   ttl_bucket_vintage SemiStatic7d \<lparr>dt_year = 2025, dt_month = 1, dt_day = 1, dt_hour = 9,
      dt_minute = 0, dt_second = 0, dt_microsecond = 0\<rparr>"
  using vintage_windows [of "\<lparr>dt_year = 2024, dt_month = 12, dt_day = 31, dt_hour = 9,
      dt_minute = 0, dt_second = 0, dt_microsecond = 0\<rparr>"
      "\<lparr>dt_year = 2025, dt_month = 1, dt_day = 1, dt_hour = 9, dt_minute = 0, dt_second = 0,
        dt_microsecond = 0\<rparr>"]
  by (simp add: datetime_ok_def days_in_month_def to_ordinal_def days_before_year_def
      days_before_month_def is_leap_def)

end
