(* ===== verification/JsonText.thy ===== *)
theory JsonText
  imports PyValues
begin

text \<open>
  The text \<open>json.dumps\<close> of the Python standard library writes for a value: the escapes of
  \<open>ensure_ascii\<close>, the two separators, \<open>sort_keys\<close>, and \<open>default=str\<close> for any other object.
  The shortest decimal of a double is the parameter \<open>float_text\<close>.
\<close>

definition hex_digit :: "nat \<Rightarrow> char" where
  "hex_digit n = (if n < 10 then char_of (48 + n) else char_of (87 + n))"

definition json_escape :: "char \<Rightarrow> string" where
  "json_escape c =
     (let n = char_code c in
      if n = 34 then [char_of (92 :: nat), char_of (34 :: nat)]
      else if n = 92 then [char_of (92 :: nat), char_of (92 :: nat)]
      else if n = 10 then char_of (92 :: nat) # ''n''
      else if n = 13 then char_of (92 :: nat) # ''r''
      else if n = 9 then char_of (92 :: nat) # ''t''
      else if n = 12 then char_of (92 :: nat) # ''f''
      else if n = 8 then char_of (92 :: nat) # ''b''
      else if n < 32 \<or> 126 < n
      then char_of (92 :: nat) # ''u00'' @ [hex_digit (n div 16), hex_digit (n mod 16)]
      else [c])"

definition json_string :: "string \<Rightarrow> string" where
  "json_string s = CHR 0x22 # concat (map json_escape s) @ [CHR 0x22]"

fun join :: "string \<Rightarrow> string list \<Rightarrow> string" where
  "join sep [] = []"
| "join sep [x] = x"
| "join sep (x # y # zs) = x @ sep @ join sep (y # zs)"

record json_style =
  item_sep :: string
  key_sep :: string
  sort_keys :: bool
  float_text :: "pyfloat \<Rightarrow> string"

text \<open>\<open>json.dumps(v, default=str)\<close> and \<open>json.dumps(v, sort_keys=True, separators=(",", ":"), default=str)\<close>.\<close>

definition plain_style :: "(pyfloat \<Rightarrow> string) \<Rightarrow> json_style" where
  "plain_style ft = \<lparr>item_sep = '', '', key_sep = '': '', sort_keys = False, float_text = ft\<rparr>"

definition canonical_style :: "(pyfloat \<Rightarrow> string) \<Rightarrow> json_style" where
  "canonical_style ft = \<lparr>item_sep = '','', key_sep = '':'', sort_keys = True, float_text = ft\<rparr>"

definition key_order :: "json_style \<Rightarrow> (string \<times> string) list \<Rightarrow> (string \<times> string) list" where
  "key_order st fs = (if sort_keys st then sort_key fst fs else fs)"

fun json_text :: "json_style \<Rightarrow> pyval \<Rightarrow> string"
  and json_items :: "json_style \<Rightarrow> pyval list \<Rightarrow> string list"
  and json_fields :: "json_style \<Rightarrow> (string \<times> pyval) list \<Rightarrow> (string \<times> string) list" where
  "json_text st PNone = ''null''"
| "json_text st (PBool b) = (if b then ''true'' else ''false'')"
| "json_text st (PInt n) = show_int n"
| "json_text st (PFloat f) = float_text st f"
| "json_text st (PStr s) = json_string s"
| "json_text st (PObj t) = json_string t"
| "json_text st (PList xs) = ''['' @ join (item_sep st) (json_items st xs) @ '']''"
| "json_text st (PTuple xs) = ''['' @ join (item_sep st) (json_items st xs) @ '']''"
| "json_text st (PDict d) =
     ''{'' @ join (item_sep st)
       (map (\<lambda>(k, t). json_string k @ key_sep st @ t) (key_order st (json_fields st d))) @ ''}''"
| "json_items st [] = []"
| "json_items st (x # xs) = json_text st x # json_items st xs"
| "json_fields st [] = []"
| "json_fields st (kv # d) = (fst kv, json_text st (snd kv)) # json_fields st d"

lemma json_fields_map: "json_fields st d = map (\<lambda>(k, v). (k, json_text st v)) d"
  by (induction d) auto

lemma json_items_map: "json_items st xs = map (json_text st) xs"
  by (induction xs) simp_all

text \<open>
  With sorted keys the text of a dictionary does not depend on the order it was filled in.
\<close>

lemma sort_key_distinct_perm:
  assumes "distinct (map fst xs)" and "set xs = set ys" and "distinct (map fst ys)"
  shows "sort_key fst xs = sort_key fst ys"
proof (rule map_sorted_distinct_set_unique [of fst])
  show "inj_on fst (set (sort_key fst xs) \<union> set (sort_key fst ys))"
    using assms by (simp add: distinct_map)
  show "sorted (map fst (sort_key fst xs))" "sorted (map fst (sort_key fst ys))" by simp_all
  have d: "distinct (sort_key fst zs) = distinct zs" for zs :: "('a \<times> 'b) list"
    by (metis distinct_sort)
  show "distinct (map fst (sort_key fst xs))" "distinct (map fst (sort_key fst ys))"
    using assms by (simp_all add: distinct_map d)
  show "set (sort_key fst xs) = set (sort_key fst ys)" using assms by simp
qed

lemma json_text_perm:
  assumes "sort_keys st" and "distinct (map fst d)" and "distinct (map fst d')" and "set d = set d'"
  shows "json_text st (PDict d) = json_text st (PDict d')"
proof -
  have fst_map: "map fst (json_fields st xs) = map fst xs" for xs
    by (induction xs) simp_all
  have "sort_key fst (json_fields st d) = sort_key fst (json_fields st d')"
    using assms by (intro sort_key_distinct_perm) (simp_all only: fst_map, simp add: json_fields_map)
  with assms(1) show ?thesis by (simp add: key_order_def)
qed

end
