(* ===== verification/Sha256.thy ===== *)
theory Sha256
  imports JsonText "HOL-Library.Word"
begin

text \<open>
  \<open>hashlib.sha256(text.encode("utf-8")).hexdigest()\<close> of the Python standard library, on
  texts of code points below 256: FIPS 180-4 over 32-bit words, whose \<open>+\<close> wraps.
\<close>

unbundle bit_operations_syntax

type_synonym w32 = "32 word"

definition utf8_bytes :: "string \<Rightarrow> nat list" where
  "utf8_bytes s = concat (map (\<lambda>c. let n = char_code c in
     if n < 128 then [n] else [192 + n div 64, 128 + n mod 64]) s)"

definition sha_k :: "w32 list" where
  "sha_k =
    [1116352408, 1899447441, 3049323471, 3921009573, 961987163, 1508970993, 2453635748, 2870763221,
     3624381080, 310598401, 607225278, 1426881987, 1925078388, 2162078206, 2614888103, 3248222580,
     3835390401, 4022224774, 264347078, 604807628, 770255983, 1249150122, 1555081692, 1996064986,
     2554220882, 2821834349, 2952996808, 3210313671, 3336571891, 3584528711, 113926993, 338241895,
     666307205, 773529912, 1294757372, 1396182291, 1695183700, 1986661051, 2177026350, 2456956037,
     2730485921, 2820302411, 3259730800, 3345764771, 3516065817, 3600352804, 4094571909, 275423344,
     430227734, 506948616, 659060556, 883997877, 958139571, 1322822218, 1537002063, 1747873779,
     1955562222, 2024104815, 2227730452, 2361852424, 2428436474, 2756734187, 3204031479, 3329325298]"

record sha_state =
  sh_a :: w32
  sh_b :: w32
  sh_c :: w32
  sh_d :: w32
  sh_e :: w32
  sh_f :: w32
  sh_g :: w32
  sh_h :: w32

definition sha_start :: sha_state where
  "sha_start = \<lparr>sh_a = 1779033703, sh_b = 3144134277, sh_c = 1013904242, sh_d = 2773480762,
     sh_e = 1359893119, sh_f = 2600822924, sh_g = 528734635, sh_h = 1541459225\<rparr>"

definition rotr32 :: "nat \<Rightarrow> w32 \<Rightarrow> w32" where
  "rotr32 n w = drop_bit n w OR push_bit (32 - n) w"

definition sha_pad :: "nat list \<Rightarrow> nat list" where
  "sha_pad bs =
     (let n = length bs in
      bs @ 128 # replicate (nat ((55 - int n) mod 64)) 0 @
      map (\<lambda>i. (8 * n) div 256 ^ (7 - i) mod 256) [0..<8])"

definition word_of_bytes :: "nat list \<Rightarrow> w32" where
  "word_of_bytes bs = of_nat (foldl (\<lambda>n b. 256 * n + b) 0 bs)"

function chunks :: "nat \<Rightarrow> 'a list \<Rightarrow> 'a list list" where
  "chunks n xs = (if n = 0 \<or> xs = [] then [] else take n xs # chunks n (drop n xs))"
  by pat_completeness auto
termination
  by (relation "measure (\<lambda>(n, xs). length xs)") auto

declare chunks.simps [simp del]

text \<open>The message schedule, latest word first.\<close>

fun sha_schedule :: "nat \<Rightarrow> w32 list \<Rightarrow> w32 list" where
  "sha_schedule 0 ws = ws"
| "sha_schedule (Suc k) ws =
     (let x = ws ! 14; y = ws ! 1;
          s0 = rotr32 7 x XOR rotr32 18 x XOR drop_bit 3 x;
          s1 = rotr32 17 y XOR rotr32 19 y XOR drop_bit 10 y
      in sha_schedule k ((ws ! 15 + s0 + ws ! 6 + s1) # ws))"

definition sha_round :: "w32 \<times> w32 \<Rightarrow> sha_state \<Rightarrow> sha_state" where
  "sha_round kw s =
     (let e = sh_e s; a = sh_a s;
          s1 = rotr32 6 e XOR rotr32 11 e XOR rotr32 25 e;
          ch = (e AND sh_f s) XOR (NOT e AND sh_g s);
          t1 = sh_h s + s1 + ch + fst kw + snd kw;
          s0 = rotr32 2 a XOR rotr32 13 a XOR rotr32 22 a;
          maj = (a AND sh_b s) XOR (a AND sh_c s) XOR (sh_b s AND sh_c s);
          t2 = s0 + maj
      in \<lparr>sh_a = t1 + t2, sh_b = a, sh_c = sh_b s, sh_d = sh_c s,
          sh_e = sh_d s + t1, sh_f = e, sh_g = sh_f s, sh_h = sh_g s\<rparr>)"

definition sha_block :: "nat list \<Rightarrow> sha_state \<Rightarrow> sha_state" where
  "sha_block block s =
     (let ws = rev (sha_schedule 48 (rev (map word_of_bytes (chunks 4 block))));
          t = fold sha_round (zip sha_k ws) s
      in \<lparr>sh_a = sh_a s + sh_a t, sh_b = sh_b s + sh_b t, sh_c = sh_c s + sh_c t,
          sh_d = sh_d s + sh_d t, sh_e = sh_e s + sh_e t, sh_f = sh_f s + sh_f t,
          sh_g = sh_g s + sh_g t, sh_h = sh_h s + sh_h t\<rparr>)"

definition hex_word :: "w32 \<Rightarrow> string" where
  "hex_word w = map (\<lambda>i. hex_digit (unat w div 16 ^ (7 - i) mod 16)) [0..<8]"

definition sha256_hexdigest :: "string \<Rightarrow> string" where
  "sha256_hexdigest t =
     (let s = fold sha_block (chunks 64 (sha_pad (utf8_bytes t))) sha_start
      in concat (map hex_word [sh_a s, sh_b s, sh_c s, sh_d s, sh_e s, sh_f s, sh_g s, sh_h s]))"

lemma length_hexdigest: "length (sha256_hexdigest t) = 64"
  by (simp add: sha256_hexdigest_def hex_word_def Let_def)

lemma hex_word_chars: "c \<in> set (hex_word w) \<Longrightarrow> \<exists>n < 16. c = hex_digit n"
  by (force simp: hex_word_def intro: mod_less_divisor)

lemma hexdigest_chars: "c \<in> set (sha256_hexdigest t) \<Longrightarrow> \<exists>n < 16. c = hex_digit n"
  by (auto simp: sha256_hexdigest_def Let_def dest: hex_word_chars)

end
