(* ===== verification/FetchCache.thy ===== *)
theory FetchCache
  imports CacheWindows Sha256
begin

text \<open>
  The fetch cache: the metadata validator of contracts/trid3nt_contracts/tool_registry.py
  and trid3nt_server/tools/cache.py, with its keys, its object paths, its provenance
  sidecars and \<open>read_through\<close>. The object store client (boto3) is a parameter; log lines are
  left out, and the texts of the errors are shortened.
\<close>

section \<open>Tool metadata\<close>

record tool_metadata =
  meta_name :: string
  meta_ttl :: ttl_class
  meta_source :: "string option"
  meta_cacheable :: "bool option"

definition validate_metadata :: "tool_metadata \<Rightarrow> string + tool_metadata" where
  "validate_metadata m =
     (case meta_cacheable m of
        None \<Rightarrow> Inr (m\<lparr>meta_cacheable := Some (meta_ttl m \<noteq> LiveNoCache)\<rparr>)
      | Some True \<Rightarrow>
          (if meta_ttl m = LiveNoCache
           then Inl ''cacheable=True is inconsistent with ttl_class=live-no-cache''
           else if \<not> some_text (meta_source m) then Inl ''cacheable=True requires a non-empty source_class''
           else Inr m)
      | Some False \<Rightarrow>
          (if meta_ttl m \<noteq> LiveNoCache then Inl ''cacheable=False requires ttl_class=live-no-cache''
           else Inr m))"

definition is_cacheable :: "tool_metadata \<Rightarrow> bool" where
  "is_cacheable m \<longleftrightarrow> meta_cacheable m = Some True \<and> meta_ttl m \<noteq> LiveNoCache"

section \<open>Keys and paths\<close>

definition cache_bucket :: string where
  "cache_bucket = ''trid3nt-cache''"

definition cache_key_hex_len :: nat where
  "cache_key_hex_len = 32"

definition canonicalize_params :: "(pyfloat \<Rightarrow> string) \<Rightarrow> (string, pyval) dict \<Rightarrow> string" where
  "canonicalize_params ft params =
     json_text (canonical_style ft) (PDict (filter (\<lambda>(k, v). v \<noteq> PNone) params))"

definition compute_cache_key ::
  "(pyfloat \<Rightarrow> string) \<Rightarrow> string \<Rightarrow> (string, pyval) dict \<Rightarrow> ttl_class \<Rightarrow> py_datetime \<Rightarrow> string \<Rightarrow> string" where
  "compute_cache_key ft source_id params ttl now record_shape =
     (let raw = source_id @ ''||'' @ canonicalize_params ft params @ ''||'' @ ttl_bucket_vintage ttl now;
          raw' = (if record_shape = [] then raw else raw @ ''||'' @ record_shape)
      in take cache_key_hex_len (sha256_hexdigest raw'))"

definition cache_key_for ::
  "(pyfloat \<Rightarrow> string) \<Rightarrow> tool_metadata \<Rightarrow> (string, pyval) dict \<Rightarrow> string option \<Rightarrow> py_datetime \<Rightarrow> string \<Rightarrow> string" where
  "cache_key_for ft m params source_id now record_shape =
     compute_cache_key ft (text_or source_id (text_or (meta_source m) (meta_name m))) params
       (meta_ttl m) now record_shape"

definition lstrip_dots :: "string \<Rightarrow> string" where
  "lstrip_dots ext = dropWhile (\<lambda>c. c = CHR ''.'') ext"

definition cache_path :: "string \<Rightarrow> ttl_class \<Rightarrow> string \<Rightarrow> string \<Rightarrow> string" where
  "cache_path source_class ttl key ext =
     ''cache/'' @ ttl_text ttl @ ''/'' @ source_class @ ''/'' @ key @ ''.'' @ lstrip_dots ext"

definition parse_cache_path :: "string option \<Rightarrow> (string \<times> string) option" where
  "parse_cache_path uri =
     (if \<not> some_text uri then None
      else (let body = (case after_first ''://'' (the uri) of Some t \<Rightarrow> t | None \<Rightarrow> the uri);
                parts = split_on CHR ''/'' body
            in case dropWhile (\<lambda>p. p \<noteq> ''cache'') parts of
                 [c, ttl, source_class, filename] \<Rightarrow>
                   (let key = rsplit_head CHR ''.'' filename in
                    if source_class = [] \<or> key = [] then None else Some (source_class, key))
               | _ \<Rightarrow> None))"

section \<open>Provenance\<close>

definition provenance_schema :: int where
  "provenance_schema = 3"

definition schema_field :: string where
  "schema_field = ''provenance_schema''"

text \<open>
  The store client, over a store of its own: \<open>get_object\<close> by bucket and key (\<open>None\<close> where it
  raises) and \<open>put_object\<close> of a body and content type (false where it raises). \<open>json_loads\<close>
  is the parse of a sidecar.
\<close>

record 's cache_env =
  s3_get :: "'s \<Rightarrow> string \<Rightarrow> string \<Rightarrow> string option"
  s3_put :: "string \<Rightarrow> string \<Rightarrow> string \<Rightarrow> string \<Rightarrow> 's \<Rightarrow> bool \<times> 's"
  json_loads :: "string \<Rightarrow> pyval option"
  double_text :: "pyfloat \<Rightarrow> string"
  env_bucket :: "string option"

text \<open>
  What a fetch can change: the store, the recorder bound in the context variable, and the
  \<open>data\<close> slot of every \<open>ProvenanceRecorder\<close>, known by a number.
\<close>

record 's cache_world =
  cw_store :: 's
  cw_active :: "nat option"
  cw_data :: "nat \<Rightarrow> (string, pyval) dict option"

type_synonym 's fetch_act = "('s cache_world, py_exn, string) act"

definition record_provenance :: "(string, pyval) dict \<Rightarrow> 's cache_world \<Rightarrow> 's cache_world" where
  "record_provenance data w =
     (case cw_active w of
        None \<Rightarrow> w
      | Some r \<Rightarrow> w\<lparr>cw_data := (cw_data w)(r := Some (dput schema_field (PInt provenance_schema) data))\<rparr>)"

definition sidecar_is_current :: "pyval option \<Rightarrow> bool" where
  "sidecar_is_current prov =
     (case prov of
        Some (PDict d) \<Rightarrow> (case pget d schema_field of
             PInt n \<Rightarrow> n = provenance_schema
           | PFloat (Fin q) \<Rightarrow> q = of_int provenance_schema
           | _ \<Rightarrow> False)
      | _ \<Rightarrow> False)"

definition bind_recorder :: "nat option \<Rightarrow> 's fetch_act \<Rightarrow> 's fetch_act" where
  "bind_recorder recorder m w =
     (case recorder of
        None \<Rightarrow> m w
      | Some r \<Rightarrow> (let (res, w') = m (w\<lparr>cw_active := Some r\<rparr>) in (res, w'\<lparr>cw_active := cw_active w\<rparr>)))"

definition sidecar_key :: "string \<Rightarrow> string" where
  "sidecar_key obj_key = rsplit_head CHR ''.'' obj_key @ ''.provenance.json''"

section \<open>read_through\<close>

record read_result =
  rr_uri :: "string option"
  rr_data :: string
  rr_hit :: bool
  rr_provenance :: "(string, pyval) dict option"

definition storage_scheme :: string where
  "storage_scheme = ''s3''"

definition obj_uri :: "string \<Rightarrow> string \<Rightarrow> string" where
  "obj_uri bucket path = ''s3://'' @ bucket @ ''/'' @ path"

definition split_s3_uri :: "string \<Rightarrow> string \<times> string" where
  "split_s3_uri uri =
     (let rest = drop 5 uri in
      (takeWhile (\<lambda>c. c \<noteq> CHR ''/'') rest, drop 1 (dropWhile (\<lambda>c. c \<noteq> CHR ''/'') rest)))"

definition read_sidecar_s3 :: "'s cache_env \<Rightarrow> 's \<Rightarrow> string \<Rightarrow> string \<Rightarrow> pyval option" where
  "read_sidecar_s3 env st bucket obj_key =
     (case s3_get env st bucket (sidecar_key obj_key) of None \<Rightarrow> None | Some t \<Rightarrow> json_loads env t)"

text \<open>\<open>json.dumps\<close> without \<open>default\<close> raises on an object it does not know.\<close>

fun json_serializable :: "pyval \<Rightarrow> bool" where
  "json_serializable (PObj t) = False"
| "json_serializable (PList xs) = list_all json_serializable xs"
| "json_serializable (PTuple xs) = list_all json_serializable xs"
| "json_serializable (PDict d) = list_all (\<lambda>kv. json_serializable (snd kv)) d"
| "json_serializable v = True"

definition write_sidecar_s3 :: "'s cache_env \<Rightarrow> string \<Rightarrow> string \<Rightarrow> (string, pyval) dict \<Rightarrow> 's \<Rightarrow> 's" where
  "write_sidecar_s3 env bucket obj_key prov st =
     (if json_serializable (PDict prov)
      then snd (s3_put env bucket (sidecar_key obj_key)
             (json_text (canonical_style (double_text env)) (PDict prov)) ''application/json'' st)
      else st)"

definition content_type_of :: "string \<Rightarrow> string" where
  "content_type_of ext =
     dget_or [(''json'', ''application/json''), (''geojson'', ''application/json''),
              (''tif'', ''image/tiff''), (''fgb'', ''application/octet-stream''),
              (''nc'', ''application/x-netcdf''), (''grib2'', ''application/x-grib2'')]
       (lstrip_dots ext) ''application/octet-stream''"

text \<open>The object and its sidecar, where they answer the read: \<open>None\<close> is a miss.\<close>

definition cached_read ::
  "'s cache_env \<Rightarrow> string \<Rightarrow> string \<Rightarrow> nat option \<Rightarrow> 's \<Rightarrow> (string \<times> (string, pyval) dict option) option" where
  "cached_read env bucket obj_key recorder st =
     (case s3_get env st bucket obj_key of
        None \<Rightarrow> None
      | Some data \<Rightarrow>
          (case recorder of
             None \<Rightarrow> Some (data, None)
           | Some r \<Rightarrow>
               (let prov = read_sidecar_s3 env st bucket obj_key in
                if \<not> sidecar_is_current prov then None
                else (case prov of Some (PDict d) \<Rightarrow> Some (data, Some d) | _ \<Rightarrow> None))))"

definition recorded :: "nat option \<Rightarrow> 's cache_world \<Rightarrow> (string, pyval) dict option" where
  "recorded recorder w = (case recorder of None \<Rightarrow> None | Some r \<Rightarrow> cw_data w r)"

definition store_fetched ::
  "'s cache_env \<Rightarrow> string \<Rightarrow> string \<Rightarrow> string \<Rightarrow> nat option \<Rightarrow> string \<Rightarrow> 's cache_world \<Rightarrow> 's cache_world" where
  "store_fetched env bucket obj_key ext recorder data w =
     (let (ok, st) = s3_put env bucket obj_key data (content_type_of ext) (cw_store w) in
      w\<lparr>cw_store := (if \<not> ok then st
          else (case recorded recorder w of
                  None \<Rightarrow> st | Some prov \<Rightarrow> write_sidecar_s3 env bucket obj_key prov st))\<rparr>)"

definition read_through_s3 ::
  "'s cache_env \<Rightarrow> string \<Rightarrow> 's fetch_act \<Rightarrow> bool \<Rightarrow> string \<Rightarrow> nat option
     \<Rightarrow> ('s cache_world, py_exn, read_result) act" where
  "read_through_s3 env uri fetch force_refresh ext recorder w =
     (let (bucket, obj_key) = split_s3_uri uri in
      case (if force_refresh then None else cached_read env bucket obj_key recorder (cw_store w)) of
        Some (data, prov) \<Rightarrow>
          (Inr \<lparr>rr_uri = Some uri, rr_data = data, rr_hit = True, rr_provenance = prov\<rparr>,
           (case recorder of None \<Rightarrow> w | Some r \<Rightarrow> w\<lparr>cw_data := (cw_data w)(r := prov)\<rparr>))
      | None \<Rightarrow>
          then_do (bind_recorder recorder fetch)
            (\<lambda>data w'. (Inr \<lparr>rr_uri = Some uri, rr_data = data, rr_hit = False,
                             rr_provenance = recorded recorder w'\<rparr>,
                        store_fetched env bucket obj_key ext recorder data w')) w)"

definition read_through ::
  "'s cache_env \<Rightarrow> tool_metadata \<Rightarrow> (string, pyval) dict \<Rightarrow> string \<Rightarrow> 's fetch_act \<Rightarrow> string option
     \<Rightarrow> string option \<Rightarrow> bool \<Rightarrow> py_datetime \<Rightarrow> nat option \<Rightarrow> string
     \<Rightarrow> ('s cache_world, py_exn, read_result) act" where
  "read_through env m params ext fetch bucket source_id force_refresh now recorder record_shape =
     (let bucket' = text_or (env_bucket env) (text_or bucket cache_bucket);
          source = text_or source_id (text_or (meta_source m) (meta_name m))
      in if \<not> is_cacheable m
         then then_do (bind_recorder recorder fetch)
                (\<lambda>data. reading (\<lambda>w. \<lparr>rr_uri = None, rr_data = data, rr_hit = False,
                                        rr_provenance = recorded recorder w\<rparr>))
         else if \<not> some_text (meta_source m)
         then raising (plain_exn ExcValueError (''cacheable tool '' @ meta_name m @ '' has no source_class''))
         else (let key = cache_key_for (double_text env) m params (Some source) now record_shape;
                   path = cache_path (the (meta_source m)) (meta_ttl m) key ext
               in read_through_s3 env (''s3://'' @ bucket' @ ''/'' @ path) fetch force_refresh ext recorder))"

section \<open>Keys\<close>

lemma length_ttl_texts [simp]: "CHR ''/'' \<notin> set (ttl_text c)"
  by (cases c) (simp_all add: ttl_text_def)

lemma canonical_params_perm:
  assumes "dict_ok p" "dict_ok q" "\<And>k v. v \<noteq> PNone \<Longrightarrow> dget p k = Some v \<longleftrightarrow> dget q k = Some v"
  shows "canonicalize_params ft p = canonicalize_params ft q"
proof -
  have dist: "distinct (map fst (filter P d))" if "dict_ok d" for P and d :: "(string, pyval) dict"
    using that by (simp add: dict_ok_def distinct_map_filter)
  have mem: "kv \<in> set d \<longleftrightarrow> dget d (fst kv) = Some (snd kv)" if "dict_ok d" for kv and d :: "(string, pyval) dict"
    using dget_in [OF that, of "fst kv" "snd kv"] dget_Some_in [of d "fst kv" "snd kv"] by auto
  show ?thesis
    unfolding canonicalize_params_def
  proof (rule json_text_perm)
    show "sort_keys (canonical_style ft)" by (simp add: canonical_style_def)
    show "set (filter (\<lambda>(k, v). v \<noteq> PNone) p) = set (filter (\<lambda>(k, v). v \<noteq> PNone) q)"
      using assms mem [OF assms(1)] mem [OF assms(2)] by (auto simp: split_beta)
  qed (use assms dist in auto)
qed

lemma length_cache_key [simp]: "length (compute_cache_key ft src p ttl now shape) = 32"
  by (simp add: compute_cache_key_def cache_key_hex_len_def length_hexdigest Let_def)

lemma cache_key_chars: "c \<in> set (compute_cache_key ft src p ttl now shape) \<Longrightarrow> \<exists>n < 16. c = hex_digit n"
  using hexdigest_chars by (fastforce simp: compute_cache_key_def Let_def dest: in_set_takeD)

lemma hex_digit_plain: "n < 16 \<Longrightarrow> hex_digit n \<noteq> CHR ''/'' \<and> hex_digit n \<noteq> CHR ''.''"
proof -
  assume "n < 16"
  then have "char_code (hex_digit n) = (if n < 10 then 48 + n else 87 + n)"
    by (simp add: hex_digit_def char_code_char_of)
  then show ?thesis by (auto simp: char_code_def split: if_splits)
qed

lemma cache_key_plain:
  "CHR ''/'' \<notin> set (compute_cache_key ft src p ttl now shape)"
  "CHR ''.'' \<notin> set (compute_cache_key ft src p ttl now shape)"
  using cache_key_chars hex_digit_plain by (metis, metis)

text \<open>
  C7: a key is 32 hexadecimal digits, and depends on the params only through their entries
  that are not None, in any order, and on the moment only through the window of its class.
\<close>

theorem cache_key_stable:
  assumes "dict_ok p" "dict_ok q" "\<forall>k v. v \<noteq> PNone \<longrightarrow> dget p k = Some v \<longleftrightarrow> dget q k = Some v"
    and "ttl_bucket_vintage ttl s = ttl_bucket_vintage ttl t"
  shows "compute_cache_key ft src p ttl s shape = compute_cache_key ft src q ttl t shape \<and>
         length (compute_cache_key ft src p ttl s shape) = 32 \<and>
         (\<forall>c \<in> set (compute_cache_key ft src p ttl s shape). \<exists>n < 16. c = hex_digit n)"
proof -
  have "compute_cache_key ft src p ttl s shape = compute_cache_key ft src q ttl t shape"
    using canonical_params_perm [of p q ft] assms by (simp add: compute_cache_key_def)
  then show ?thesis using cache_key_chars length_cache_key by metis
qed

text \<open>A moment for concrete instances: 9:00 on 3 May 2024.\<close>

definition sample_moment :: py_datetime where
  "sample_moment = \<lparr>dt_year = 2024, dt_month = 5, dt_day = 3, dt_hour = 9, dt_minute = 0,
     dt_second = 0, dt_microsecond = 0\<rparr>"

theorem cache_key_stable_witness:
  "compute_cache_key (\<lambda>f. ''0.5'') ''dem'' [(''a'', PInt 1), (''b'', PNone), (''c'', PBool True)]
     Static30d sample_moment '''' =
   compute_cache_key (\<lambda>f. ''0.5'') ''dem'' [(''c'', PBool True), (''a'', PInt 1)] Static30d
     (sample_moment\<lparr>dt_day := 28, dt_hour := 23\<rparr>) ''''"
  using cache_key_stable [of "[(''a'', PInt 1), (''b'', PNone), (''c'', PBool True)]"
      "[(''c'', PBool True), (''a'', PInt 1)]" Static30d sample_moment
      "sample_moment\<lparr>dt_day := 28, dt_hour := 23\<rparr>" "\<lambda>f. ''0.5''" "''dem''" "''''"]
  by (auto simp: ttl_bucket_vintage_def)

lemma after_first_append:
  assumes "CHR '':'' \<notin> set a"
  shows "after_first ''://'' (a @ ''://'' @ t) = Some t"
  using assms by (induction a) (auto simp: starts_with_def)

lemma split_cache_path:
  assumes "CHR ''/'' \<notin> set bucket" "CHR ''/'' \<notin> set sc" "CHR ''/'' \<notin> set key" "CHR ''/'' \<notin> set ext"
  shows "split_on CHR ''/'' (bucket @ ''/'' @ cache_path sc ttl key ext) =
           [bucket, ''cache'', ttl_text ttl, sc, key @ ''.'' @ lstrip_dots ext]"
proof -
  have "CHR ''/'' \<notin> set (key @ ''.'' @ lstrip_dots ext)"
    using assms set_dropWhileD by (fastforce simp: lstrip_dots_def)
  then have "split_on CHR ''/'' (key @ ''.'' @ lstrip_dots ext) = [key @ ''.'' @ lstrip_dots ext]"
    by (rule split_on_none)
  then show ?thesis
    using assms split_on_append [of "CHR ''/''" bucket] split_on_append [of "CHR ''/''" sc]
      split_on_append [of "CHR ''/''" "ttl_text ttl"] split_on_append [of "CHR ''/''" "''cache''"]
    by (simp add: cache_path_def)
qed



section \<open>read_through\<close>

text \<open>What the store documents: a put that succeeds is read back, and changes no other object.\<close>

definition store_lawful :: "'s cache_env \<Rightarrow> bool" where
  "store_lawful env \<longleftrightarrow>
     (\<forall>b k v ct st. fst (s3_put env b k v ct st) \<and>
        (\<forall>b' k'. s3_get env (snd (s3_put env b k v ct st)) b' k' =
                  (if b' = b \<and> k' = k then Some v else s3_get env st b' k')))"

lemma lawful_put:
  "store_lawful env \<Longrightarrow> fst (s3_put env b k v ct st)"
  "store_lawful env \<Longrightarrow> s3_get env (snd (s3_put env b k v ct st)) b' k' =
     (if b' = b \<and> k' = k then Some v else s3_get env st b' k')"
  by (simp_all add: store_lawful_def)

text \<open>A fetch that records provenance and returns bytes, without touching the store itself.\<close>

definition fetching :: "(string, pyval) dict list \<Rightarrow> string \<Rightarrow> 's fetch_act" where
  "fetching provs data w = (Inr data, fold record_provenance provs w)"

lemma split_obj_uri: "CHR ''/'' \<notin> set b \<Longrightarrow> split_s3_uri (''s3://'' @ b @ ''/'' @ path) = (b, path)"
proof -
  assume "CHR ''/'' \<notin> set b"
  then have "takeWhile (\<lambda>c. c \<noteq> CHR ''/'') (b @ CHR ''/'' # path) = b"
    "dropWhile (\<lambda>c. c \<noteq> CHR ''/'') (b @ CHR ''/'' # path) = CHR ''/'' # path"
    by (subst takeWhile_append2 dropWhile_append2; fastforce)+
  then show ?thesis by (simp add: split_s3_uri_def)
qed

lemma sidecar_of_path:
  assumes "CHR ''.'' \<notin> set (lstrip_dots ext)"
  shows "sidecar_key (cache_path sc ttl key ext) =
           ''cache/'' @ ttl_text ttl @ ''/'' @ sc @ ''/'' @ key @ ''.provenance.json''"
  using rsplit_head_append [OF assms, of "''cache/'' @ ttl_text ttl @ ''/'' @ sc @ ''/'' @ key"]
  by (simp add: sidecar_key_def cache_path_def)

lemma sidecar_apart:
  assumes "CHR ''.'' \<notin> set (lstrip_dots ext)"
  shows "sidecar_key (cache_path sc ttl key ext) \<noteq> cache_path sc ttl key ext"
proof
  assume "sidecar_key (cache_path sc ttl key ext) = cache_path sc ttl key ext"
  then have "lstrip_dots ext = ''provenance.json''"
    by (simp add: sidecar_of_path [OF assms]) (simp add: cache_path_def)
  with assms show False by simp
qed

text \<open>The bucket, the path and the uri of a cacheable read.\<close>

definition read_bucket :: "'s cache_env \<Rightarrow> string option \<Rightarrow> string" where
  "read_bucket env bucket = text_or (env_bucket env) (text_or bucket cache_bucket)"

definition read_path ::
  "'s cache_env \<Rightarrow> tool_metadata \<Rightarrow> (string, pyval) dict \<Rightarrow> string \<Rightarrow> string option \<Rightarrow> py_datetime \<Rightarrow> string \<Rightarrow> string" where
  "read_path env m params ext source_id now shape =
     cache_path (the (meta_source m)) (meta_ttl m)
       (cache_key_for (double_text env) m params
          (Some (text_or source_id (text_or (meta_source m) (meta_name m)))) now shape) ext"

lemma read_through_cacheable:
  assumes "is_cacheable m" "some_text (meta_source m)" "CHR ''/'' \<notin> set (read_bucket env bucket)"
  shows "read_through env m params ext fetch bucket source_id force now recorder shape w =
     (case (if force then None
            else cached_read env (read_bucket env bucket) (read_path env m params ext source_id now shape)
                   recorder (cw_store w)) of
        Some (data, prov) \<Rightarrow>
          (Inr \<lparr>rr_uri = Some (''s3://'' @ read_bucket env bucket @ ''/'' @ read_path env m params ext source_id now shape),
                rr_data = data, rr_hit = True, rr_provenance = prov\<rparr>,
           (case recorder of None \<Rightarrow> w | Some r \<Rightarrow> w\<lparr>cw_data := (cw_data w)(r := prov)\<rparr>))
      | None \<Rightarrow>
          then_do (bind_recorder recorder fetch)
            (\<lambda>data w'. (Inr \<lparr>rr_uri = Some (''s3://'' @ read_bucket env bucket @ ''/'' @
                                read_path env m params ext source_id now shape),
                             rr_data = data, rr_hit = False, rr_provenance = recorded recorder w'\<rparr>,
                        store_fetched env (read_bucket env bucket) (read_path env m params ext source_id now shape)
                          ext recorder data w')) w)"
  using assms split_obj_uri [OF assms(3), of "read_path env m params ext source_id now shape"]
  by (simp add: read_through_def read_through_s3_def Let_def read_bucket_def [symmetric]
      read_path_def [symmetric] del: append.simps)

lemma read_path_stable:
  assumes "dict_ok p" "dict_ok q" "\<forall>k v. v \<noteq> PNone \<longrightarrow> dget p k = Some v \<longleftrightarrow> dget q k = Some v"
    and "ttl_bucket_vintage (meta_ttl m) s = ttl_bucket_vintage (meta_ttl m) t"
  shows "read_path env m p ext sid s shape = read_path env m q ext sid t shape"
  using canonical_params_perm [of p q "double_text env"] assms
  by (simp add: read_path_def cache_key_for_def compute_cache_key_def)

lemma store_fetched_reads:
  assumes "store_lawful env" "sidecar_key k \<noteq> k"
  shows "s3_get env (cw_store (store_fetched env b k ext recorder data w)) b k = Some data"
    and "s3_get env (cw_store (store_fetched env b k ext recorder data w)) b (sidecar_key k) =
           (case recorded recorder w of
              Some d \<Rightarrow> if json_serializable (PDict d)
                then Some (json_text (canonical_style (double_text env)) (PDict d))
                else s3_get env (cw_store w) b (sidecar_key k)
            | None \<Rightarrow> s3_get env (cw_store w) b (sidecar_key k))"
  using assms(2) lawful_put [OF assms(1)]
  by (auto simp: store_fetched_def write_sidecar_s3_def split_beta split: option.splits)


text \<open>A store kept in a map, and a tool, for concrete instances.\<close>

definition sample_cache_env :: "(string \<times> string \<Rightarrow> string option) cache_env" where
  "sample_cache_env =
     \<lparr>s3_get = (\<lambda>st b k. st (b, k)), s3_put = (\<lambda>b k v ct st. (True, st((b, k) := Some v))),
      json_loads = (\<lambda>t. Some (PDict [(schema_field, PInt provenance_schema)])),
      double_text = (\<lambda>f. ''0.5''), env_bucket = None\<rparr>"

definition sample_tool :: tool_metadata where
  "sample_tool = \<lparr>meta_name = ''fetch_dem'', meta_ttl = Static30d, meta_source = Some ''dem'',
                  meta_cacheable = Some True\<rparr>"

definition sample_world :: "(string \<times> string \<Rightarrow> string option) cache_world" where
  "sample_world = \<lparr>cw_store = (\<lambda>bk. None), cw_active = None, cw_data = (\<lambda>r. None)\<rparr>"

lemma sample_env_lawful [simp]: "store_lawful sample_cache_env"
  by (simp add: store_lawful_def sample_cache_env_def)

lemma sample_tool_ok [simp]:
  "is_cacheable sample_tool" "some_text (meta_source sample_tool)"
  "CHR ''/'' \<notin> set (read_bucket sample_cache_env None)" "CHR ''.'' \<notin> set (lstrip_dots ''tif'')"
  by (simp_all add: is_cacheable_def sample_tool_def read_bucket_def sample_cache_env_def cache_bucket_def
      lstrip_dots_def)

lemma fetching_recorded [simp]:
  "recorded (Some r) (snd (bind_recorder (Some r) (fetching [d] data) w)) =
     Some (dput schema_field (PInt provenance_schema) d)"
  "fst (bind_recorder (Some r) (fetching provs data) w) = Inr data"
  "recorded (Some r) (snd (bind_recorder (Some r) (fetching [] data) w)) = cw_data w r"
  "cw_store (snd (bind_recorder (Some r) (fetching [] data) w)) = cw_store w"
  by (simp_all add: bind_recorder_def fetching_def recorded_def record_provenance_def)


text \<open>
  a refresh whose fetch records no provenance stores the new bytes and leaves the old
  sidecar: a later read replays the old account with the new bytes.
\<close>

theorem refresh_replays_old_provenance:
  assumes "store_lawful env" "is_cacheable m" "some_text (meta_source m)"
    and "CHR ''/'' \<notin> set (read_bucket env bucket)" "CHR ''.'' \<notin> set (lstrip_dots ext)"
    and old: "cached_read env (read_bucket env bucket) (read_path env m p ext sid now shape) (Some r) (cw_store w) =
           Some (bytes, Some d)"
    and "cw_data w r = None"
  shows "let (a, w1) = read_through env m p ext (fetching [] fresh) bucket sid True now (Some r) shape w;
             (b, w2) = read_through env m p ext other bucket sid False now (Some r) shape w1
         in (\<exists>u. a = Inr \<lparr>rr_uri = u, rr_data = fresh, rr_hit = False, rr_provenance = None\<rparr> \<and>
                 b = Inr \<lparr>rr_uri = u, rr_data = fresh, rr_hit = True, rr_provenance = Some d\<rparr>)"
proof -
  define b where "b = read_bucket env bucket"
  define k where "k = read_path env m p ext sid now shape"
  have apart: "sidecar_key k \<noteq> k" unfolding k_def read_path_def by (rule sidecar_apart [OF assms(5)])
  obtain w' where w': "bind_recorder (Some r) (fetching [] fresh) w = (Inr fresh, w')"
    "recorded (Some r) w' = None" "cw_store w' = cw_store w"
    using fetching_recorded(2) [of r "[]" fresh w] fetching_recorded(3,4) [of r fresh w] assms(7)
    by (metis prod.collapse)
  define w1 where "w1 = store_fetched env b k ext (Some r) fresh w'"
  note reads = store_fetched_reads [OF assms(1) apart, of b ext "Some r" fresh w', folded w1_def]
  have "cached_read env b k (Some r) (cw_store w1) = Some (fresh, Some d)"
    using old reads w' by (auto simp: cached_read_def read_sidecar_s3_def Let_def b_def [symmetric] k_def [symmetric]
        split: option.splits if_splits pyval.splits)
  then show ?thesis
    using read_through_cacheable [OF assms(2-4), of p ext "fetching [] fresh" sid True now "Some r" shape w]
      read_through_cacheable [OF assms(2-4), of p ext other sid False now "Some r" shape w1] w'
    unfolding b_def [symmetric] k_def [symmetric] by (simp add: then_do_def w1_def)
qed

definition stocked_world :: "(string \<times> string \<Rightarrow> string option) cache_world" where
  "stocked_world = sample_world\<lparr>cw_store := (\<lambda>bk. Some ''old bytes'')\<rparr>"

theorem refresh_replays_old_provenance_witness:
  "\<exists>u w1. read_through sample_cache_env sample_tool [] ''tif'' (fetching [] ''new bytes'') None None True
      sample_moment (Some 0) '''' stocked_world =
     (Inr \<lparr>rr_uri = u, rr_data = ''new bytes'', rr_hit = False, rr_provenance = None\<rparr>, w1) \<and>
   fst (read_through sample_cache_env sample_tool [] ''tif'' (fetching [] ''new bytes'') None None False
      sample_moment (Some 0) '''' w1) =
     Inr \<lparr>rr_uri = u, rr_data = ''new bytes'', rr_hit = True,
          rr_provenance = Some [(schema_field, PInt provenance_schema)]\<rparr>"
proof -
  have old: "cached_read sample_cache_env (read_bucket sample_cache_env None)
      (read_path sample_cache_env sample_tool [] ''tif'' None sample_moment '''') (Some 0)
      (cw_store stocked_world) = Some (''old bytes'', Some [(schema_field, PInt provenance_schema)])"
    by (simp add: cached_read_def read_sidecar_s3_def stocked_world_def sample_cache_env_def
        sidecar_is_current_def pget_def dget_or_def)
  have "cw_data stocked_world 0 = None" by (simp add: stocked_world_def sample_world_def)
  from refresh_replays_old_provenance [OF sample_env_lawful sample_tool_ok old this, of "''new bytes''"
      "fetching [] ''new bytes''"]
  show ?thesis by (auto simp: Let_def split: prod.splits)
qed

lemma then_do_keeps:
  "then_do m f w = (a, w1) \<Longrightarrow>
     (\<exists>e. m w = (Inl e, w1) \<and> a = Inl e) \<or> (\<exists>x w'. m w = (Inr x, w') \<and> f x w' = (a, w1))"
  by (auto simp: then_do_def split: prod.splits sum.splits)

lemma bind_recorder_keeps:
  assumes "\<forall>w. cw_store (snd (fetch w)) = cw_store w" "\<forall>w. cw_active (snd (fetch w)) = cw_active w"
  shows "cw_store (snd (bind_recorder recorder fetch w)) = cw_store w"
    "cw_active (snd (bind_recorder recorder fetch w)) = cw_active w"
  using assms by (auto simp: bind_recorder_def split_beta split: option.splits)

lemma store_fetched_active [simp]: "cw_active (store_fetched env b k ext recorder data w) = cw_active w"
  by (simp add: store_fetched_def split_beta)

text \<open>
  a failed fetch is raised again and nothing is stored; an uncacheable tool never
  touches the store and has no uri; and the recorder bound before the read is bound again
  after it, however the read ends.
\<close>

theorem fetch_failure_not_cached:
  assumes "\<forall>w. cw_store (snd (fetch w)) = cw_store w" "\<forall>w. cw_active (snd (fetch w)) = cw_active w"
  shows "let (a, w1) = read_through env m p ext fetch bucket sid force now recorder shape w in
         cw_active w1 = cw_active w \<and>
         ((\<exists>e. a = Inl e) \<or> \<not> is_cacheable m \<longrightarrow> cw_store w1 = cw_store w) \<and>
         (\<forall>e. a = Inl e \<longrightarrow> fst (bind_recorder recorder fetch w) = Inl e \<or>
                             is_cacheable m \<and> \<not> some_text (meta_source m)) \<and>
         (\<forall>r. a = Inr r \<and> \<not> is_cacheable m \<longrightarrow> rr_uri r = None \<and> \<not> rr_hit r)"
proof -
  obtain a w1 where e: "read_through env m p ext fetch bucket sid force now recorder shape w = (a, w1)"
    by fastforce
  note keeps = bind_recorder_keeps [OF assms, of recorder w]
  consider "\<not> is_cacheable m" | "is_cacheable m" "\<not> some_text (meta_source m)"
    | "is_cacheable m" "some_text (meta_source m)" by blast
  then show ?thesis
  proof cases
    case 1
    with e show ?thesis
      using keeps by (auto simp: read_through_def then_do_def reading_def split: prod.splits sum.splits)
  next
    case 2
    with e show ?thesis by (auto simp: read_through_def raising_def)
  next
    case 3
    obtain uri where "read_through_s3 env uri fetch force ext recorder w = (a, w1)"
      using e 3 by (auto simp: read_through_def Let_def)
    then show ?thesis
      using keeps 3 e unfolding read_through_s3_def Let_def
      by (auto split: prod.splits option.splits dest!: then_do_keeps)
  qed
qed

theorem fetch_failure_not_cached_witness:
  "case read_through sample_cache_env sample_tool [] ''tif'' (raising (plain_exn ExcOSError ''down'')) None None
      True sample_moment (Some 0) '''' stocked_world of
     (a, w1) \<Rightarrow> cw_active w1 = None \<and> ((\<exists>e. a = Inl e) \<longrightarrow> cw_store w1 = cw_store stocked_world)"
  using fetch_failure_not_cached [of "raising (plain_exn ExcOSError ''down'')" sample_cache_env sample_tool "[]"
      "''tif''" None None True sample_moment "Some 0" "''''" stocked_world]
  by (auto simp: raising_def stocked_world_def sample_world_def)

section \<open>Registration\<close>

text \<open>
  C10: a registered tool's cacheable flag is set and agrees with its TTL class, and it is
  cacheable exactly when it is not live; a tool that states the flag also has a source
  class where it is cached.
\<close>

theorem validated_metadata_consistent:
  assumes "validate_metadata m = Inr v"
  shows "(meta_cacheable v = Some True \<longleftrightarrow> meta_ttl v \<noteq> LiveNoCache) \<and> meta_cacheable v \<noteq> None \<and>
         (is_cacheable v \<longleftrightarrow> meta_ttl v \<noteq> LiveNoCache) \<and> meta_ttl v = meta_ttl m \<and>
         meta_source v = meta_source m \<and>
         (meta_cacheable m \<noteq> None \<and> is_cacheable v \<longrightarrow> some_text (meta_source v))"
  using assms by (auto simp: validate_metadata_def is_cacheable_def split: option.splits bool.splits if_splits)

theorem validated_metadata_consistent_witness:
  "is_cacheable sample_tool \<and> some_text (meta_source sample_tool)"
proof -
  have "validate_metadata sample_tool = Inr sample_tool"
    by (simp add: validate_metadata_def sample_tool_def)
  from validated_metadata_consistent [OF this] show ?thesis by (simp add: sample_tool_def)
qed

text \<open>
  a tool that leaves the flag to be derived passes the validator without a source
  class, and every read of it raises the error the validator should have caught.
\<close>

theorem unsourced_tool_registers:
  assumes "meta_cacheable m = None" "meta_ttl m \<noteq> LiveNoCache" "\<not> some_text (meta_source m)"
  shows "\<exists>v. validate_metadata m = Inr v \<and> is_cacheable v \<and>
           (\<exists>e. exc_class e = ExcValueError \<and>
                read_through env v p ext fetch bucket sid force now recorder shape w = (Inl e, w))"
  using assms by (simp add: validate_metadata_def is_cacheable_def read_through_def raising_def plain_exn_def)

theorem unsourced_tool_registers_witness:
  "\<exists>v. validate_metadata (sample_tool\<lparr>meta_source := None, meta_cacheable := None\<rparr>) = Inr v \<and> is_cacheable v"
  using unsourced_tool_registers [of "sample_tool\<lparr>meta_source := None, meta_cacheable := None\<rparr>"
      sample_cache_env "[]" "''tif''" "fetching [] ''''" None None False sample_moment None "''''" sample_world]
  by (auto simp: sample_tool_def)

end
