(* ===== verification/LayerHandles.thy ===== *)
theory LayerHandles
  imports FetchCache
begin

text \<open>
  trid3nt_server/render/uri_registry.py: the per-session table from layer handles to
  object-store uris, the short handles \<open>L<n>\<close> the model reads, the resolution of a tool
  call's uri params, and the store of registries by session. A result is plain data: the
  dump of pydantic objects, and the identities that stop a walk on shared containers, are
  left out, and so are log lines.
\<close>

section \<open>Records and the registry\<close>

definition resolvable_uri_params :: "string list" where
  "resolvable_uri_params = [''layer_uri'', ''model_setup_uri'']"

definition short_handles_cap :: nat where
  "short_handles_cap = 4096"

definition hash_prefix_min :: nat where
  "hash_prefix_min = 12"

definition sessions_held :: nat where
  "sessions_held = 4096"

definition records_per_session_cap :: nat where
  "records_per_session_cap = 1024"

definition walk_max_depth :: nat where
  "walk_max_depth = 8"

definition walk_max_items :: nat where
  "walk_max_items = 64"

definition announce_cap :: nat where
  "announce_cap = 8"

definition error_handles_cap :: nat where
  "error_handles_cap = 10"

record uri_error =
  ue_param :: string
  ue_value :: string
  ue_inventory :: string

record uri_record =
  ur_handle :: string
  ur_uri :: "string option"
  ur_tool :: "string option"
  ur_dataset :: "string option"
  ur_cache_key :: "string option"
  ur_seq :: nat
  ur_summary :: "(string, pyval) dict"

definition summary_fields :: "string list" where
  "summary_fields = [''name'', ''quantity'', ''vertical_datum'', ''units'', ''sources'',
     ''datum_offset_m'', ''datum_offset_frame'']"

record registry =
  reg_session :: string
  reg_records :: "(string, uri_record) dict"
  reg_uri_to_handle :: "(string, string) dict"
  reg_seq :: nat
  reg_pending :: "(string, string) dict"
  reg_short_to_uri :: "(string, string) dict"
  reg_uri_to_short :: "(string, string) dict"
  reg_short_seq :: nat
  reg_shorts_dirty :: bool

definition new_registry :: "string \<Rightarrow> registry" where
  "new_registry sid =
     \<lparr>reg_session = sid, reg_records = [], reg_uri_to_handle = [], reg_seq = 0, reg_pending = [],
      reg_short_to_uri = [], reg_uri_to_short = [], reg_short_seq = 0, reg_shorts_dirty = False\<rparr>"

section \<open>Uri texts\<close>

definition is_object_store :: "string \<Rightarrow> bool" where
  "is_object_store v = starts_with ''s3://'' v"

text \<open>\<open>^[a-zA-Z][a-zA-Z0-9+.-]*://\<close>.\<close>

definition is_scheme_char :: "char \<Rightarrow> bool" where
  "is_scheme_char c \<longleftrightarrow> is_letter c \<or> is_digit c \<or> c \<in> {CHR ''+'', CHR ''.'', CHR ''-''}"

definition is_uri_shaped :: "string \<Rightarrow> bool" where
  "is_uri_shaped v \<longleftrightarrow>
     (v \<noteq> [] \<and> is_letter (hd v) \<and> starts_with ''://'' (dropWhile is_scheme_char v)) \<or> starts_with ''/vsi'' v"

text \<open>The path of \<open>urlparse\<close>, for a uri with a network location (without brackets).\<close>

definition url_path :: "string \<Rightarrow> string" where
  "url_path uri =
     (case after_first ''://'' uri of
        None \<Rightarrow> uri
      | Some rest \<Rightarrow> takeWhile (\<lambda>c. c \<notin> {CHR ''?'', CHR ''#''})
                       (dropWhile (\<lambda>c. c \<notin> {CHR ''/'', CHR ''?'', CHR ''#''}) rest))"

definition basename_of :: "string \<Rightarrow> string" where
  "basename_of uri = after_last CHR ''/'' (if contains ''://'' uri then url_path uri else uri)"

definition stem_of :: "string \<Rightarrow> string" where
  "stem_of uri = (let base = basename_of uri; stem = before_last CHR ''.'' base in
     if stem \<noteq> [] then stem else base)"

definition ext_of :: "string \<Rightarrow> string" where
  "ext_of base = (if CHR ''.'' \<in> set base then after_last CHR ''.'' base else [])"

definition parent_dir :: "string \<Rightarrow> string" where
  "parent_dir uri = rsplit_head CHR ''/'' uri"

definition path_segments :: "string \<Rightarrow> string list" where
  "path_segments uri =
     filter (\<lambda>seg. seg \<noteq> []) (split_on CHR ''/'' (if starts_with ''s3://'' uri then drop 5 uri else uri))"

fun common_prefix_len :: "string \<Rightarrow> string \<Rightarrow> nat" where
  "common_prefix_len (a # as) (b # bs) = (if a = b then Suc (common_prefix_len as bs) else 0)"
| "common_prefix_len as bs = 0"

section \<open>Short handles\<close>

text \<open>\<open>^[Ll](\d+)$\<close> on a stripped string, with the number it captures.\<close>

definition short_number :: "string \<Rightarrow> nat option" where
  "short_number s =
     (case s of
        [] \<Rightarrow> None
      | c # ds \<Rightarrow> if c \<in> {CHR ''L'', CHR ''l''} \<and> ds \<noteq> [] \<and> list_all is_digit ds
                  then Some (digits_value ds) else None)"

definition short_text :: "nat \<Rightarrow> string" where
  "short_text n = CHR ''L'' # show_nat n"

definition next_short :: "registry \<Rightarrow> nat \<times> registry" where
  "next_short reg = (Suc (reg_short_seq reg), reg\<lparr>reg_short_seq := Suc (reg_short_seq reg)\<rparr>)"

definition mint_short :: "string \<Rightarrow> registry \<Rightarrow> registry" where
  "mint_short uri reg =
     (case dget (reg_uri_to_short reg) uri of
        Some existing \<Rightarrow> reg
      | None \<Rightarrow>
          if short_handles_cap \<le> length (reg_short_to_uri reg) then reg
          else (let (n, reg1) = next_short reg; short = short_text n in
                reg1\<lparr>reg_short_to_uri := dput short uri (reg_short_to_uri reg1),
                     reg_uri_to_short := dput uri short (reg_uri_to_short reg1),
                     reg_shorts_dirty := True\<rparr>))"

definition short_for_uri :: "registry \<Rightarrow> string option \<Rightarrow> string option" where
  "short_for_uri reg uri = (if \<not> some_text uri then None else dget (reg_uri_to_short reg) (py_strip (the uri)))"

definition export_short_handles :: "registry \<Rightarrow> (string, string) dict" where
  "export_short_handles reg = reg_short_to_uri reg"

fun import_short :: "pyval \<times> pyval \<Rightarrow> registry \<Rightarrow> registry" where
  "import_short (PStr raw_short, PStr raw_uri) reg =
     (case short_number (py_strip raw_short) of
        None \<Rightarrow> reg
      | Some n \<Rightarrow>
          (let uri = py_strip raw_uri; short = short_text n in
           if uri = [] then reg
           else reg\<lparr>reg_short_to_uri := dput short uri (reg_short_to_uri reg),
                    reg_uri_to_short := (if dhas (reg_uri_to_short reg) uri then reg_uri_to_short reg
                                         else dput uri short (reg_uri_to_short reg)),
                    reg_short_seq := max (reg_short_seq reg) n\<rparr>))"
| "import_short kv reg = reg"

definition import_short_handles :: "(pyval \<times> pyval) list \<Rightarrow> registry \<Rightarrow> registry" where
  "import_short_handles mapping reg = fold import_short mapping reg"

definition mark_shorts_persisted :: "registry \<Rightarrow> registry" where
  "mark_shorts_persisted reg = reg\<lparr>reg_shorts_dirty := False\<rparr>"

section \<open>Registration\<close>

text \<open>Evict the oldest records over the cap, with the uri they own.\<close>

function evict_if_needed :: "registry \<Rightarrow> registry" where
  "evict_if_needed reg =
     (case reg_records reg of
        [] \<Rightarrow> reg
      | (h, rec) # rest \<Rightarrow>
          if length (reg_records reg) \<le> records_per_session_cap then reg
          else evict_if_needed (reg\<lparr>reg_records := rest,
                 reg_uri_to_handle :=
                   (if some_text (ur_uri rec) \<and> dget (reg_uri_to_handle reg) (the (ur_uri rec)) = Some h
                    then dpop (the (ur_uri rec)) (reg_uri_to_handle reg) else reg_uri_to_handle reg)\<rparr>))"
  by pat_completeness auto
termination
  by (relation "measure (\<lambda>reg. length (reg_records reg))") auto

declare evict_if_needed.simps [simp del]

definition fresh_record :: "string \<Rightarrow> nat \<Rightarrow> uri_record" where
  "fresh_record handle n =
     \<lparr>ur_handle = handle, ur_uri = None, ur_tool = None, ur_dataset = None, ur_cache_key = None,
      ur_seq = n, ur_summary = []\<rparr>"

text \<open>The record of a handle, registered where it is new.\<close>

definition ensure_record :: "string \<Rightarrow> registry \<Rightarrow> uri_record \<times> registry" where
  "ensure_record handle reg =
     (case dget (reg_records reg) handle of
        Some rec \<Rightarrow> (rec, reg)
      | None \<Rightarrow>
          (let n = Suc (reg_seq reg); rec = fresh_record handle n in
           (rec, evict_if_needed (reg\<lparr>reg_seq := n, reg_records := dput handle rec (reg_records reg)\<rparr>))))"

text \<open>A uri given to a record: its fetch key, and the summary of the layer it was before.\<close>

definition attach_uri :: "string \<Rightarrow> uri_record \<Rightarrow> registry \<Rightarrow> uri_record" where
  "attach_uri uri rec reg =
     (let rec1 = (case parse_cache_path (Some uri) of
            None \<Rightarrow> rec
          | Some (sc, key) \<Rightarrow> rec\<lparr>ur_dataset := Some sc, ur_cache_key := Some key\<rparr>);
          prior = dget (reg_records reg) (dget_or (reg_uri_to_handle reg) uri []);
          rec2 = (case prior of
            Some p \<Rightarrow> if ur_summary rec1 = [] then rec1\<lparr>ur_summary := ur_summary p\<rparr> else rec1
          | None \<Rightarrow> rec1)
      in rec2\<lparr>ur_uri := Some uri\<rparr>)"

definition trim_pending :: "(string, string) dict \<Rightarrow> (string, string) dict" where
  "trim_pending d = drop (length d - announce_cap) d"

definition record_layer ::
  "string \<Rightarrow> string option \<Rightarrow> string option \<Rightarrow> bool \<Rightarrow> registry \<Rightarrow> registry" where
  "record_layer handle uri tool_name announce reg0 =
     (if handle = [] then reg0
      else (let (rec0, reg) = ensure_record handle reg0;
                (rec1, reg1) =
                  (if some_text uri
                   then (attach_uri (the uri) rec0 reg,
                         mint_short (the uri)
                           (reg\<lparr>reg_uri_to_handle := dput (the uri) handle (reg_uri_to_handle reg)\<rparr>))
                   else (rec0, reg));
                rec2 = (if some_text tool_name then rec1\<lparr>ur_tool := tool_name\<rparr> else rec1);
                reg2 = reg1\<lparr>reg_records := dput handle rec2 (reg_records reg1)\<rparr>
            in if announce \<and> some_text (ur_uri rec2)
               then reg2\<lparr>reg_pending := trim_pending (dput handle (the (ur_uri rec2)) (reg_pending reg2))\<rparr>
               else reg2))"

definition register_bare_string :: "string \<Rightarrow> string \<Rightarrow> registry \<Rightarrow> registry" where
  "register_bare_string tool_name raw reg =
     (let value = py_strip raw in
      if value = [] \<or> \<not> is_object_store value \<or> dhas (reg_uri_to_handle reg) value then reg
      else if dhas (reg_records reg) (stem_of value)
      then record_layer (stem_of value) (Some value) (Some tool_name) False reg
      else record_layer (''uri:'' @ basename_of value) (Some value) (Some tool_name) False reg)"

text \<open>\<open>d.update(e)\<close>.\<close>

definition dict_update :: "('k, 'v) dict \<Rightarrow> ('k, 'v) dict \<Rightarrow> ('k, 'v) dict" where
  "dict_update d e = fold (\<lambda>(k, v). dput k v) e d"

definition summary_of :: "(string, pyval) dict \<Rightarrow> (string, pyval) dict" where
  "summary_of node = List.map_filter (\<lambda>k. if pget node k = PNone then None else Some (k, pget node k)) summary_fields"

definition note_summary :: "string \<Rightarrow> (string, pyval) dict \<Rightarrow> registry \<Rightarrow> registry" where
  "note_summary handle node reg =
     (case dget (reg_records reg) handle of
        None \<Rightarrow> reg
      | Some rec \<Rightarrow> reg\<lparr>reg_records := dput handle
            (rec\<lparr>ur_summary := dict_update (ur_summary rec) (summary_of node)\<rparr>) (reg_records reg)\<rparr>)"

definition register_dict :: "string \<Rightarrow> (string, pyval) dict \<Rightarrow> registry \<Rightarrow> registry" where
  "register_dict tool_name node reg =
     (case (pget node ''layer_id'', pget node ''uri'') of
        (PStr layer_id, PStr uri) \<Rightarrow>
          if layer_id \<noteq> [] \<and> uri \<noteq> []
          then note_summary layer_id node (record_layer layer_id (Some uri) (Some tool_name) True reg)
          else reg
      | _ \<Rightarrow> reg)"

text \<open>\<open>_walk\<close>: \<open>left\<close> counts down from the levels a walk enters, depth 0 to the maximum.\<close>

fun walk :: "nat \<Rightarrow> string \<Rightarrow> pyval \<Rightarrow> registry \<Rightarrow> registry" where
  "walk 0 tool_name node reg = reg"
| "walk (Suc left) tool_name node reg =
     (case node of
        PStr s \<Rightarrow> register_bare_string tool_name s reg
      | PDict d \<Rightarrow>
          fold (\<lambda>(k, v) r. if k \<in> {''features'', ''geometry'', ''chat_history''} then r
                             else walk left tool_name v r)
            (take walk_max_items d) (register_dict tool_name d reg)
      | PList xs \<Rightarrow> fold (walk left tool_name) (take walk_max_items xs) reg
      | PTuple xs \<Rightarrow> fold (walk left tool_name) (take walk_max_items xs) reg
      | _ \<Rightarrow> reg)"

definition register_tool_result :: "string \<Rightarrow> pyval \<Rightarrow> registry \<Rightarrow> (string, string) dict \<times> registry" where
  "register_tool_result tool_name result reg =
     (let reg1 = walk (Suc walk_max_depth) tool_name result reg in
      (filter (\<lambda>(h, u). dget (reg_pending reg) h \<noteq> Some u) (reg_pending reg1), reg1))"

definition clear_registry :: "registry \<Rightarrow> registry" where
  "clear_registry reg =
     reg\<lparr>reg_records := [], reg_uri_to_handle := [], reg_pending := [], reg_short_to_uri := [],
         reg_uri_to_short := [], reg_short_seq := 0, reg_shorts_dirty := False\<rparr>"

definition replace_from_layers :: "pyval \<Rightarrow> (pyval \<times> pyval) list \<Rightarrow> registry \<Rightarrow> registry" where
  "replace_from_layers layers short_handles reg =
     walk (Suc walk_max_depth) ''case-rehydration'' layers
       (import_short_handles short_handles (clear_registry reg))"

definition drain_announcements :: "registry \<Rightarrow> (string, string) dict \<times> registry" where
  "drain_announcements reg = (reg_pending reg, reg\<lparr>reg_pending := []\<rparr>)"

section \<open>The rewrite of a result for the model\<close>

definition rewrite_string :: "(string, string) dict \<Rightarrow> string list \<Rightarrow> string \<Rightarrow> string" where
  "rewrite_string mapping faces s =
     (case dget mapping s of
        Some hit \<Rightarrow> hit
      | None \<Rightarrow>
          if contains ''://'' s \<or> starts_with ''/vsi'' s
          then fold (\<lambda>face out. if contains face out then replace_all face (dget_or mapping face []) out else out)
                 faces s
          else s)"

fun rewrite_node :: "nat \<Rightarrow> (string, string) dict \<Rightarrow> string list \<Rightarrow> pyval \<Rightarrow> pyval" where
  "rewrite_node 0 mapping faces node = node"
| "rewrite_node (Suc left) mapping faces node =
     (case node of
        PStr s \<Rightarrow> PStr (rewrite_string mapping faces s)
      | PDict d \<Rightarrow> PDict (map (\<lambda>(k, v). (k, rewrite_node left mapping faces v)) d)
      | PList xs \<Rightarrow> PList (map (rewrite_node left mapping faces) xs)
      | PTuple xs \<Rightarrow> PTuple (map (rewrite_node left mapping faces) xs)
      | _ \<Rightarrow> node)"

definition rewrite_result_for_llm :: "registry \<Rightarrow> pyval \<Rightarrow> pyval" where
  "rewrite_result_for_llm reg node =
     (let mapping = reg_uri_to_short reg in
      if mapping = [] then node
      else rewrite_node (Suc walk_max_depth) mapping
             (sort_key (\<lambda>face. - int (length face)) (dkeys mapping)) node)"

section \<open>Resolution\<close>

definition layer_record :: "uri_record \<Rightarrow> bool" where
  "layer_record r \<longleftrightarrow> some_text (ur_uri r) \<and> \<not> starts_with ''uri:'' (ur_handle r)"

definition layers_newest_first :: "registry \<Rightarrow> uri_record list" where
  "layers_newest_first reg =
     sort_key (\<lambda>r. - int (ur_seq r)) (filter layer_record (map snd (reg_records reg)))"

definition inventory_line :: "registry \<Rightarrow> uri_record \<Rightarrow> string" where
  "inventory_line reg r =
     (let base = ur_handle r @ '' (from '' @ text_or (ur_tool r) ''unknown'' @ '')'' in
      case (case ur_uri r of None \<Rightarrow> None | Some u \<Rightarrow> dget (reg_uri_to_short reg) u) of
        Some short \<Rightarrow> if short \<noteq> [] then short @ '' = '' @ base else base
      | None \<Rightarrow> base)"

definition inventory_text :: "registry \<Rightarrow> string" where
  "inventory_text reg =
     (let recs = layers_newest_first reg in
      if recs = []
      then ''No layers have been produced this session yet - run the tool that produces the layer first.''
      else ''Known handles: '' @ join '', '' (map (inventory_line reg) (take error_handles_cap recs)) @ ''.'')"

text \<open>The records that carry a uri, by the tool that produced them, in dictionary order.\<close>

definition by_producer :: "registry \<Rightarrow> (string, uri_record list) dict" where
  "by_producer reg =
     fold (\<lambda>r d. if some_text (ur_uri r) \<and> some_text (ur_tool r) \<and> ur_tool r \<noteq> Some ''case-rehydration''
                  then dput (the (ur_tool r)) (dget_or d (the (ur_tool r)) [] @ [r]) d else d)
       (map snd (reg_records reg)) []"

definition named_producers :: "registry \<Rightarrow> string \<Rightarrow> string list" where
  "named_producers reg value =
     (let matched = filter (\<lambda>n. contains (py_lower n) (py_lower value)) (dkeys (by_producer reg)) in
      if 1 < length matched
      then filter (\<lambda>n. \<not> list_ex (\<lambda>m. m \<noteq> n \<and> contains (py_lower n) (py_lower m)) matched) matched
      else matched)"

definition resolve_placeholder :: "registry \<Rightarrow> string \<Rightarrow> (string \<times> string) option" where
  "resolve_placeholder reg value =
     (if is_uri_shaped value \<or> starts_with ''/'' value \<or> starts_with [CHR 0x5C] value then None
      else (case named_producers reg value of
              [producer] \<Rightarrow>
                (case remdups (List.map_filter ur_uri (dget_or (by_producer reg) producer [])) of
                   [uri] \<Rightarrow> Some (uri, producer)
                 | _ \<Rightarrow> None)
            | _ \<Rightarrow> None))"

definition known_uris :: "registry \<Rightarrow> string list" where
  "known_uris reg =
     List.map_filter (\<lambda>r. if some_text (ur_uri r) \<and> is_object_store (the (ur_uri r)) then ur_uri r else None)
       (map snd (reg_records reg))"

text \<open>The first of the candidates with the best score, where no other has that score.\<close>

definition unique_best :: "('a \<Rightarrow> nat) \<Rightarrow> 'a list \<Rightarrow> 'a option" where
  "unique_best score xs =
     (case sort_key (\<lambda>x. - int (score x)) xs of
        [] \<Rightarrow> None
      | [x] \<Rightarrow> Some x
      | x # y # ys \<Rightarrow> if score y < score x then Some x else None)"

definition segment_overlap :: "string \<Rightarrow> string \<Rightarrow> nat" where
  "segment_overlap v u = length (filter (List.member (path_segments u)) (remdups (path_segments v)))"

text \<open>A layer id grafted onto a uri as its basename.\<close>

definition grafted_layer :: "registry \<Rightarrow> string \<Rightarrow> string option" where
  "grafted_layer reg stem =
     (case dget (reg_records reg) stem of
        Some rec \<Rightarrow> if some_text (ur_uri rec) then ur_uri rec else None
      | None \<Rightarrow> None)"

definition fuzzy_match :: "registry \<Rightarrow> string \<Rightarrow> string option" where
  "fuzzy_match reg v =
     (let known = known_uris reg; base = basename_of v; stem = stem_of v;
          same_base = filter (\<lambda>u. basename_of u = base) known;
          prefixed = filter (\<lambda>u. hash_prefix_min \<le> common_prefix_len (stem_of u) stem)
            (filter (\<lambda>u. ext_of (basename_of u) = ext_of base) known);
          same_dir = filter (\<lambda>u. parent_dir u = parent_dir v) known
      in if known = [] then None
         else if grafted_layer reg stem \<noteq> None then grafted_layer reg stem
         else if same_base \<noteq> [] then unique_best (segment_overlap v) same_base
         else if prefixed \<noteq> [] then unique_best (\<lambda>u. common_prefix_len (stem_of u) stem) prefixed
         else if length same_dir = 1 then Some (hd same_dir) else None)"

definition resolve_one :: "registry \<Rightarrow> string \<Rightarrow> string \<Rightarrow> uri_error + string" where
  "resolve_one reg param_name value =
     (let v = py_strip value;
          refused = Inl \<lparr>ue_param = param_name, ue_value = value, ue_inventory = inventory_text reg\<rparr>
      in if grafted_layer reg v \<noteq> None then Inr (the (grafted_layer reg v))
         else if dhas (reg_uri_to_handle reg) v then Inr v
         else (case short_number v of
                 Some n \<Rightarrow> (case dget (reg_short_to_uri reg) (short_text n) of
                     Some uri \<Rightarrow> Inr uri | None \<Rightarrow> refused)
               | None \<Rightarrow>
                   (case resolve_placeholder reg v of
                      Some (uri, producer) \<Rightarrow> Inr uri
                    | None \<Rightarrow>
                        if \<not> is_object_store v then Inr value
                        else (case fuzzy_match reg v of Some uri \<Rightarrow> Inr uri | None \<Rightarrow> refused))))"

fun resolve_fields ::
  "registry \<Rightarrow> (string, pyval) dict \<Rightarrow> (string, pyval) dict \<Rightarrow> uri_error + (string, pyval) dict" where
  "resolve_fields reg [] out = Inr out"
| "resolve_fields reg ((name, PStr value) # rest) out =
     (if \<not> List.member resolvable_uri_params name then resolve_fields reg rest out
      else (case resolve_one reg name value of
              Inl e \<Rightarrow> Inl e
            | Inr resolved \<Rightarrow> resolve_fields reg rest
                (if resolved \<noteq> value then dput name (PStr resolved) out else out)))"
| "resolve_fields reg ((name, v) # rest) out = resolve_fields reg rest out"

definition resolve_params :: "registry \<Rightarrow> (string, pyval) dict \<Rightarrow> uri_error + (string, pyval) dict" where
  "resolve_params reg params = resolve_fields reg params params"

definition handle_for_cache_key :: "registry \<Rightarrow> string option \<Rightarrow> string option" where
  "handle_for_cache_key reg cache_key =
     (if \<not> some_text cache_key then None
      else map_option fst (List.find (\<lambda>(h, rec). ur_cache_key rec = cache_key \<and> \<not> starts_with ''uri:'' h)
             (rev (reg_records reg))))"

section \<open>The registries of the process\<close>

type_synonym registries = "(string, registry) dict"

function evict_sessions :: "registries \<Rightarrow> registries" where
  "evict_sessions regs =
     (if length regs < sessions_held then regs
      else case regs of [] \<Rightarrow> [] | r # rest \<Rightarrow> evict_sessions rest)"
  by pat_completeness auto
termination
  by (relation "measure length") auto

declare evict_sessions.simps [simp del]

definition get_uri_registry :: "string \<Rightarrow> registries \<Rightarrow> registry \<times> registries" where
  "get_uri_registry sid regs =
     (case dget regs sid of
        Some reg \<Rightarrow> (reg, regs)
      | None \<Rightarrow> (new_registry sid, dput sid (new_registry sid) (evict_sessions regs)))"

text \<open>The lookups of a dispatch, over the registry bound for it.\<close>

definition lookup_uri_for_handle :: "registry option \<Rightarrow> string \<Rightarrow> string option" where
  "lookup_uri_for_handle active handle =
     (case active of
        None \<Rightarrow> None
      | Some reg \<Rightarrow>
          (if handle = [] then None
           else (let key = py_strip handle in
                 if dhas (reg_uri_to_handle reg) key \<or> dhas (reg_uri_to_short reg) key then Some key
                 else if some_text (dget (reg_short_to_uri reg) (py_upper key))
                 then dget (reg_short_to_uri reg) (py_upper key)
                 else (case dget (reg_records reg) key of Some rec \<Rightarrow> ur_uri rec | None \<Rightarrow> None))))"

record case_layer =
  cl_layer_id :: string
  cl_uri :: "string option"
  cl_name :: string

definition case_layers :: "registry option \<Rightarrow> case_layer list" where
  "case_layers active =
     (case active of
        None \<Rightarrow> []
      | Some reg \<Rightarrow>
          map (\<lambda>r. \<lparr>cl_layer_id = text_or (dget (reg_uri_to_short reg) (the (ur_uri r))) (ur_handle r),
                     cl_uri = ur_uri r, cl_name = ur_handle r\<rparr>)
            (layers_newest_first reg))"

definition lookup_layer_for_handle :: "registry option \<Rightarrow> string \<Rightarrow> (string, pyval) dict option" where
  "lookup_layer_for_handle active handle =
     (let uri = lookup_uri_for_handle active handle in
      case active of
        None \<Rightarrow> None
      | Some reg \<Rightarrow>
          (if \<not> some_text uri then None
           else (let key = py_strip handle;
                     rec = (case dget (reg_records reg) key of
                              Some r \<Rightarrow> Some r
                            | None \<Rightarrow> dget (reg_records reg) (dget_or (reg_uri_to_handle reg) (the uri) []));
                     summary = (case rec of Some r \<Rightarrow> ur_summary r | None \<Rightarrow> [])
                 in Some (dput ''uri'' (PStr (the uri)) (dict_update [(''name'', PStr key)] summary)))))"

definition observe_published_layer :: "string \<Rightarrow> string option \<Rightarrow> registry \<Rightarrow> registry" where
  "observe_published_layer layer_id uri reg =
     record_layer layer_id uri (if dhas (reg_records reg) layer_id then None else Some ''publish_layer'') True reg"

section \<open>Short handles are minted once\<close>

definition numbers_in_use :: "registry \<Rightarrow> nat set" where
  "numbers_in_use reg = {n. dhas (reg_short_to_uri reg) (short_text n)}"

interpretation short_counter: fresh_counter next_short "\<lambda>reg. Suc (reg_short_seq reg)" numbers_in_use
  by unfold_locales (auto simp: next_short_def numbers_in_use_def)

text \<open>The two maps are inverse to each other, and every number is at or under the counter.\<close>

definition shorts_ok :: "registry \<Rightarrow> bool" where
  "shorts_ok reg \<longleftrightarrow>
     dict_ok (reg_short_to_uri reg) \<and> dict_ok (reg_uri_to_short reg) \<and>
     (\<forall>s u. dget (reg_short_to_uri reg) s = Some u \<longleftrightarrow> dget (reg_uri_to_short reg) u = Some s) \<and>
     (\<forall>s u. dget (reg_short_to_uri reg) s = Some u \<longrightarrow>
        u \<noteq> [] \<and> (\<exists>n. 1 \<le> n \<and> n \<le> reg_short_seq reg \<and> s = short_text n))"

lemma short_text_inject [simp]: "short_text m = short_text n \<longleftrightarrow> m = n"
  by (simp add: short_text_def)

lemma shorts_ok_in_use: "shorts_ok reg \<Longrightarrow> \<forall>n \<in> numbers_in_use reg. n < Suc (reg_short_seq reg)"
  by (fastforce simp: shorts_ok_def numbers_in_use_def dhas_def less_Suc_eq_le)

lemma shorts_ok_inverse:
  "shorts_ok reg \<Longrightarrow> dget (reg_short_to_uri reg) s = Some u \<longleftrightarrow> dget (reg_uri_to_short reg) u = Some s"
  unfolding shorts_ok_def by blast

lemma mint_fresh:
  assumes "shorts_ok reg"
  shows "dget (reg_short_to_uri reg) (short_text (Suc (reg_short_seq reg))) = None"
  using short_counter.alloc_fresh [OF shorts_ok_in_use [OF assms]]
  by (simp add: next_short_def numbers_in_use_def dhas_def)

lemma mint_shorts_ok:
  assumes "shorts_ok reg" "uri \<noteq> []"
  shows "shorts_ok (mint_short uri reg)"
proof (cases "dget (reg_uri_to_short reg) uri = None \<and> length (reg_short_to_uri reg) < short_handles_cap")
  case False
  then show ?thesis using assms by (auto simp: mint_short_def not_less split: option.splits)
next
  case True
  let ?s = "short_text (Suc (reg_short_seq reg))"
  have new: "dget (reg_short_to_uri reg) ?s = None" by (rule mint_fresh [OF assms(1)])
  have m: "mint_short uri reg = reg\<lparr>reg_short_seq := Suc (reg_short_seq reg),
      reg_short_to_uri := dput ?s uri (reg_short_to_uri reg),
      reg_uri_to_short := dput uri ?s (reg_uri_to_short reg), reg_shorts_dirty := True\<rparr>"
    using True by (simp add: mint_short_def next_short_def Let_def)
  have "dget (reg_short_to_uri reg) s \<noteq> Some uri" for s
    using assms(1) True by (auto simp: shorts_ok_def)
  moreover have "dget (reg_uri_to_short reg) u \<noteq> Some ?s" for u
    using assms(1) new by (auto simp: shorts_ok_def) (metis option.distinct(1))
  ultimately have inv: "dget (dput ?s uri (reg_short_to_uri reg)) s = Some u \<longleftrightarrow>
      dget (dput uri ?s (reg_uri_to_short reg)) u = Some s" for s u
    using assms(1) by (auto simp: shorts_ok_def)
  have "u \<noteq> [] \<and> (\<exists>n. 1 \<le> n \<and> n \<le> Suc (reg_short_seq reg) \<and> s = short_text n)"
    if "dget (dput ?s uri (reg_short_to_uri reg)) s = Some u" for s u
  proof (cases "s = ?s")
    case True
    with that assms(2) show ?thesis by (intro conjI exI [of _ "Suc (reg_short_seq reg)"]) auto
  next
    case False
    with that have "dget (reg_short_to_uri reg) s = Some u" by simp
    with assms(1) show ?thesis unfolding shorts_ok_def by (metis le_SucI)
  qed
  with inv assms(1) show ?thesis unfolding m by (simp add: shorts_ok_def)
qed

lemma mint_keeps_short: "dget (reg_short_to_uri reg) s = Some u \<Longrightarrow> shorts_ok reg \<Longrightarrow>
    dget (reg_short_to_uri (mint_short uri reg)) s = Some u"
  using mint_fresh [of reg] by (auto simp: mint_short_def next_short_def Let_def split: option.splits)

lemma mint_dict_fields [simp]:
  "reg_records (mint_short uri reg) = reg_records reg"
  "reg_uri_to_handle (mint_short uri reg) = reg_uri_to_handle reg"
  "reg_pending (mint_short uri reg) = reg_pending reg"
  "reg_seq (mint_short uri reg) = reg_seq reg"
  by (simp_all add: mint_short_def next_short_def Let_def split: option.splits)

lemma evict_same_fields:
  "reg_short_to_uri (evict_if_needed reg) = reg_short_to_uri reg \<and>
   reg_uri_to_short (evict_if_needed reg) = reg_uri_to_short reg \<and>
   reg_short_seq (evict_if_needed reg) = reg_short_seq reg \<and>
   reg_pending (evict_if_needed reg) = reg_pending reg \<and>
   reg_seq (evict_if_needed reg) = reg_seq reg"
proof (induction reg rule: evict_if_needed.induct)
  case (1 reg)
  show ?case
  proof (cases "reg_records reg")
    case Nil
    then show ?thesis by (subst (1 2 3 4 5) evict_if_needed.simps) simp
  next
    case (Cons hr rest)
    show ?thesis
      using 1 [OF Cons, of "fst hr" "snd hr"] Cons
      by (subst (1 2 3 4 5) evict_if_needed.simps) (auto simp: split_beta)
  qed
qed

lemmas evict_fields [simp] = evict_same_fields [THEN conjunct1]
  evict_same_fields [THEN conjunct2, THEN conjunct1]
  evict_same_fields [THEN conjunct2, THEN conjunct2, THEN conjunct1]
  evict_same_fields [THEN conjunct2, THEN conjunct2, THEN conjunct2, THEN conjunct1]
  evict_same_fields [THEN conjunct2, THEN conjunct2, THEN conjunct2, THEN conjunct2]

lemma ensure_fields [simp]:
  "reg_short_to_uri (snd (ensure_record h reg)) = reg_short_to_uri reg"
  "reg_uri_to_short (snd (ensure_record h reg)) = reg_uri_to_short reg"
  "reg_short_seq (snd (ensure_record h reg)) = reg_short_seq reg"
  "reg_pending (snd (ensure_record h reg)) = reg_pending reg"
  by (simp_all add: ensure_record_def Let_def split: option.splits)

text \<open>The fields of the short handles after a record: those of minting its uri.\<close>

definition shorts_of ::
  "registry \<Rightarrow> (string, string) dict \<times> (string, string) dict \<times> nat" where
  "shorts_of reg = (reg_short_to_uri reg, reg_uri_to_short reg, reg_short_seq reg)"

lemma shorts_ok_cong: "shorts_of r = shorts_of q \<Longrightarrow> shorts_ok r = shorts_ok q"
  by (simp add: shorts_of_def shorts_ok_def)

lemma mint_cong: "shorts_of r = shorts_of q \<Longrightarrow> shorts_of (mint_short u r) = shorts_of (mint_short u q)"
  by (auto simp: shorts_of_def mint_short_def next_short_def Let_def split: option.splits)

lemma record_shorts:
  "shorts_of (record_layer h uri t a reg) =
     (if h \<noteq> [] \<and> some_text uri then shorts_of (mint_short (the uri) reg) else shorts_of reg)"
proof -
  have e: "shorts_of (snd (ensure_record h reg)) = shorts_of reg" by (simp add: shorts_of_def)
  then have "shorts_of ((snd (ensure_record h reg))\<lparr>reg_uri_to_handle := d\<rparr>) = shorts_of reg" for d
    by (simp add: shorts_of_def)
  from mint_cong [OF this] show ?thesis
    using e by (auto simp: record_layer_def Let_def split_beta shorts_of_def)
qed

lemma note_shorts [simp]: "shorts_of (note_summary h d reg) = shorts_of reg"
  by (simp add: note_summary_def shorts_of_def split: option.splits)

section \<open>Walks\<close>

text \<open>
  A walk changes the registry only through \<open>record\<close> and the summaries: what both keep, it
  keeps.
\<close>

locale walk_kept =
  fixes P :: "registry \<Rightarrow> bool"
  assumes record_kept: "P reg \<Longrightarrow> P (record_layer h u t a reg)"
    and note_kept: "P reg \<Longrightarrow> P (note_summary h d reg)"
begin

lemma fold_kept: "(\<And>x r. P r \<Longrightarrow> P (f x r)) \<Longrightarrow> P r \<Longrightarrow> P (fold f xs r)"
  by (induction xs arbitrary: r) simp_all

lemma walk_kept: "P reg \<Longrightarrow> P (walk n t node reg)"
proof (induction n arbitrary: node reg)
  case (Suc n)
  have dict: "P (register_dict t d r)" if "P r" for d r
    using that by (auto simp: register_dict_def record_kept note_kept split: pyval.splits)
  have "P (register_bare_string t s r)" if "P r" for s r
    using that by (auto simp: register_bare_string_def Let_def record_kept)
  then show ?case
    using Suc dict by (cases node) (simp_all add: fold_kept split_beta)
qed simp

lemma result_kept: "P reg \<Longrightarrow> P (snd (register_tool_result t node reg))"
  by (simp add: register_tool_result_def Let_def walk_kept del: walk.simps)

lemma observe_kept: "P reg \<Longrightarrow> P (observe_published_layer h u reg)"
  by (simp add: observe_published_layer_def record_kept)

end

interpretation shorts_walk: walk_kept shorts_ok
proof unfold_locales
  fix reg :: registry and h d and u t :: "string option" and a
  assume ok: "shorts_ok reg"
  show "shorts_ok (record_layer h u t a reg)"
  proof (cases "h \<noteq> [] \<and> some_text u")
    case True
    then have "shorts_of (record_layer h u t a reg) = shorts_of (mint_short (the u) reg)"
      by (simp add: record_shorts)
    from shorts_ok_cong [OF this] mint_shorts_ok [OF ok, of "the u"] True show ?thesis
      by (cases u) simp_all
  next
    case False
    then have "shorts_of (record_layer h u t a reg) = shorts_of reg"
      by (rule trans [OF record_shorts if_not_P])
    from shorts_ok_cong [OF this] ok show ?thesis by simp
  qed
  show "shorts_ok (note_summary h d reg)"
    using ok shorts_ok_cong [OF note_shorts] by simp
qed

section \<open>Runs of a session\<close>

datatype registry_op =
    OpRecord string "string option" "string option" bool
  | OpResult string pyval
  | OpObserve string "string option"
  | OpPersisted
  | OpDrain
  | OpSwitch pyval

fun registry_step :: "registry_op \<Rightarrow> registry \<Rightarrow> registry" where
  "registry_step (OpRecord h u t a) reg = record_layer h u t a reg"
| "registry_step (OpResult t node) reg = snd (register_tool_result t node reg)"
| "registry_step (OpObserve h u) reg = observe_published_layer h u reg"
| "registry_step OpPersisted reg = mark_shorts_persisted reg"
| "registry_step OpDrain reg = snd (drain_announcements reg)"
| "registry_step (OpSwitch layers) reg = replace_from_layers layers [] reg"

lemma shorts_ok_new [simp]: "shorts_ok (new_registry sid)" "shorts_ok (clear_registry reg)"
  by (simp_all add: shorts_ok_def new_registry_def clear_registry_def)

lemma shorts_ok_flags [simp]:
  "shorts_ok (mark_shorts_persisted reg) = shorts_ok reg"
  "shorts_ok (snd (drain_announcements reg)) = shorts_ok reg"
  by (simp_all add: shorts_ok_def mark_shorts_persisted_def drain_announcements_def)

lemma registry_step_shorts: "shorts_ok reg \<Longrightarrow> shorts_ok (registry_step op reg)"
  by (cases op)
     (simp_all add: shorts_walk.record_kept shorts_walk.result_kept shorts_walk.observe_kept
        replace_from_layers_def import_short_handles_def shorts_walk.walk_kept del: walk.simps)

interpretation registry_runs:
  kept_invariant "\<lambda>reg. \<exists>sid. reg = new_registry sid" registry_step shorts_ok
  by unfold_locales (auto simp: registry_step_shorts)

interpretation short_stays: walk_kept "\<lambda>reg. shorts_ok reg \<and> dget (reg_short_to_uri reg) s = Some u" for s u
proof unfold_locales
  fix reg :: registry and h d and v t :: "string option" and a
  assume ok: "shorts_ok reg \<and> dget (reg_short_to_uri reg) s = Some u"
  have "dget (fst (shorts_of (record_layer h v t a reg))) s = Some u"
    using ok mint_keeps_short [of reg s u "the v"] by (simp only: record_shorts) (simp add: shorts_of_def)
  then show "shorts_ok (record_layer h v t a reg) \<and> dget (reg_short_to_uri (record_layer h v t a reg)) s = Some u"
    using ok by (simp add: shorts_walk.record_kept shorts_of_def)
  show "shorts_ok (note_summary h d reg) \<and> dget (reg_short_to_uri (note_summary h d reg)) s = Some u"
    using ok note_shorts [of h d reg] by (simp add: shorts_walk.note_kept shorts_of_def)
qed

lemma registry_step_short_stays:
  assumes "shorts_ok reg" "dget (reg_short_to_uri reg) s = Some u" "\<forall>layers. op \<noteq> OpSwitch layers"
  shows "dget (reg_short_to_uri (registry_step op reg)) s = Some u"
  using assms short_stays.record_kept [of reg s u] short_stays.result_kept [of reg s u]
    short_stays.observe_kept [of reg s u]
  by (cases op) (simp_all add: mark_shorts_persisted_def drain_announcements_def)

text \<open>
  C11: a short handle keeps its uri, and a uri its short handle, through every run of
  records, results and drains inside one case: an announced \<open>L<n>\<close> never comes to name
  another layer, evictions of its record included.
\<close>

theorem short_handles_persist:
  assumes "\<forall>layers. OpSwitch layers \<notin> set ops"
    and "reg = run_ops registry_step earlier (new_registry sid)"
    and "dget (reg_short_to_uri reg) s = Some u"
  shows "dget (reg_short_to_uri (run_ops registry_step ops reg)) s = Some u \<and>
         dget (reg_uri_to_short (run_ops registry_step ops reg)) u = Some s"
proof -
  have ok: "shorts_ok reg" unfolding assms(2) by (rule registry_runs.inv_reached) blast
  from ok assms(1,3)
  have "shorts_ok (run_ops registry_step ops reg) \<and>
      dget (reg_short_to_uri (run_ops registry_step ops reg)) s = Some u"
  proof (induction ops arbitrary: reg)
    case (Cons op ops)
    then have "\<forall>layers. op \<noteq> OpSwitch layers" "\<forall>layers. OpSwitch layers \<notin> set ops" by auto
    with Cons show ?case by (simp add: registry_step_shorts registry_step_short_stays)
  qed simp
  then show ?thesis using shorts_ok_inverse by blast
qed

theorem short_handles_persist_witness:
  "dget (reg_short_to_uri (run_ops registry_step [OpDrain, OpRecord ''b'' (Some ''s3://k/b.tif'') None True]
     (run_ops registry_step [OpRecord ''a'' (Some ''s3://k/a.tif'') None True] (new_registry ''s'')))) (short_text 1) =
   Some ''s3://k/a.tif''"
proof -
  have "dget (reg_short_to_uri (run_ops registry_step [OpRecord ''a'' (Some ''s3://k/a.tif'') None True]
      (new_registry ''s''))) (short_text 1) = Some ''s3://k/a.tif''"
    by (simp add: record_layer_def ensure_record_def new_registry_def evict_if_needed.simps
        records_per_session_cap_def mint_short_def next_short_def short_handles_cap_def dput_def Let_def)
  from short_handles_persist [OF _ refl this, of "[OpDrain, OpRecord ''b'' (Some ''s3://k/b.tif'') None True]"]
  show ?thesis by simp
qed

section \<open>Resolution\<close>

lemma py_strip_fixed: "list_all is_digit ds \<Longrightarrow> ds \<noteq> [] \<Longrightarrow> \<not> is_space c \<Longrightarrow> py_strip (c # ds) = c # ds"
proof -
  assume ds: "list_all is_digit ds" "ds \<noteq> []" "\<not> is_space c"
  have "\<not> is_space d" if "is_digit d" for d
    using that by (auto simp: is_digit_def is_space_def)
  with ds show ?thesis by (intro py_strip_id) (auto simp: list_all_iff)
qed

lemma digits_value_zeros: "digits_value (replicate k CHR ''0'' @ ds) = digits_value ds"
  by (induction k) (simp_all add: digits_value_zero)

lemma zero_is_digit [simp]: "is_digit CHR ''0''"
  by (simp add: is_digit_def char_code_def)

lemma short_number_padded:
  "c \<in> {CHR ''L'', CHR ''l''} \<Longrightarrow> short_number (c # replicate k CHR ''0'' @ show_nat n) = Some n"
  using show_nat_digits [of n]
  by (auto simp: short_number_def list_all_iff digits_value_zeros digits_value_show_nat)

text \<open>
  a uri's short handle, typed in either case and with any zeros before its number,
  resolves to that uri again, in every registry a session reaches, unless what was typed
  is itself the id of a layer or a registered uri.
\<close>

theorem short_handle_resolves:
  assumes "reg = run_ops registry_step ops (new_registry sid)"
    and "dget (reg_uri_to_short reg) uri = Some s"
  shows "\<exists>n. s = short_text n \<and>
           (\<forall>c k value param.
              c \<in> {CHR ''L'', CHR ''l''} \<and> py_strip value = c # replicate k CHR ''0'' @ show_nat n \<and>
              grafted_layer reg (py_strip value) = None \<and> \<not> dhas (reg_uri_to_handle reg) (py_strip value) \<longrightarrow>
              resolve_one reg param value = Inr uri)"
proof -
  have ok: "shorts_ok reg" unfolding assms(1) by (rule registry_runs.inv_reached) blast
  then have s: "dget (reg_short_to_uri reg) s = Some uri" using assms(2) shorts_ok_inverse by blast
  with ok obtain n where n: "s = short_text n" unfolding shorts_ok_def by blast
  show ?thesis
    by (rule exI [of _ n]) (use s n short_number_padded in \<open>auto simp: resolve_one_def Let_def\<close>)
qed

definition sample_run :: "registry_op list" where
  "sample_run = [OpResult ''fetch_dem'' (PDict [(''layer_id'', PStr ''dem''), (''uri'', PStr ''s3://k/a.tif'')])]"

lemma sample_run_reached:
  "run_ops registry_step sample_run (new_registry ''s'') =
     \<lparr>reg_session = ''s'',
      reg_records = [(''dem'', \<lparr>ur_handle = ''dem'', ur_uri = Some ''s3://k/a.tif'', ur_tool = Some ''fetch_dem'',
        ur_dataset = None, ur_cache_key = None, ur_seq = 1, ur_summary = []\<rparr>)],
      reg_uri_to_handle = [(''s3://k/a.tif'', ''dem'')], reg_seq = 1,
      reg_pending = [(''dem'', ''s3://k/a.tif'')],
      reg_short_to_uri = [(short_text 1, ''s3://k/a.tif'')],
      reg_uri_to_short = [(''s3://k/a.tif'', short_text 1)],
      reg_short_seq = 1, reg_shorts_dirty = True\<rparr>"
  by (simp add: sample_run_def new_registry_def register_tool_result_def walk_max_depth_def walk_max_items_def
      register_dict_def pget_def dget_or_def record_layer_def ensure_record_def fresh_record_def
      evict_if_needed.simps records_per_session_cap_def attach_uri_def parse_cache_path_def starts_with_def
      mint_short_def next_short_def short_handles_cap_def dput_def Let_def trim_pending_def announce_cap_def
      note_summary_def summary_of_def summary_fields_def List.map_filter_def dict_update_def
      numeral_eq_Suc register_bare_string_def py_strip_def is_space_def is_object_store_def char_code_def
      dhas_def)

theorem short_handle_resolves_witness:
  "resolve_one (run_ops registry_step sample_run (new_registry ''s'')) ''layer_uri''
     (CHR ''l'' # CHR ''0'' # show_nat 1) = Inr ''s3://k/a.tif''"
proof -
  let ?reg = "run_ops registry_step sample_run (new_registry ''s'')"
  have strip: "py_strip (CHR ''l'' # CHR ''0'' # show_nat 1) = CHR ''l'' # CHR ''0'' # show_nat 1"
    using show_nat_digits [of 1] by (intro py_strip_fixed) (simp_all add: list_all_iff is_space_def char_code_def)
  have "dget (reg_uri_to_short ?reg) ''s3://k/a.tif'' = Some (short_text 1)"
    by (simp add: sample_run_reached)
  from short_handle_resolves [OF refl this] obtain n where n: "short_text 1 = short_text n"
    and r: "\<And>c k value param. c \<in> {CHR ''L'', CHR ''l''} \<and> py_strip value = c # replicate k CHR ''0'' @ show_nat n \<and>
      grafted_layer ?reg (py_strip value) = None \<and> \<not> dhas (reg_uri_to_handle ?reg) (py_strip value) \<Longrightarrow>
      resolve_one ?reg param value = Inr ''s3://k/a.tif''" by blast
  have "grafted_layer ?reg (CHR ''l'' # CHR ''0'' # show_nat 1) = None"
    "\<not> dhas (reg_uri_to_handle ?reg) (CHR ''l'' # CHR ''0'' # show_nat 1)"
    by (simp_all add: sample_run_reached grafted_layer_def dhas_def)
  moreover have "n = 1" using n by (simp del: One_nat_def)
  ultimately show ?thesis
    using strip by (intro r [where c = "CHR ''l''" and k = 1]) simp_all
qed

definition registered_uri :: "registry \<Rightarrow> string \<Rightarrow> bool" where
  "registered_uri reg u \<longleftrightarrow> (\<exists>h rec. (h, rec) \<in> set (reg_records reg) \<and> ur_uri rec = Some u)"

lemma grafted_layer_registered: "grafted_layer reg v = Some u \<Longrightarrow> registered_uri reg u"
  by (auto simp: grafted_layer_def registered_uri_def dest!: dget_Some_in split: option.splits if_splits)

lemma known_uris_registered: "u \<in> set (known_uris reg) \<Longrightarrow> registered_uri reg u"
  unfolding registered_uri_def known_uris_def List.map_filter_def
  by (clarsimp split: if_splits) blast

lemma unique_best_in: "unique_best score xs = Some x \<Longrightarrow> x \<in> set xs"
proof -
  assume "unique_best score xs = Some x"
  then have "x \<in> set (sort_key (\<lambda>x. - int (score x)) xs)"
    unfolding unique_best_def by (auto split: list.splits if_splits simp del: set_sort)
  then show ?thesis by simp
qed

lemma fuzzy_match_registered:
  assumes "fuzzy_match reg v = Some u"
  shows "registered_uri reg u"
proof (cases "grafted_layer reg (stem_of v)")
  case None
  with assms have "u \<in> set (known_uris reg)"
    by (auto simp: fuzzy_match_def Let_def length_Suc_conv filter_eq_Cons_iff
        dest!: unique_best_in split: if_splits)
  then show ?thesis by (rule known_uris_registered)
next
  case (Some w)
  with assms have "w = u" by (auto simp: fuzzy_match_def Let_def split: if_splits)
  with Some grafted_layer_registered show ?thesis by simp
qed

lemma object_store_shape:
  assumes "is_object_store v"
  shows "is_uri_shaped v" "short_number v = None"
proof -
  obtain t where v: "v = ''s3://'' @ t" using assms by (auto simp: is_object_store_def starts_with_iff)
  show "is_uri_shaped v"
    by (simp add: v is_uri_shaped_def is_scheme_char_def is_letter_def is_upper_def is_lower_def
        is_digit_def char_code_def starts_with_def)
  show "short_number v = None" by (simp add: v short_number_def)
qed

text \<open>
  C12: a store uri is never passed on unless the session registered it: what a layer
  parameter that names an \<open>s3://\<close> uri resolves to is a registered uri, by its own name or
  as the uri of a record; otherwise the call is refused with the parameter and value given.
\<close>

theorem store_uris_resolve_to_registered:
  assumes "is_object_store (py_strip value)"
  shows "case resolve_one reg param value of
           Inr u \<Rightarrow> (u = py_strip value \<and> dhas (reg_uri_to_handle reg) u) \<or>
                    registered_uri reg u
         | Inl e \<Rightarrow> ue_param e = param \<and> ue_value e = value \<and> ue_inventory e = inventory_text reg"
proof -
  have none: "resolve_placeholder reg (py_strip value) = None"
    using object_store_shape(1) [OF assms] by (simp add: resolve_placeholder_def)
  show ?thesis
  proof (cases "grafted_layer reg (py_strip value)")
    case (Some u)
    then have "resolve_one reg param value = Inr u" by (simp add: resolve_one_def)
    then show ?thesis using grafted_layer_registered [OF Some] by simp
  next
    case None
    then have "resolve_one reg param value =
        (if dhas (reg_uri_to_handle reg) (py_strip value) then Inr (py_strip value)
         else case fuzzy_match reg (py_strip value) of
                Some uri \<Rightarrow> Inr uri
              | None \<Rightarrow> Inl \<lparr>ue_param = param, ue_value = value, ue_inventory = inventory_text reg\<rparr>)"
      using assms none object_store_shape(2) [OF assms] by (simp add: resolve_one_def Let_def)
    then show ?thesis
      using fuzzy_match_registered [of reg "py_strip value"] by (simp split: option.splits)
  qed
qed

theorem store_uris_resolve_to_registered_witness:
  "case resolve_one (new_registry ''s'') ''layer_uri'' ''s3://k/a.tif'' of
     Inr u \<Rightarrow> False | Inl e \<Rightarrow> ue_value e = ''s3://k/a.tif''"
proof -
  have "py_strip ''s3://k/a.tif'' = ''s3://k/a.tif''" by (intro py_strip_id) (simp_all add: is_space_def char_code_def)
  moreover have "is_object_store ''s3://k/a.tif''" by (simp add: is_object_store_def starts_with_def)
  ultimately show ?thesis
    using store_uris_resolve_to_registered [of "''s3://k/a.tif''" "''layer_uri''" "new_registry ''s''"]
    by (auto simp: new_registry_def dhas_def registered_uri_def split: sum.splits)
qed

text \<open>What a parameter's value becomes, where it changes.\<close>

definition resolved_value :: "registry \<Rightarrow> string \<Rightarrow> pyval \<Rightarrow> pyval option" where
  "resolved_value reg k v =
     (case v of
        PStr t \<Rightarrow> if k \<in> set resolvable_uri_params
                   then (case resolve_one reg k t of
                           Inr u \<Rightarrow> if u = t then None else Some (PStr u) | Inl e \<Rightarrow> None)
                   else None
      | _ \<Rightarrow> None)"

lemma resolve_fields_spec:
  "resolve_fields reg ps out = Inr out' \<Longrightarrow> dict_ok ps \<Longrightarrow> set (dkeys ps) \<subseteq> set (dkeys out) \<Longrightarrow>
     dkeys out' = dkeys out \<and>
     (\<forall>k. dget out' k =
        (case Option.bind (dget ps k) (resolved_value reg k) of None \<Rightarrow> dget out k | Some w \<Rightarrow> Some w)) \<and>
     (\<forall>k v. dget ps k = Some (PStr v) \<and> k \<in> set resolvable_uri_params \<longrightarrow> (\<exists>u. resolve_one reg k v = Inr u))"
proof (induction ps arbitrary: out)
  case (Cons p ps)
  obtain k x where p: "p = (k, x)" by (cases p)
  have fresh: "dget ps k = None" using Cons.prems(2) by (simp add: p dget_None_iff)
  have ok: "dict_ok ps" using Cons.prems(2) by simp
  have keys: "k \<in> set (dkeys out)" "set (dkeys ps) \<subseteq> set (dkeys out)"
    using Cons.prems(3) by (simp_all add: p dkeys_def)
  consider (changed) v u where "x = PStr v" "k \<in> set resolvable_uri_params" "resolve_one reg k v = Inr u" "u \<noteq> v"
      "resolve_fields reg ps (dput k (PStr u) out) = Inr out'"
    | (kept) "resolve_fields reg ps out = Inr out'" "resolved_value reg k x = None"
      "\<And>v. x = PStr v \<Longrightarrow> k \<in> set resolvable_uri_params \<Longrightarrow> resolve_one reg k v = Inr v"
    using Cons.prems(1)
    by (cases x) (auto simp: p List.member_iff resolved_value_def split: if_splits sum.splits)
  then show ?case
  proof cases
    case changed
    have same: "dkeys (dput k (PStr u) out) = dkeys out"
      using keys(1) pydict.keys_get [of k out] by (simp add: dput_keys)
    have "resolved_value reg k x = Some (PStr u)" using changed by (simp add: resolved_value_def)
    with Cons.IH [OF changed(5) ok] keys(2) same changed(1,3) fresh show ?thesis
      by (auto simp: p split: option.split)
  next
    case kept
    from Cons.IH [OF kept(1) ok keys(2)] kept(2,3) fresh show ?thesis
      by (auto simp: p)
  qed
qed simp

text \<open>
  \<open>resolve_params\<close> keeps the params and their order, changes only the uri parameters
  with a string value, each to what it resolves to, and refuses only where one of them is
  refused.
\<close>

theorem resolve_params_scope:
  assumes "dict_ok params" "resolve_params reg params = Inr out"
  shows "dkeys out = dkeys params \<and>
         (\<forall>k v. dget params k = Some v \<longrightarrow>
            dget out k = (case resolved_value reg k v of None \<Rightarrow> Some v | Some w \<Rightarrow> Some w)) \<and>
         (\<forall>k t. dget params k = Some (PStr t) \<and> k \<in> set resolvable_uri_params \<longrightarrow>
            (\<exists>u. resolve_one reg k t = Inr u))"
  using resolve_fields_spec [OF assms(2) [unfolded resolve_params_def] assms(1) subset_refl]
  by (simp split: option.split)

theorem resolve_params_scope_witness:
  "resolve_params (run_ops registry_step sample_run (new_registry ''s''))
     [(''layer_uri'', PStr ''dem''), (''out'', PStr ''dem'')] =
   Inr [(''layer_uri'', PStr ''s3://k/a.tif''), (''out'', PStr ''dem'')] \<and>
   dget [(''layer_uri'', PStr ''s3://k/a.tif''), (''out'', PStr ''dem'')] ''out'' = Some (PStr ''dem'')"
proof -
  have "py_strip ''dem'' = ''dem''" by (intro py_strip_id) (simp_all add: is_space_def char_code_def)
  then have r: "resolve_params (run_ops registry_step sample_run (new_registry ''s''))
     [(''layer_uri'', PStr ''dem''), (''out'', PStr ''dem'')] =
   Inr [(''layer_uri'', PStr ''s3://k/a.tif''), (''out'', PStr ''dem'')]"
    by (simp add: resolve_params_def resolve_one_def grafted_layer_def sample_run_reached
        resolvable_uri_params_def List.member_iff dput_def)
  from resolve_params_scope [OF _ r] r show ?thesis by (simp add: resolved_value_def resolvable_uri_params_def)
qed

text \<open>
  a short handle that no layer has is refused, although it is no store uri and names
  no path.
\<close>

theorem unknown_short_is_refused:
  assumes "short_number (py_strip value) = Some n" "dget (reg_short_to_uri reg) (short_text n) = None"
    and "grafted_layer reg (py_strip value) = None" "\<not> dhas (reg_uri_to_handle reg) (py_strip value)"
  shows "\<not> is_object_store (py_strip value) \<and>
         resolve_one reg param value =
           Inl \<lparr>ue_param = param, ue_value = value, ue_inventory = inventory_text reg\<rparr>"
proof -
  have "\<not> is_object_store (py_strip value)" using assms(1) object_store_shape(2) by fastforce
  with assms show ?thesis by (simp add: resolve_one_def Let_def)
qed

theorem unknown_short_is_refused_witness:
  "\<exists>e. resolve_one (new_registry ''s'') ''layer_uri'' (short_text 7) = Inl e"
proof -
  have "py_strip (short_text 7) = short_text 7"
    using show_nat_digits [of 7] unfolding short_text_def
    by (intro py_strip_fixed) (simp_all add: list_all_iff is_space_def char_code_def)
  moreover have "short_number (short_text 7) = Some 7"
    using short_number_padded [of "CHR ''L''" 0 7] by (simp add: short_text_def)
  ultimately show ?thesis
    using unknown_short_is_refused [of "short_text 7" 7 "new_registry ''s''" "''layer_uri''"]
    by (simp add: new_registry_def grafted_layer_def dhas_def)
qed

lemma show_nat_head: "0 < n \<Longrightarrow> hd (show_nat n) \<noteq> CHR ''0''"
proof (induction n rule: show_nat.induct)
  case (1 n)
  show ?case
  proof (cases "n < 10")
    case True
    then have "char_code (digit_char n) = 48 + n" by (simp add: char_code_char_of)
    moreover have "char_code CHR ''0'' = 48" by (simp add: char_code_def)
    ultimately have "digit_char n \<noteq> CHR ''0''" using 1(2) by auto
    with True show ?thesis by (subst show_nat.simps) (simp del: digit_char.simps)
  next
    case False
    with 1 show ?thesis by (subst show_nat.simps) (simp del: digit_char.simps)
  qed
qed

text \<open>
  \<open>lookup_uri_for_handle\<close>, unlike resolution, does not normalize leading zeros: for
  every short handle a session minted, the padded spelling finds no layer.
\<close>

theorem padded_handle_lookup_misses:
  assumes "reg = run_ops registry_step ops (new_registry sid)"
    and "dget (reg_short_to_uri reg) (short_text n) = Some uri"
    and "dget (reg_records reg) (CHR ''L'' # CHR ''0'' # show_nat n) = None"
    and "\<not> dhas (reg_uri_to_handle reg) (CHR ''L'' # CHR ''0'' # show_nat n)"
    and "\<not> dhas (reg_uri_to_short reg) (CHR ''L'' # CHR ''0'' # show_nat n)"
  shows "lookup_uri_for_handle (Some reg) (CHR ''L'' # CHR ''0'' # show_nat n) = None \<and>
         resolve_one reg param (CHR ''L'' # CHR ''0'' # show_nat n) = Inr uri"
proof -
  let ?typed = "CHR ''L'' # CHR ''0'' # show_nat n"
  have ok: "shorts_ok reg" unfolding assms(1) by (rule registry_runs.inv_reached) blast
  have digits: "list_all is_digit (CHR ''0'' # show_nat n)"
    using show_nat_digits [of n] by (simp add: list_all_iff)
  then have strip: "py_strip ?typed = ?typed"
    by (intro py_strip_fixed) (simp_all add: is_space_def char_code_def)
  have "upper_char c = c" if "is_digit c" for c
    using that by (auto simp: is_digit_def upper_char_def)
  then have upper: "py_upper ?typed = ?typed"
    using digits by (simp add: py_upper_def list_all_iff map_idI upper_char_def char_code_def)
  have "dget (reg_short_to_uri reg) ?typed = None"
  proof (rule ccontr)
    assume "dget (reg_short_to_uri reg) ?typed \<noteq> None"
    with ok obtain m where m: "1 \<le> m" "?typed = short_text m" unfolding shorts_ok_def by blast
    then have "hd (show_nat m) = CHR ''0''" by (metis list.sel(1) short_text_def list.inject)
    with m(1) show_nat_head [of m] show False by simp
  qed
  then have "lookup_uri_for_handle (Some reg) ?typed = None"
    using assms(3-5) by (simp add: lookup_uri_for_handle_def strip upper)
  moreover have "grafted_layer reg ?typed = None" using assms(3) by (simp add: grafted_layer_def)
  then have "resolve_one reg param ?typed = Inr uri"
    using assms(2,4) short_number_padded [of "CHR ''L''" 1 n] strip by (simp add: resolve_one_def)
  ultimately show ?thesis by simp
qed

theorem padded_handle_lookup_misses_witness:
  "lookup_uri_for_handle (Some (run_ops registry_step sample_run (new_registry ''s'')))
     (CHR ''L'' # CHR ''0'' # show_nat 1) = None"
proof -
  let ?reg = "run_ops registry_step sample_run (new_registry ''s'')"
  have "dget (reg_short_to_uri ?reg) (short_text 1) = Some ''s3://k/a.tif''"
    "dget (reg_records ?reg) (CHR ''L'' # CHR ''0'' # show_nat 1) = None"
    "\<not> dhas (reg_uri_to_handle ?reg) (CHR ''L'' # CHR ''0'' # show_nat 1)"
    "\<not> dhas (reg_uri_to_short ?reg) (CHR ''L'' # CHR ''0'' # show_nat 1)"
    by (simp_all add: sample_run_reached dhas_def)
  from padded_handle_lookup_misses [OF refl this] show ?thesis by simp
qed

lemma sort_key_replicate: "sort_key f (replicate k x) = replicate k x"
  by (rule sort_key_id_if_sorted) (simp add: map_replicate)

text \<open>
  one uri that several records carry, because its layer was published again under
  another id, counts as several candidates: a uri with a wrong path and the right basename
  is matched when one record carries it and refused as ambiguous when two do.
\<close>

theorem republished_layer_is_ambiguous:
  assumes "known_uris reg = replicate (Suc k) u" "basename_of u = basename_of v"
    and "grafted_layer reg (stem_of v) = None"
  shows "fuzzy_match reg v = (if k = 0 then Some u else None)"
proof -
  have "filter (\<lambda>w. basename_of w = basename_of v) (known_uris reg) = replicate (Suc k) u"
    using assms(1,2) by simp
  then show ?thesis
    using assms by (cases k) (simp_all add: fuzzy_match_def Let_def unique_best_def sort_key_replicate
        del: replicate.simps(2), simp_all)
qed

definition republished_run :: "registry_op list" where
  "republished_run = sample_run @ [OpRecord ''dem-2'' (Some ''s3://k/a.tif'') None True]"

lemma republished_reached:
  "reg_records (run_ops registry_step republished_run (new_registry ''s'')) =
     [(''dem'', \<lparr>ur_handle = ''dem'', ur_uri = Some ''s3://k/a.tif'', ur_tool = Some ''fetch_dem'',
        ur_dataset = None, ur_cache_key = None, ur_seq = 1, ur_summary = []\<rparr>),
      (''dem-2'', \<lparr>ur_handle = ''dem-2'', ur_uri = Some ''s3://k/a.tif'', ur_tool = None,
        ur_dataset = None, ur_cache_key = None, ur_seq = 2, ur_summary = []\<rparr>)]"
  by (simp add: republished_run_def run_ops_append sample_run_reached record_layer_def ensure_record_def
      fresh_record_def evict_if_needed.simps records_per_session_cap_def attach_uri_def parse_cache_path_def
      starts_with_def dget_or_def dput_def Let_def)

theorem republished_layer_is_ambiguous_witness:
  "fuzzy_match (run_ops registry_step sample_run (new_registry ''s'')) ''s3://k/wrong/a.tif'' = Some ''s3://k/a.tif'' \<and>
   fuzzy_match (run_ops registry_step republished_run (new_registry ''s'')) ''s3://k/wrong/a.tif'' = None"
proof -
  let ?one = "run_ops registry_step sample_run (new_registry ''s'')"
  let ?two = "run_ops registry_step republished_run (new_registry ''s'')"
  have known: "known_uris ?one = replicate (Suc 0) ''s3://k/a.tif''"
    "known_uris ?two = replicate (Suc 1) ''s3://k/a.tif''"
    by (simp_all add: known_uris_def sample_run_reached republished_reached List.map_filter_def
        is_object_store_def starts_with_def)
  have base: "basename_of ''s3://k/a.tif'' = basename_of ''s3://k/wrong/a.tif''"
    "stem_of ''s3://k/wrong/a.tif'' = ''a''"
    by (simp_all add: stem_of_def basename_of_def url_path_def starts_with_def after_last_def before_last_def)
  have graft: "grafted_layer ?one (stem_of ''s3://k/wrong/a.tif'') = None"
    "grafted_layer ?two (stem_of ''s3://k/wrong/a.tif'') = None"
    by (simp_all add: base grafted_layer_def sample_run_reached republished_reached)
  show ?thesis
    using republished_layer_is_ambiguous [OF known(1) base(1) graft(1)]
      republished_layer_is_ambiguous [OF known(2) base(1) graft(2)] by simp
qed

section \<open>Bounds\<close>

definition registry_bounded :: "registry \<Rightarrow> bool" where
  "registry_bounded reg \<longleftrightarrow>
     length (reg_records reg) \<le> records_per_session_cap \<and> length (reg_pending reg) \<le> announce_cap"

lemma length_evicted: "length (reg_records (evict_if_needed reg)) \<le> records_per_session_cap"
proof (induction reg rule: evict_if_needed.induct)
  case (1 reg)
  show ?case
  proof (cases "reg_records reg")
    case Nil
    then show ?thesis by (subst evict_if_needed.simps) simp
  next
    case (Cons hr rest)
    show ?thesis
      using 1 [OF Cons, of "fst hr" "snd hr"] Cons by (subst evict_if_needed.simps) (auto simp: split_beta)
  qed
qed

text \<open>Evicting keeps a record that is the last one.\<close>

lemma evict_keeps_last:
  "reg_records reg = rs @ [(h, r)] \<Longrightarrow> \<exists>qs. reg_records (evict_if_needed reg) = qs @ [(h, r)]"
proof (induction reg arbitrary: rs rule: evict_if_needed.induct)
  case (1 reg)
  show ?case
  proof (cases rs)
    case Nil
    with 1(2) show ?thesis
      by (subst evict_if_needed.simps) (simp add: records_per_session_cap_def)
  next
    case (Cons hr rest)
    show ?thesis
    proof (cases "length (reg_records reg) \<le> records_per_session_cap")
      case True
      with 1(2) Cons show ?thesis by (subst evict_if_needed.simps) (simp add: split_beta)
    next
      case False
      have "reg_records reg = hr # (rest @ [(h, r)])" using 1(2) Cons by simp
      from 1(1) [OF this, of "fst hr" "snd hr" rest] False this show ?thesis
        by (subst evict_if_needed.simps) (auto simp: split_beta)
    qed
  qed
qed

lemma ensured_present: "dhas (reg_records (snd (ensure_record h reg))) h"
proof (cases "dget (reg_records reg) h")
  case None
  define rec where "rec = fresh_record h (Suc (reg_seq reg))"
  define r0 where "r0 = reg\<lparr>reg_seq := Suc (reg_seq reg), reg_records := dput h rec (reg_records reg)\<rparr>"
  have "dput h rec (reg_records reg) = reg_records reg @ [(h, rec)]"
    using None by (rule dput_new)
  then have "reg_records r0 = reg_records reg @ [(h, rec)]" by (simp add: r0_def)
  from evict_keeps_last [OF this] obtain qs where q: "reg_records (evict_if_needed r0) = qs @ [(h, rec)]" by blast
  have "h \<in> fst ` set (reg_records (evict_if_needed r0))" by (simp add: q)
  then have "dhas (reg_records (evict_if_needed r0)) h"
    unfolding dhas_def using dget_None_iff by metis
  with None show ?thesis by (simp add: ensure_record_def Let_def r0_def rec_def)
qed (simp add: ensure_record_def dhas_def)

lemma record_layer_bounded:
  assumes "registry_bounded reg"
  shows "registry_bounded (record_layer h u t a reg)"
proof (cases "h = []")
  case False
  obtain rec reg1 where e: "ensure_record h reg = (rec, reg1)" by fastforce
  have len: "length (reg_records reg1) \<le> records_per_session_cap"
    using assms e length_evicted
    by (auto simp: ensure_record_def registry_bounded_def Let_def split: option.splits)
  have has: "dhas (reg_records reg1) h" using ensured_present [of h reg] by (simp add: e)
  have pend: "length (reg_pending reg1) \<le> announce_cap"
    using assms ensure_fields(4) [of h reg] by (simp add: e registry_bounded_def)
  have trim: "length (trim_pending d) \<le> announce_cap" for d by (simp add: trim_pending_def)
  show ?thesis
    using False len has pend trim
    by (simp add: record_layer_def e Let_def registry_bounded_def length_dput split_beta)
qed (use assms in \<open>simp add: record_layer_def\<close>)

interpretation bounded_walk: walk_kept registry_bounded
proof unfold_locales
  fix reg :: registry and h d and u t :: "string option" and a
  assume b: "registry_bounded reg"
  then show "registry_bounded (record_layer h u t a reg)" by (rule record_layer_bounded)
  show "registry_bounded (note_summary h d reg)"
    using b by (auto simp: note_summary_def registry_bounded_def length_dput dhas_def split: option.splits)
qed

lemma registry_step_bounded: "registry_bounded reg \<Longrightarrow> registry_bounded (registry_step op reg)"
proof (cases op)
  case (OpSwitch layers)
  have "registry_bounded (clear_registry reg)" by (simp add: registry_bounded_def clear_registry_def)
  then show ?thesis
    using OpSwitch
    by (simp add: replace_from_layers_def import_short_handles_def bounded_walk.walk_kept del: walk.simps)
qed (simp_all add: bounded_walk.record_kept bounded_walk.result_kept bounded_walk.observe_kept,
     simp_all add: registry_bounded_def mark_shorts_persisted_def drain_announcements_def)

interpretation bounded_runs:
  kept_invariant "\<lambda>reg. \<exists>sid. reg = new_registry sid" registry_step registry_bounded
proof unfold_locales
  fix reg assume "\<exists>sid. reg = new_registry sid"
  then show "registry_bounded reg" by (auto simp: registry_bounded_def new_registry_def)
qed (rule registry_step_bounded)

lemma evict_sessions_less: "length (evict_sessions regs) < sessions_held"
proof (induction regs rule: evict_sessions.induct)
  case (1 regs)
  then show ?case
    by (subst evict_sessions.simps) (auto simp: sessions_held_def split: list.splits)
qed

text \<open>
  whatever a session records, it holds at most 1024 records and 8 pending
  announcements; and the process holds at most 4096 registries, the one asked for among
  them.
\<close>

theorem sessions_bounded:
  "registry_bounded (run_ops registry_step ops (new_registry sid)) \<and>
   (length regs \<le> sessions_held \<longrightarrow>
      length (snd (get_uri_registry sid regs)) \<le> sessions_held \<and>
      dget (snd (get_uri_registry sid regs)) sid = Some (fst (get_uri_registry sid regs)))"
proof -
  have "registry_bounded (run_ops registry_step ops (new_registry sid))"
    by (rule bounded_runs.inv_reached) blast
  moreover have "length (dput sid r (evict_sessions regs)) \<le> sessions_held" for r
    using evict_sessions_less [of regs] by (simp add: length_dput)
  ultimately show ?thesis by (auto simp: get_uri_registry_def split: option.splits)
qed

theorem sessions_bounded_witness:
  "dget (snd (get_uri_registry ''s'' [])) ''s'' = Some (fst (get_uri_registry ''s'' []))"
  using sessions_bounded [of "[]" "''s''" "[]"] by simp

section \<open>The persisted short handles\<close>

definition persisted :: "(string, string) dict \<Rightarrow> (pyval \<times> pyval) list" where
  "persisted d = map (\<lambda>(s, u). (PStr s, PStr u)) d"

lemma strip_short: "py_strip (short_text n) = short_text n"
  using show_nat_digits [of n] unfolding short_text_def
  by (intro py_strip_fixed) (simp_all add: list_all_iff is_space_def char_code_def)

lemma short_number_text: "short_number (short_text n) = Some n"
  using short_number_padded [of "CHR ''L''" 0 n] by (simp add: short_text_def)

lemma import_short_new:
  assumes "dget (reg_short_to_uri reg) (short_text n) = None" "dget (reg_uri_to_short reg) u = None"
    and "u \<noteq> []" "py_strip u = u"
  shows "import_short (PStr (short_text n), PStr u) reg =
           reg\<lparr>reg_short_to_uri := reg_short_to_uri reg @ [(short_text n, u)],
               reg_uri_to_short := reg_uri_to_short reg @ [(u, short_text n)],
               reg_short_seq := max (reg_short_seq reg) n\<rparr>"
  using assms by (simp add: strip_short short_number_text dput_new dhas_def Let_def)

lemma dget_append_None: "dget (d @ e) k = None \<longleftrightarrow> dget d k = None \<and> dget e k = None"
  by (auto simp: dget_None_iff)

lemma import_persisted:
  assumes "distinct (map fst d)" "distinct (map snd d)"
    and "\<forall>(s, u) \<in> set d. u \<noteq> [] \<and> py_strip u = u \<and> (\<exists>n \<le> hi. s = short_text n)"
    and "\<forall>(s, u) \<in> set d. dget (reg_short_to_uri reg) s = None \<and> dget (reg_uri_to_short reg) u = None"
    and "reg_short_seq reg \<le> hi"
  shows "reg_short_to_uri (import_short_handles (persisted d) reg) = reg_short_to_uri reg @ d \<and>
         reg_uri_to_short (import_short_handles (persisted d) reg) =
           reg_uri_to_short reg @ map (\<lambda>(s, u). (u, s)) d \<and>
         reg_short_seq (import_short_handles (persisted d) reg) \<le> hi \<and>
         (\<forall>n. short_text n \<in> fst ` set d \<longrightarrow> n \<le> reg_short_seq (import_short_handles (persisted d) reg)) \<and>
         reg_short_seq reg \<le> reg_short_seq (import_short_handles (persisted d) reg)"
  using assms
proof (induction d arbitrary: reg)
  case (Cons su d)
  obtain s u where su: "su = (s, u)" by (cases su)
  with Cons.prems(3) obtain n where n: "s = short_text n" "n \<le> hi" "u \<noteq> []" "py_strip u = u" by auto
  define r1 where "r1 = reg\<lparr>reg_short_to_uri := reg_short_to_uri reg @ [(s, u)],
      reg_uri_to_short := reg_uri_to_short reg @ [(u, s)], reg_short_seq := max (reg_short_seq reg) n\<rparr>"
  have step: "import_short_handles (persisted (su # d)) reg = import_short_handles (persisted d) r1"
    using import_short_new [of reg n u] Cons.prems(4) n
    by (simp add: import_short_handles_def persisted_def su r1_def)
  have "\<forall>(s, u) \<in> set d. dget (reg_short_to_uri r1) s = None \<and> dget (reg_uri_to_short r1) u = None"
    using Cons.prems(1,2,4) by (force simp: r1_def dget_append_None su)
  moreover have "reg_short_seq r1 \<le> hi" using Cons.prems(5) n(2) by (simp add: r1_def)
  ultimately have ih: "reg_short_to_uri (import_short_handles (persisted d) r1) = reg_short_to_uri r1 @ d \<and>
         reg_uri_to_short (import_short_handles (persisted d) r1) =
           reg_uri_to_short r1 @ map (\<lambda>(s, u). (u, s)) d \<and>
         reg_short_seq (import_short_handles (persisted d) r1) \<le> hi \<and>
         (\<forall>n. short_text n \<in> fst ` set d \<longrightarrow> n \<le> reg_short_seq (import_short_handles (persisted d) r1)) \<and>
         reg_short_seq r1 \<le> reg_short_seq (import_short_handles (persisted d) r1)"
    using Cons.prems(1,2,3) by (intro Cons.IH) auto
  then show ?case
    unfolding step by (auto simp: r1_def su n(1))
qed (simp add: import_short_handles_def persisted_def)

text \<open>
  C13: importing what a session exported restores, in a fresh registry, every short handle
  with its uri, and the next number minted there is one no imported handle has.
\<close>

theorem short_handles_export_import:
  assumes "reg = run_ops registry_step ops (new_registry sid)"
    and "\<forall>(s, u) \<in> set (reg_short_to_uri reg). py_strip u = u"
    and "restored = import_short_handles (persisted (export_short_handles reg)) (new_registry sid')"
  shows "reg_short_to_uri restored = reg_short_to_uri reg \<and>
         (\<forall>u. dget (reg_uri_to_short restored) u = dget (reg_uri_to_short reg) u) \<and>
         \<not> dhas (reg_short_to_uri restored) (short_text (fst (next_short restored)))"
proof -
  let ?d = "reg_short_to_uri reg"
  have ok: "shorts_ok reg" unfolding assms(1) by (rule registry_runs.inv_reached) blast
  then have dist: "distinct (map fst ?d)" by (simp add: shorts_ok_def dict_ok_def)
  have get: "(s, u) \<in> set ?d \<longleftrightarrow> dget (reg_uri_to_short reg) u = Some s" for s u
    using ok dget_in [of ?d s u] dget_Some_in [of ?d s u] shorts_ok_inverse [OF ok, of s u]
    by (auto simp: shorts_ok_def)
  have "inj_on snd (set ?d)" by (rule inj_onI) (auto simp: get)
  then have dist': "distinct (map snd ?d)"
    using dist by (simp add: distinct_map)
  have form: "\<forall>(s, u) \<in> set ?d. u \<noteq> [] \<and> py_strip u = u \<and> (\<exists>n \<le> reg_short_seq reg. s = short_text n)"
    using ok assms(2) get shorts_ok_inverse [OF ok] unfolding shorts_ok_def by blast
  have restored: "reg_short_to_uri restored = ?d" "reg_uri_to_short restored = map (\<lambda>(s, u). (u, s)) ?d"
    "\<forall>n. short_text n \<in> fst ` set ?d \<longrightarrow> n \<le> reg_short_seq restored"
    using import_persisted [OF dist dist' form, of "new_registry sid'"]
    by (simp_all add: assms(3) export_short_handles_def new_registry_def)
  have "dict_ok (map (\<lambda>(s, u). (u, s)) ?d)"
    using dist' by (simp add: dict_ok_def split_beta o_def)
  then have "dget (map (\<lambda>(s, u). (u, s)) ?d) u = Some s \<longleftrightarrow> (s, u) \<in> set ?d" for s u
    using dget_in [of "map (\<lambda>(s, u). (u, s)) ?d" u s] dget_Some_in [of "map (\<lambda>(s, u). (u, s)) ?d" u s] by force
  then have "dget (reg_uri_to_short restored) u = Some s \<longleftrightarrow> dget (reg_uri_to_short reg) u = Some s" for u s
    by (simp add: restored(2) get)
  then have "dget (reg_uri_to_short restored) u = dget (reg_uri_to_short reg) u" for u
    by (metis option.exhaust)
  moreover have "dget ?d (short_text (Suc (reg_short_seq restored))) = None"
    using restored(3) by (auto simp: dget_None_iff)
  ultimately show ?thesis by (simp add: restored(1) dhas_def next_short_def)
qed

theorem short_handles_export_import_witness:
  "reg_short_to_uri (import_short_handles
     (persisted (export_short_handles (run_ops registry_step sample_run (new_registry ''s''))))
     (new_registry ''t'')) = [(short_text 1, ''s3://k/a.tif'')]"
proof -
  have "py_strip ''s3://k/a.tif'' = ''s3://k/a.tif''" by (intro py_strip_id) (simp_all add: is_space_def char_code_def)
  then have "\<forall>(s, u) \<in> set (reg_short_to_uri (run_ops registry_step sample_run (new_registry ''s''))). py_strip u = u"
    by (simp add: sample_run_reached)
  from short_handles_export_import [OF refl this refl] show ?thesis by (simp add: sample_run_reached)
qed

end
