(* ===== verification/PyNumbers.thy ===== *)
theory PyNumbers
  imports PyValues
begin

text \<open>
  \<open>int\<close> and \<open>float\<close> of a text, as Python reads them.
\<close>

text \<open>\<open>int\<close> refuses more than 4300 digits.\<close>

definition int_of_digits :: "string \<Rightarrow> int option" where
  "int_of_digits ds = (if 4300 < length ds then None else Some (int (digits_value ds)))"

text \<open>\<open>float(text)\<close>: the exact decimal value, infinite where a double overflows.\<close>

definition digit_part :: "string \<Rightarrow> string option" where
  "digit_part s =
     (let ps = split_on CHR ''_'' s in
      if list_all (\<lambda>p. p \<noteq> [] \<and> list_all is_digit p) ps then Some (concat ps) else None)"

definition opt_digits :: "string \<Rightarrow> string option" where
  "opt_digits s = (if s = [] then Some [] else digit_part s)"

definition split_sign :: "string \<Rightarrow> bool \<times> string" where
  "split_sign s =
     (case s of
        [] \<Rightarrow> (False, [])
      | c # cs \<Rightarrow> if c = CHR ''-'' then (True, cs) else if c = CHR ''+'' then (False, cs) else (False, s))"

definition signed_digits :: "string \<Rightarrow> int option" where
  "signed_digits s =
     (let (neg, t) = split_sign s in
      map_option (\<lambda>ds. if neg then - int (digits_value ds) else int (digits_value ds)) (digit_part t))"

definition ten_to :: "int \<Rightarrow> rat" where
  "ten_to k = (if 0 \<le> k then 10 ^ nat k else 1 / 10 ^ nat (- k))"

definition mantissa_value :: "string \<Rightarrow> rat option" where
  "mantissa_value s =
     (let (whole, frac) = (case split_on CHR ''.'' s of
            [w] \<Rightarrow> (opt_digits w, Some []) | [w, f] \<Rightarrow> (opt_digits w, opt_digits f) | _ \<Rightarrow> (None, None))
      in case (whole, frac) of
           (Some w, Some f) \<Rightarrow>
             if w @ f = [] then None
             else Some (of_nat (digits_value (w @ f)) * ten_to (- int (length f)))
         | _ \<Rightarrow> None)"

definition double_of :: "rat \<Rightarrow> pyfloat" where
  "double_of q =
     (if 2 ^ 1024 - 2 ^ 970 \<le> q then PosInf else if q \<le> - (2 ^ 1024 - 2 ^ 970) then NegInf else Fin q)"

definition float_of_text :: "string \<Rightarrow> pyfloat option" where
  "float_of_text text =
     (let (neg, body) = split_sign (py_lower (py_strip text));
          parts = split_on CHR ''e'' body
      in if body = ''nan'' then Some NaN
         else if body = ''inf'' \<or> body = ''infinity'' then Some (if neg then NegInf else PosInf)
         else (let value = (case parts of
                   [m] \<Rightarrow> mantissa_value m
                 | [m, e] \<Rightarrow> (case (mantissa_value m, signed_digits e) of
                        (Some q, Some k) \<Rightarrow> Some (q * ten_to k) | _ \<Rightarrow> None)
                 | _ \<Rightarrow> None)
               in map_option (\<lambda>q. double_of (if neg then - q else q)) value))"

text \<open>\<open>float(x)\<close>: \<open>Inl False\<close> is a \<open>TypeError\<close> or \<open>ValueError\<close>, \<open>Inl True\<close> an \<open>OverflowError\<close>.\<close>

definition float_of_value :: "pyval \<Rightarrow> bool + pyfloat" where
  "float_of_value v =
     (case v of
        PInt n \<Rightarrow> (case double_of (of_int n) of Fin q \<Rightarrow> Inr (Fin q) | _ \<Rightarrow> Inl True)
      | PBool b \<Rightarrow> Inr (Fin (if b then 1 else 0))
      | PFloat f \<Rightarrow> Inr f
      | PStr s \<Rightarrow> (case float_of_text s of None \<Rightarrow> Inl False | Some f \<Rightarrow> Inr f)
      | _ \<Rightarrow> Inl False)"

text \<open>\<open>int(text)\<close>: an optional sign and digits, single underscores between them allowed.\<close>

definition int_of_text :: "string \<Rightarrow> int option" where
  "int_of_text text =
     (let (neg, body) = split_sign (py_strip text) in
      map_option (\<lambda>n. if neg then - n else n) (Option.bind (digit_part body) int_of_digits))"

text \<open>
  \<open>round(n / 1000)\<close>: to the nearest, a tie to the even one. The float the code rounds is
  taken to be the exact quotient.
\<close>

definition round_thousandth :: "int \<Rightarrow> int" where
  "round_thousandth n =
     (let q = n div 1000; r = n mod 1000 in
      if r < 500 \<or> (r = 500 \<and> even q) then q else q + 1)"

text \<open>\<open>a < b\<close> of two floats: nothing is below or above NaN.\<close>

fun float_less :: "pyfloat \<Rightarrow> pyfloat \<Rightarrow> bool" where
  "float_less NaN b = False"
| "float_less a NaN = False"
| "float_less PosInf b = False"
| "float_less a NegInf = False"
| "float_less NegInf b = True"
| "float_less a PosInf = True"
| "float_less (Fin p) (Fin q) = (p < q)"

text \<open>
  \<open>round(x, 6)\<close>: to the nearest multiple of a millionth, a tie to the even one; the double
  nearest to it is taken to be that multiple.
\<close>

definition round_half_even :: "rat \<Rightarrow> int" where
  "round_half_even q =
     (let f = \<lfloor>q\<rfloor>; r = q - of_int f in
      if r < 1 / 2 \<or> (r = 1 / 2 \<and> even f) then f else f + 1)"

fun round_6 :: "pyfloat \<Rightarrow> pyfloat" where
  "round_6 (Fin q) = Fin (of_int (round_half_even (q * 1000000)) / 1000000)"
| "round_6 f = f"

text \<open>
  \<open>a == b\<close>: numbers by their value across \<open>bool\<close>, \<open>int\<close> and \<open>float\<close>, containers by their
  elements, which may also be the same object; a NaN equals nothing.
\<close>

fun number_value :: "pyval \<Rightarrow> pyfloat option" where
  "number_value (PBool b) = Some (Fin (if b then 1 else 0))"
| "number_value (PInt n) = Some (Fin (of_int n))"
| "number_value (PFloat f) = Some f"
| "number_value v = None"

fun py_eq :: "pyval \<Rightarrow> pyval \<Rightarrow> bool"
  and items_eq :: "pyval list \<Rightarrow> pyval list \<Rightarrow> bool"
  and fields_eq :: "(string \<times> pyval) list \<Rightarrow> (string \<times> pyval) list \<Rightarrow> bool" where
  "py_eq (PList xs) w = (case w of PList ys \<Rightarrow> items_eq xs ys | _ \<Rightarrow> False)"
| "py_eq (PTuple xs) w = (case w of PTuple ys \<Rightarrow> items_eq xs ys | _ \<Rightarrow> False)"
| "py_eq (PDict d) w = (case w of PDict e \<Rightarrow> length d = length e \<and> fields_eq d e | _ \<Rightarrow> False)"
| "py_eq v w =
     (case (number_value v, number_value w) of
        (Some a, Some b) \<Rightarrow> a = b \<and> a \<noteq> NaN
      | _ \<Rightarrow> v = w)"
| "items_eq [] ys = (ys = [])"
| "items_eq (x # xs) ys = (case ys of [] \<Rightarrow> False | y # ys' \<Rightarrow> (x = y \<or> py_eq x y) \<and> items_eq xs ys')"
| "fields_eq [] e = True"
| "fields_eq (kv # d) e =
     (case dget e (fst kv) of None \<Rightarrow> False | Some w \<Rightarrow> (snd kv = w \<or> py_eq (snd kv) w) \<and> fields_eq d e)"

end
