(* ===== verification/PipelineCards.thy ===== *)
theory PipelineCards
  imports LayerHandles PyNumbers
begin

text \<open>
  trid3nt_server/render/pipeline_emitter.py: one session's pipeline of step cards and its
  stack of loaded layers, and the frames it sends. Every operation is an action on the
  emitter: it may raise, and what it wrote before stays. The frames a sink accepted, the
  persisted card rows and charts are kept in the emitter, in the order they left it.
  Task-local variables the methods bind (turn case, active emitter, dispatched tool) are
  fields too.
\<close>

section \<open>Data\<close>

text \<open>
  A ULID is the number of the call of \<open>new_ulid\<close> that made it: calls never repeat one.
  Times are microseconds.
\<close>

type_synonym ulid = nat

datatype step_state = Pending | Running | Complete | Failed | Cancelled

datatype card_role = ToolCard | ComputeCard

text \<open>What a wire step and a persisted summary share, and the rest of \<open>_StepState\<close>.\<close>

record step_fields =
  st_id :: ulid
  st_name :: string
  st_tool :: string
  st_state :: step_state
  st_started :: "int option"
  st_completed :: "int option"
  st_progress :: "int option"
  st_error_code :: "string option"
  st_error_message :: "string option"
  st_duration :: "int option"
  st_role :: card_role
  st_batch_job :: "string option"
  st_batch_status :: "string option"
  st_parent :: "ulid option"
  st_label :: "string option"
  st_index :: "int option"
  st_total :: "int option"

record step = step_fields +
  st_engine :: "string option"
  st_module :: "string option"
  st_card_message :: "ulid option"
  st_started_count :: int

definition new_step :: "ulid \<Rightarrow> string \<Rightarrow> string \<Rightarrow> step" where
  "new_step sid name tool =
     \<lparr>st_id = sid, st_name = name, st_tool = tool, st_state = Pending, st_started = None,
      st_completed = None, st_progress = None, st_error_code = None, st_error_message = None,
      st_duration = None, st_role = ToolCard, st_batch_job = None, st_batch_status = None,
      st_parent = None, st_label = None, st_index = None, st_total = None, st_engine = None,
      st_module = None, st_card_message = None, st_started_count = 0\<rparr>"

record wire_step = step_fields +
  ws_engine :: "string option"
  ws_module :: "string option"

record child_record =
  ch_id :: ulid
  ch_parent :: "ulid option"
  ch_name :: string
  ch_tool :: string
  ch_state :: step_state
  ch_duration :: "int option"
  ch_error_code :: "string option"
  ch_error_message :: "string option"

record snapshot =
  sn_pipeline :: ulid
  sn_started :: int
  sn_completed :: "int option"
  sn_final :: "step_state option"
  sn_steps :: "step_fields list"

datatype history_entry = Seeded pyval | Archived snapshot

datatype layer_type = RasterLayer | VectorLayer | MeshLayer

datatype layer_role = PrimaryLayer | ContextLayer | InputLayer

text \<open>
  \<open>LayerURI\<close>, the fields the emitter reads, and \<open>ProjectLayerSummary\<close> but for the opacity,
  which it never sets.
\<close>

record layer_uri =
  ly_id :: string
  ly_name :: string
  ly_type :: layer_type
  ly_uri :: string
  ly_style :: "(string, pyval) dict option"
  ly_quantity :: "string option"
  ly_tracer :: "int option"
  ly_role :: layer_role
  ly_origin :: "string option"
  ly_bbox :: "pyval list option"
  ly_legend :: pyval
  ly_datasets :: "string list"
  ly_crs :: "string option"
  ly_reference :: "string option"
  ly_valid_from :: "string option"
  ly_valid_to :: "string option"

record layer_row =
  lr_id :: string
  lr_name :: string
  lr_type :: layer_type
  lr_uri :: string
  lr_visible :: bool
  lr_role :: layer_role
  lr_origin :: "string option"
  lr_temporal :: bool
  lr_z :: "int option"
  lr_crs :: "string option"
  lr_datasets :: "string list"
  lr_group :: "string option"
  lr_reference :: "string option"
  lr_valid_from :: "string option"
  lr_valid_to :: "string option"
  lr_legend :: pyval
  lr_quantity :: "string option"
  lr_tracer :: "int option"

record card_row =
  cr_tool :: string
  cr_label :: string
  cr_state :: step_state
  cr_started :: int
  cr_duration :: int
  cr_message :: "ulid option"

datatype frame_body =
    PipelineFrame ulid "wire_step list"
  | SessionFrame "pyval list" "layer_row list" "history_entry list" "snapshot option" pyval
  | MapCommandFrame string pyval
  | ChartFrame pyval
  | OtherFrame string pyval

record frame =
  fr_session :: string
  fr_case :: "string option"
  fr_body :: frame_body

text \<open>
  The emitter. A sink and a hook are callables that accept a frame or a row, or raise.
  \<open>es_closed\<close> holds the \<open>ConnectionClosed\<close> classes of the \<open>websockets\<close> package,
  \<open>es_clock\<close> what \<open>_now_fn\<close> returns at each call, \<open>es_ulid_text\<close> the text of a ULID,
  \<open>es_repr\<close> the text of a float or a container, \<open>es_legends\<close> the legends
  \<open>publish.py\<close> stashed by uri.
\<close>

record emitter =
  es_session :: string
  es_sink :: "frame \<Rightarrow> py_exn option"
  es_chart_persist :: "(pyval \<Rightarrow> py_exn option) option"
  es_card_persist :: "(card_row \<Rightarrow> py_exn option) option"
  es_pipeline :: "ulid option"
  es_pipeline_started :: "int option"
  es_steps :: "(ulid, step) dict"
  es_order :: "ulid list"
  es_chat :: "pyval list"
  es_history :: "history_entry list"
  es_map_view :: pyval
  es_layers :: "layer_row list"
  es_next_z :: int
  es_last_step :: "step_fields option"
  es_last_children :: "child_record list"
  es_parent :: "ulid option"
  es_terminal :: "(ulid \<times> wire_step list) option"
  es_turn_case :: "string option"
  es_current :: bool
  es_dispatched :: "string option"
  es_registry :: "registry option"
  es_legends :: "(string, pyval) dict"
  es_closed :: "exn_class list"
  es_clock :: "nat \<Rightarrow> int"
  es_reads :: nat
  es_next_id :: ulid
  es_ulid_text :: "ulid \<Rightarrow> string"
  es_repr :: "pyval \<Rightarrow> string"
  es_sent :: "frame list"
  es_charts :: "pyval list"
  es_cards :: "card_row list"

type_synonym 'a emitting = "(emitter, py_exn, 'a) act"

section \<open>Errors, clock, ids\<close>

definition emitter_error :: exn_class where
  "emitter_error = Derived ''EmitterError'' ExcRuntimeError"

definition step_not_found :: py_exn where
  "step_not_found = plain_exn (Derived ''StepNotFoundError'' emitter_error) ''step_id not registered''"

definition nameless_failure :: py_exn where
  "nameless_failure = plain_exn (Derived ''NamelessFailureError'' emitter_error) ''marked failed''"

definition no_pipeline :: py_exn where
  "no_pipeline = plain_exn emitter_error ''no open pipeline''"

text \<open>\<open>pydantic.ValidationError\<close>.\<close>

definition contract_error :: py_exn where
  "contract_error = plain_exn (Derived ''ValidationError'' ExcValueError) ''validation error''"

definition now :: "int emitting" where
  "now s = (Inr (es_clock s (es_reads s)), s\<lparr>es_reads := Suc (es_reads s)\<rparr>)"

definition new_ulid :: "ulid emitting" where
  "new_ulid s = (Inr (es_next_id s), s\<lparr>es_next_id := Suc (es_next_id s)\<rparr>)"

text \<open>\<open>_named\<close>: the code and the sentence of a failure, stripped; or the refusal.\<close>

definition named :: "string \<Rightarrow> string \<Rightarrow> py_exn + (string \<times> string)" where
  "named error_code error_message =
     (let code = py_strip error_code; sentence = py_strip error_message in
      if code = [] \<or> sentence = [] then Inl nameless_failure else Inr (code, sentence))"

definition elapsed_ms :: "int option \<Rightarrow> int option \<Rightarrow> int option" where
  "elapsed_ms started completed =
     (case (started, completed) of
        (Some a, Some b) \<Rightarrow> Some (if b - a < 0 then 0 else round_thousandth (b - a))
      | _ \<Rightarrow> None)"

definition error_message_max_len :: nat where
  "error_message_max_len = 512"

definition truncate_message :: "string \<Rightarrow> string" where
  "truncate_message m = (if length m \<le> error_message_max_len then m else take error_message_max_len m)"

section \<open>What the contracts accept\<close>

text \<open>\<open>^[A-Z][A-Z0-9]*(?:_[A-Z0-9]+)*$\<close>; \<open>$\<close> also matches before a final newline.\<close>

definition code_shape :: "string \<Rightarrow> bool" where
  "code_shape value =
     (let t = (if value \<noteq> [] \<and> char_code (last value) = 10 then butlast value else value);
          parts = split_on CHR ''_'' t
      in t \<noteq> [] \<and> is_upper (hd t) \<and>
         list_all (\<lambda>p. p \<noteq> [] \<and> list_all (\<lambda>c. is_upper c \<or> is_digit c) p) parts)"

fun opt_all :: "('a \<Rightarrow> bool) \<Rightarrow> 'a option \<Rightarrow> bool" where
  "opt_all P None = True"
| "opt_all P (Some x) = P x"

text \<open>The field bounds \<open>PipelineStep\<close> and \<open>PipelineStepSummary\<close> declare.\<close>

definition fields_valid :: "('a step_fields_scheme) \<Rightarrow> bool" where
  "fields_valid f \<longleftrightarrow>
     opt_all (\<lambda>p. 0 \<le> p \<and> p \<le> 100) (st_progress f) \<and>
     opt_all (\<lambda>m. length m \<le> 512) (st_error_message f) \<and>
     opt_all (\<lambda>d. 0 \<le> d) (st_duration f) \<and>
     opt_all (\<lambda>i. 1 \<le> i) (st_index f) \<and>
     opt_all (\<lambda>t. 1 \<le> t) (st_total f)"

definition summary_valid :: "('a step_fields_scheme) \<Rightarrow> bool" where
  "summary_valid f \<longleftrightarrow> fields_valid f \<and> opt_all code_shape (st_error_code f)"

section \<open>Views of a step\<close>

definition require_step :: "ulid \<Rightarrow> step emitting" where
  "require_step sid s =
     (case dget (es_steps s) sid of None \<Rightarrow> (Inl step_not_found, s) | Some x \<Rightarrow> (Inr x, s))"

definition key_error :: py_exn where
  "key_error = plain_exn ExcKeyError ''step_id''"

definition to_wire_step :: "emitter \<Rightarrow> ulid \<Rightarrow> py_exn + wire_step" where
  "to_wire_step s sid =
     (case dget (es_steps s) sid of
        None \<Rightarrow> Inl key_error
      | Some x \<Rightarrow>
          if fields_valid x
          then Inr (step_fields.extend (step_fields.truncate x)
                      (wire_step.fields (st_engine x) (st_module x)))
          else Inl contract_error)"

definition to_summary :: "emitter \<Rightarrow> ulid \<Rightarrow> py_exn + step_fields" where
  "to_summary s sid =
     (case dget (es_steps s) sid of
        None \<Rightarrow> Inl key_error
      | Some x \<Rightarrow> if summary_valid x then Inr (step_fields.truncate x) else Inl contract_error)"

fun collect :: "('a \<Rightarrow> 'e + 'b) \<Rightarrow> 'a list \<Rightarrow> 'e + 'b list" where
  "collect f [] = Inr []"
| "collect f (x # xs) =
     (case f x of
        Inl e \<Rightarrow> Inl e
      | Inr y \<Rightarrow> (case collect f xs of Inl e \<Rightarrow> Inl e | Inr ys \<Rightarrow> Inr (y # ys)))"

definition lifted :: "(emitter \<Rightarrow> py_exn + 'a) \<Rightarrow> 'a emitting" where
  "lifted f s = (f s, s)"

text \<open>\<open>_collect_children\<close>: the complete and failed children, in start order.\<close>

definition child_of :: "ulid \<Rightarrow> step \<Rightarrow> child_record option" where
  "child_of parent x =
     (if st_parent x \<noteq> Some parent \<or> st_state x \<notin> {Complete, Failed} then None
      else Some \<lparr>ch_id = st_id x, ch_parent = st_parent x, ch_name = st_name x, ch_tool = st_tool x,
                 ch_state = st_state x, ch_duration = st_duration x,
                 ch_error_code = st_error_code x, ch_error_message = st_error_message x\<rparr>)"

definition collect_children :: "emitter \<Rightarrow> ulid \<Rightarrow> child_record list" where
  "collect_children s parent =
     List.map_filter (\<lambda>sid. Option.bind (dget (es_steps s) sid) (child_of parent)) (es_order s)"

section \<open>Sending\<close>

definition send :: "frame_body \<Rightarrow> unit emitting" where
  "send body s =
     (let frame = \<lparr>fr_session = es_session s, fr_case = es_turn_case s, fr_body = body\<rparr> in
      case es_sink s frame of
        None \<Rightarrow> (Inr (), s\<lparr>es_sent := es_sent s @ [frame]\<rparr>)
      | Some e \<Rightarrow> (Inl e, s))"

text \<open>\<open>_send_pipeline_state\<close>: only a closed socket is swallowed.\<close>

definition send_pipeline_state :: "ulid \<times> wire_step list \<Rightarrow> unit emitting" where
  "send_pipeline_state payload =
     depending (\<lambda>s. on_error (send (PipelineFrame (fst payload) (snd payload)))
       (\<lambda>e. if isinstance e (es_closed s) then returning () else raising e))"

definition emit_pipeline_state :: "bool \<Rightarrow> unit emitting" where
  "emit_pipeline_state terminal s =
     (case es_pipeline s of
        None \<Rightarrow> (Inl no_pipeline, s)
      | Some pid \<Rightarrow>
          (case collect (to_wire_step s) (es_order s) of
             Inl e \<Rightarrow> (Inl e, s)
           | Inr steps \<Rightarrow>
               send_pipeline_state (pid, steps)
                 (if terminal then s\<lparr>es_terminal := Some (pid, steps)\<rparr> else s)))"

text \<open>
  \<open>rebind_sink\<close>: the sink is swapped, and where a loop runs the payload it returns is the
  one scheduled on it, to be sent by \<open>send_pipeline_state\<close>.
\<close>

definition rebind_sink :: "bool \<Rightarrow> (frame \<Rightarrow> py_exn option) \<Rightarrow> (ulid \<times> wire_step list) option emitting" where
  "rebind_sink loop_running sink s =
     (let s' = s\<lparr>es_sink := sink\<rparr> in
      if \<not> loop_running then (Inr None, s')
      else (case (es_pipeline s', es_order s') of
              (Some pid, sid # sids) \<Rightarrow>
                (case collect (to_wire_step s') (es_order s') of
                   Inl e \<Rightarrow> (Inl e, s')
                 | Inr steps \<Rightarrow> (Inr (Some (pid, steps)), s'))
            | _ \<Rightarrow> (Inr (es_terminal s'), s')))"

section \<open>The pipeline as a whole\<close>

definition all_in :: "emitter \<Rightarrow> step_state \<Rightarrow> bool" where
  "all_in s st \<longleftrightarrow> list_all (\<lambda>sid. map_option st_state (dget (es_steps s) sid) = Some st) (es_order s)"

definition some_in :: "emitter \<Rightarrow> step_state \<Rightarrow> bool" where
  "some_in s st \<longleftrightarrow> list_ex (\<lambda>sid. map_option st_state (dget (es_steps s) sid) = Some st) (es_order s)"

text \<open>The refusal to read \<open>failed\<close> off a step that names no cause.\<close>

definition name_failures :: "emitter \<Rightarrow> py_exn + unit" where
  "name_failures s =
     (case collect (\<lambda>sid. case dget (es_steps s) sid of
                            None \<Rightarrow> Inl key_error
                          | Some x \<Rightarrow>
                              if st_state x \<noteq> Failed then Inr ()
                              else (case named (case st_error_code x of None \<Rightarrow> [] | Some c \<Rightarrow> c)
                                               (case st_error_message x of None \<Rightarrow> [] | Some m \<Rightarrow> m) of
                                      Inl e \<Rightarrow> Inl e | Inr _ \<Rightarrow> Inr ())) (es_order s) of
        Inl e \<Rightarrow> Inl e
      | Inr _ \<Rightarrow> Inr ())"

definition final_state :: "step_state option emitting" where
  "final_state s =
     (if all_in s Complete then (Inr (Some Complete), s)
      else if some_in s Failed
      then (case name_failures s of Inl e \<Rightarrow> (Inl e, s) | Inr _ \<Rightarrow> (Inr (Some Failed), s))
      else if some_in s Cancelled then (Inr (Some Cancelled), s)
      else (Inr None, s))"

definition current_snapshot :: "snapshot option emitting" where
  "current_snapshot = depending (\<lambda>s.
     case es_pipeline s of
       None \<Rightarrow> returning None
     | Some pid \<Rightarrow>
         if es_order s = [] then returning None
         else
           then_do final_state (\<lambda>final.
           then_do (if final \<noteq> None then then_do now (\<lambda>t. returning (Some t)) else returning None) (\<lambda>completed.
           then_do (case es_pipeline_started s of None \<Rightarrow> now | Some t \<Rightarrow> returning t) (\<lambda>started.
           then_do (lifted (\<lambda>s'. collect (to_summary s') (es_order s'))) (\<lambda>steps.
           returning (Some \<lparr>sn_pipeline = pid, sn_started = started, sn_completed = completed,
                            sn_final = final, sn_steps = steps\<rparr>))))))"

definition start_pipeline :: "ulid emitting" where
  "start_pipeline =
     then_do new_ulid (\<lambda>pid.
     then_do (updating (\<lambda>s. s\<lparr>es_pipeline := Some pid\<rparr>)) (\<lambda>_.
     then_do now (\<lambda>t.
     then_do (updating (\<lambda>s. s\<lparr>es_pipeline_started := Some t, es_steps := [], es_order := []\<rparr>)) (\<lambda>_.
     returning pid))))"

definition close_pipeline :: "unit emitting" where
  "close_pipeline = depending (\<lambda>s.
     if es_pipeline s = None then returning ()
     else
       then_do current_snapshot (\<lambda>snap.
       updating (\<lambda>s'. s'\<lparr>es_history := (case snap of None \<Rightarrow> es_history s'
                                        | Some sn \<Rightarrow> es_history s' @ [Archived sn]),
                        es_pipeline := None, es_pipeline_started := None, es_steps := [],
                        es_order := []\<rparr>)))"

section \<open>Step transitions\<close>

definition patch_step :: "ulid \<Rightarrow> (step \<Rightarrow> step) \<Rightarrow> unit emitting" where
  "patch_step sid f =
     updating (\<lambda>s. s\<lparr>es_steps := (case dget (es_steps s) sid of
                                     None \<Rightarrow> es_steps s
                                   | Some x \<Rightarrow> dput sid (f x) (es_steps s))\<rparr>)"

definition append_step :: "string \<Rightarrow> string \<Rightarrow> ulid emitting" where
  "append_step name tool =
     then_do new_ulid (\<lambda>sid.
     then_do (updating (\<lambda>s. s\<lparr>es_steps := dput sid (new_step sid name tool) (es_steps s),
                              es_order := es_order s @ [sid]\<rparr>)) (\<lambda>_.
     returning sid))"

definition add_step :: "string \<Rightarrow> string \<Rightarrow> ulid emitting" where
  "add_step name tool =
     then_do (depending (\<lambda>s. if es_pipeline s = None then then_do start_pipeline (\<lambda>_. returning ())
                            else returning ())) (\<lambda>_.
     then_do (append_step name tool) (\<lambda>sid.
     then_do (emit_pipeline_state False) (\<lambda>_.
     returning sid)))"

definition coerce_progress :: "int \<Rightarrow> py_exn + int" where
  "coerce_progress value =
     (if value < 0 \<or> 100 < value then Inl (plain_exn ExcValueError ''progress_percent must be in [0,100]'')
      else Inr value)"

definition set_progress :: "ulid \<Rightarrow> int \<Rightarrow> unit emitting" where
  "set_progress sid value =
     then_do (lifted (\<lambda>_. coerce_progress value)) (\<lambda>p. patch_step sid (\<lambda>x. x\<lparr>st_progress := Some p\<rparr>))"

definition mark_running :: "ulid \<Rightarrow> int option \<Rightarrow> unit emitting" where
  "mark_running sid progress =
     then_do (require_step sid) (\<lambda>_.
     then_do (patch_step sid (\<lambda>x. x\<lparr>st_state := Running\<rparr>)) (\<lambda>_.
     then_do now (\<lambda>t.
     then_do (patch_step sid (\<lambda>x. x\<lparr>st_started := Some t\<rparr>)) (\<lambda>_.
     then_do (case progress of None \<Rightarrow> returning () | Some p \<Rightarrow> set_progress sid p) (\<lambda>_.
     emit_pipeline_state False)))))"

definition update_progress :: "ulid \<Rightarrow> int \<Rightarrow> unit emitting" where
  "update_progress sid progress =
     then_do (require_step sid) (\<lambda>_.
     then_do (set_progress sid progress) (\<lambda>_.
     emit_pipeline_state False))"

definition begin_substeps :: "int option \<Rightarrow> unit emitting" where
  "begin_substeps planned = depending (\<lambda>s.
     case es_parent s of
       None \<Rightarrow> returning ()
     | Some parent \<Rightarrow>
         patch_step parent
           (\<lambda>x. x\<lparr>st_total := (case planned of None \<Rightarrow> None | Some n \<Rightarrow> if 1 \<le> n then Some n else None)\<rparr>))"

definition clear_parent_breadcrumb :: "step \<Rightarrow> step" where
  "clear_parent_breadcrumb x = x\<lparr>st_label := None, st_index := None, st_total := None\<rparr>"

definition mark_terminal :: "ulid \<Rightarrow> step_state \<Rightarrow> unit emitting" where
  "mark_terminal sid st =
     then_do (require_step sid) (\<lambda>_.
     then_do (patch_step sid (\<lambda>x. x\<lparr>st_state := st\<rparr>)) (\<lambda>_.
     then_do now (\<lambda>t.
     patch_step sid (\<lambda>x. let x1 = clear_parent_breadcrumb (x\<lparr>st_completed := Some t\<rparr>) in
                         x1\<lparr>st_duration := elapsed_ms (st_started x1) (st_completed x1)\<rparr>))))"

definition mark_complete :: "ulid \<Rightarrow> unit emitting" where
  "mark_complete sid = then_do (mark_terminal sid Complete) (\<lambda>_. emit_pipeline_state True)"

definition fail_step :: "ulid \<Rightarrow> string \<Rightarrow> string \<Rightarrow> unit emitting" where
  "fail_step sid code sentence =
     then_do (mark_terminal sid Failed) (\<lambda>_.
     patch_step sid (\<lambda>x. x\<lparr>st_error_code := Some code,
                            st_error_message := Some (truncate_message sentence)\<rparr>))"

definition mark_failed :: "ulid \<Rightarrow> string \<Rightarrow> string \<Rightarrow> unit emitting" where
  "mark_failed sid error_code error_message =
     then_do (lifted (\<lambda>_. named error_code error_message)) (\<lambda>(code, sentence).
     then_do (fail_step sid code sentence) (\<lambda>_.
     emit_pipeline_state True))"

definition mark_cancelled :: "ulid \<Rightarrow> unit emitting" where
  "mark_cancelled sid = then_do (mark_terminal sid Cancelled) (\<lambda>_. emit_pipeline_state True)"

definition add_compute_step ::
  "string \<Rightarrow> string \<Rightarrow> string \<Rightarrow> string option \<Rightarrow> string option \<Rightarrow> string option \<Rightarrow> ulid emitting" where
  "add_compute_step name tool batch_job batch_status engine module_name =
     then_do (add_step name tool) (\<lambda>sid.
     then_do (require_step sid) (\<lambda>_.
     then_do (patch_step sid (\<lambda>x. x\<lparr>st_role := ComputeCard, st_batch_job := Some batch_job,
                 st_batch_status := batch_status, st_engine := engine, st_module := module_name\<rparr>)) (\<lambda>_.
     then_do new_ulid (\<lambda>mid.
     then_do (patch_step sid (\<lambda>x. x\<lparr>st_card_message := Some mid\<rparr>)) (\<lambda>_.
     then_do (mark_running sid None) (\<lambda>_.
     returning sid))))))"

definition add_durable_step :: "string \<Rightarrow> string \<Rightarrow> ulid emitting" where
  "add_durable_step name tool =
     then_do (add_step name tool) (\<lambda>sid.
     then_do (require_step sid) (\<lambda>_.
     then_do new_ulid (\<lambda>mid.
     then_do (patch_step sid (\<lambda>x. x\<lparr>st_card_message := Some mid\<rparr>)) (\<lambda>_.
     then_do (mark_running sid None) (\<lambda>_.
     returning sid)))))"

definition rename_step :: "ulid \<Rightarrow> string \<Rightarrow> unit emitting" where
  "rename_step sid name = patch_step sid (\<lambda>x. x\<lparr>st_name := name\<rparr>)"

definition swallow :: "py_exn \<Rightarrow> unit emitting" where
  "swallow e = (if isinstance e [ExcException] then returning () else raising e)"

text \<open>\<open>_persist_step_card\<close>: a hook failure is swallowed, a cancellation is not.\<close>

definition persist_step_card :: "ulid \<Rightarrow> step_state list \<Rightarrow> unit emitting" where
  "persist_step_card sid states = depending (\<lambda>s.
     case es_card_persist s of
       None \<Rightarrow> returning ()
     | Some persist \<Rightarrow>
         (case dget (es_steps s) sid of
            None \<Rightarrow> returning ()
          | Some x \<Rightarrow>
              if \<not> List.member states (st_state x) then returning ()
              else
                then_do (case st_started x of None \<Rightarrow> now | Some t \<Rightarrow> returning t) (\<lambda>started.
                let row = \<lparr>cr_tool = st_tool x, cr_label = st_name x, cr_state = st_state x,
                           cr_started = started,
                           cr_duration = (case st_duration x of None \<Rightarrow> 0 | Some d \<Rightarrow> d),
                           cr_message = st_card_message x\<rparr>
                in (case persist row of
                      None \<Rightarrow> updating (\<lambda>s. s\<lparr>es_cards := es_cards s @ [row]\<rparr>)
                    | Some e \<Rightarrow> swallow e))))"

definition persist_running_compute_card :: "ulid \<Rightarrow> unit emitting" where
  "persist_running_compute_card sid = persist_step_card sid [Running]"

definition persist_terminal_compute_card :: "ulid \<Rightarrow> unit emitting" where
  "persist_terminal_compute_card sid = persist_step_card sid [Complete, Failed, Cancelled]"

definition persist_terminal_dispatch_card :: "ulid \<Rightarrow> unit emitting" where
  "persist_terminal_dispatch_card sid = persist_step_card sid [Complete, Failed]"

section \<open>Loaded layers\<close>

definition alloc_z :: "int emitting" where
  "alloc_z s = (Inr (es_next_z s), s\<lparr>es_next_z := es_next_z s + 1\<rparr>)"

text \<open>
  \<open>summary_of\<close>: the row of a layer. Its legend is the layer's own or the one stashed for its
  uri; a dataset group that is no string is refused by the contract.
\<close>

definition legend_of :: "(string, pyval) dict \<Rightarrow> layer_uri \<Rightarrow> pyval" where
  "legend_of legends layer =
     (if py_truth (ly_legend layer) then ly_legend layer
      else if ly_uri layer = [] then PNone else pget legends (ly_uri layer))"

definition row_of_layer :: "(string, pyval) dict \<Rightarrow> layer_uri \<Rightarrow> py_exn + layer_row" where
  "row_of_layer legends layer =
     (let row = (\<lambda>g. \<lparr>lr_id = ly_id layer, lr_name = ly_name layer, lr_type = ly_type layer,
                  lr_uri = ly_uri layer, lr_visible = True, lr_role = ly_role layer,
                  lr_origin = ly_origin layer, lr_temporal = (ly_valid_from layer \<noteq> None), lr_z = None,
                  lr_crs = ly_crs layer, lr_datasets = ly_datasets layer, lr_group = g,
                  lr_reference = ly_reference layer, lr_valid_from = ly_valid_from layer,
                  lr_valid_to = ly_valid_to layer, lr_legend = legend_of legends layer,
                  lr_quantity = ly_quantity layer, lr_tracer = ly_tracer layer\<rparr>)
      in case pget (case ly_style layer of None \<Rightarrow> [] | Some st \<Rightarrow> st) ''dataset_group'' of
           PNone \<Rightarrow> Inr (row None)
         | PStr g \<Rightarrow> Inr (row (Some g))
         | _ \<Rightarrow> Inl contract_error)"

definition emit_session_state :: "unit emitting" where
  "emit_session_state =
     then_do current_snapshot (\<lambda>snap. depending (\<lambda>s.
     send (SessionFrame (es_chat s) (es_layers s) (es_history s) snap (es_map_view s))))"

text \<open>\<open>MapCommand\<close> allows two commands.\<close>

definition emit_map_command :: "string \<Rightarrow> pyval \<Rightarrow> unit emitting" where
  "emit_map_command command args =
     (if command = ''load-layer'' \<or> command = ''zoom-to'' then send (MapCommandFrame command args)
      else raising contract_error)"

definition same_paint :: "layer_row \<Rightarrow> layer_row \<Rightarrow> bool" where
  "same_paint a b \<longleftrightarrow> lr_uri a = lr_uri b \<and> lr_group a = lr_group b"

text \<open>A row that supersedes one takes its slot; a new one takes the next.\<close>

definition place_row :: "layer_row \<Rightarrow> unit emitting" where
  "place_row summary = depending (\<lambda>s.
     case find_index (\<lambda>r. same_paint r summary) (es_layers s) of
       None \<Rightarrow>
         then_do alloc_z (\<lambda>z.
         updating (\<lambda>s'. s'\<lparr>es_layers := es_layers s' @ [summary\<lparr>lr_z := Some z\<rparr>]\<rparr>))
     | Some i \<Rightarrow>
         then_do (case lr_z (es_layers s ! i) of None \<Rightarrow> alloc_z | Some z \<Rightarrow> returning z) (\<lambda>z.
         updating (\<lambda>s'. s'\<lparr>es_layers := (es_layers s')[i := summary\<lparr>lr_z := Some z\<rparr>]\<rparr>)))"

definition observe_row :: "layer_row \<Rightarrow> unit emitting" where
  "observe_row summary =
     updating (\<lambda>s. s\<lparr>es_registry :=
       map_option (observe_published_layer (lr_id summary) (Some (lr_uri summary))) (es_registry s)\<rparr>)"

definition add_loaded_layer :: "layer_uri \<Rightarrow> unit emitting" where
  "add_loaded_layer layer =
     then_do (lifted (\<lambda>s. row_of_layer (es_legends s) layer)) (\<lambda>summary.
     then_do (observe_row summary) (\<lambda>_.
     then_do (place_row summary) (\<lambda>_.
     then_do emit_session_state (\<lambda>_.
     case ly_bbox layer of
       None \<Rightarrow> returning ()
     | Some bbox \<Rightarrow> emit_map_command ''zoom-to'' (PDict [(''bbox'', PList bbox)])))))"

text \<open>\<open>_patch_layer\<close>: a row is patched and announced only where the value changes.\<close>

definition patch_layer :: "string \<Rightarrow> (layer_row \<Rightarrow> layer_row) \<Rightarrow> bool emitting" where
  "patch_layer layer_id patch = depending (\<lambda>s.
     case find_index (\<lambda>r. lr_id r = layer_id) (es_layers s) of
       None \<Rightarrow> returning False
     | Some i \<Rightarrow>
         if patch (es_layers s ! i) = es_layers s ! i then returning True
         else
           then_do (updating (\<lambda>s'. s'\<lparr>es_layers := (es_layers s')[i := patch (es_layers s' ! i)]\<rparr>)) (\<lambda>_.
           then_do emit_session_state (\<lambda>_.
           returning True)))"

definition set_layer_visible :: "string \<Rightarrow> bool \<Rightarrow> bool emitting" where
  "set_layer_visible layer_id visible = patch_layer layer_id (\<lambda>r. r\<lparr>lr_visible := visible\<rparr>)"

definition set_layer_name :: "string \<Rightarrow> string \<Rightarrow> bool emitting" where
  "set_layer_name layer_id name = patch_layer layer_id (\<lambda>r. r\<lparr>lr_name := name\<rparr>)"

text \<open>
  \<open>reset_loaded_layers\<close>: \<open>accepts\<close> is \<open>ProjectLayerSummary.model_validate\<close>, of pydantic.
\<close>

definition reset_loaded_layers :: "((string, pyval) dict \<Rightarrow> layer_row option) \<Rightarrow> pyval list \<Rightarrow> unit emitting" where
  "reset_loaded_layers accepts layers =
     updating (\<lambda>s.
       if layers = [] then s\<lparr>es_layers := [], es_next_z := 0\<rparr>
       else
         (let seeded = List.map_filter (\<lambda>v. case v of PDict d \<Rightarrow> accepts d | _ \<Rightarrow> None) layers;
              zs = List.map_filter lr_z seeded
          in s\<lparr>es_layers := seeded, es_next_z := (if zs = [] then 0 else Max (set zs) + 1)\<rparr>))"

text \<open>
  \<open>merge_loaded_layers_from\<close>, on the rows of another emitter. A row already held, by uri
  or by id, is skipped.
\<close>

definition merge_row :: "layer_row \<Rightarrow> (string set \<times> string set \<times> int) \<times> emitter
    \<Rightarrow> (string set \<times> string set \<times> int) \<times> emitter" where
  "merge_row layer acc =
     (let ((keys, ids, merged), s) = acc in
      if lr_uri layer \<in> keys \<or> lr_id layer \<in> ids then acc
      else
        (let (row, s1) = (case lr_z layer of
                            None \<Rightarrow> (layer\<lparr>lr_z := Some (es_next_z s)\<rparr>, s\<lparr>es_next_z := es_next_z s + 1\<rparr>)
                          | Some z \<Rightarrow> (layer, s\<lparr>es_next_z := max (es_next_z s) (z + 1)\<rparr>))
         in ((insert (lr_uri layer) keys, insert (lr_id layer) ids, merged + 1),
             s1\<lparr>es_layers := es_layers s1 @ [row]\<rparr>)))"

definition merge_loaded_layers_from :: "layer_row list \<Rightarrow> int emitting" where
  "merge_loaded_layers_from others s =
     (let ((keys, ids, merged), s') =
            fold merge_row others
              ((lr_uri ` set (es_layers s), lr_id ` set (es_layers s), 0), s)
      in (Inr merged, s'))"

section \<open>Charts\<close>

definition stamp_turn :: "string \<Rightarrow> pyval \<Rightarrow> pyval" where
  "stamp_turn turn chart =
     (case chart of
        PDict d \<Rightarrow> PDict (if py_truth (pget d ''created_turn_id'') then d
                          else dput ''created_turn_id'' (PStr turn) d)
      | v \<Rightarrow> v)"

definition emit_chart :: "pyval \<Rightarrow> unit emitting" where
  "emit_chart chart = depending (\<lambda>s.
     if \<not> is_dict chart \<or> \<not> py_truth chart then returning ()
     else
       (let payload = stamp_turn (case es_pipeline s of None \<Rightarrow> es_session s | Some pid \<Rightarrow> es_ulid_text s pid) chart
        in then_do (on_error (send (ChartFrame payload)) swallow) (\<lambda>_. depending (\<lambda>s1.
             case es_chart_persist s1 of
               None \<Rightarrow> returning ()
             | Some persist \<Rightarrow>
                 (case persist payload of
                    None \<Rightarrow> updating (\<lambda>s2. s2\<lparr>es_charts := es_charts s2 @ [payload]\<rparr>)
                  | Some e \<Rightarrow> swallow e)))))"

section \<open>The layer on its way out: layer_uri_emit.py\<close>

text \<open>
  \<open>publish_for_emission\<close>: \<open>publish\<close> is \<open>publish_layer\<close>, which reads and writes the raster
  through GDAL.
\<close>

definition renderable :: "string \<Rightarrow> bool" where
  "renderable uri \<longleftrightarrow> starts_with ''http://'' uri \<or> starts_with ''https://'' uri \<or> starts_with ''s3://'' uri"

definition publish_for_emission :: "(layer_uri \<Rightarrow> py_exn + pyval) \<Rightarrow> layer_uri \<Rightarrow> py_exn + layer_uri" where
  "publish_for_emission publish layer =
     (if ly_type layer \<noteq> RasterLayer \<or> \<not> starts_with ''s3://'' (ly_uri layer) then Inr layer
      else (case publish layer of
              Inl e \<Rightarrow> if isinstance e [ExcException] then Inr layer else Inl e
            | Inr (PStr published) \<Rightarrow>
                if renderable published \<and> published \<noteq> ly_uri layer
                then Inr (layer\<lparr>ly_uri := published\<rparr>) else Inr layer
            | Inr _ \<Rightarrow> Inr layer))"

text \<open>
  \<open>emit_layer_uri\<close>: a raster nothing can fetch is dropped. \<open>legend_for\<close> is the legend the
  presets resolve for a style row, \<open>None\<close> where they resolve none or fail.
\<close>

definition resolve_non_raster_legend ::
  "((string, pyval) dict \<Rightarrow> layer_uri \<Rightarrow> pyval option) \<Rightarrow> layer_uri \<Rightarrow> layer_uri" where
  "resolve_non_raster_legend legend_for layer =
     (let style = (case ly_style layer of None \<Rightarrow> [] | Some st \<Rightarrow> st);
          row = (\<lambda>kind. if dhas style ''kind'' then style else dput ''kind'' (PStr kind) style);
          restyled = (\<lambda>kind. if ly_legend layer \<noteq> PNone then layer
                             else (case legend_for (row kind) layer of
                                     None \<Rightarrow> layer | Some legend \<Rightarrow> layer\<lparr>ly_legend := legend\<rparr>))
      in case ly_type layer of
           RasterLayer \<Rightarrow> layer
         | VectorLayer \<Rightarrow> restyled ''reference''
         | MeshLayer \<Rightarrow> restyled ''mesh'')"

definition emit_layer_uri ::
  "((string, pyval) dict \<Rightarrow> layer_uri \<Rightarrow> pyval option) \<Rightarrow> layer_uri \<Rightarrow> layer_uri option" where
  "emit_layer_uri legend_for layer =
     (let uri = ly_uri layer in
      if ly_type layer = RasterLayer \<and> (uri = [] \<or> starts_with ''gs://'' uri \<or> starts_with ''file://'' uri)
      then None
      else Some (resolve_non_raster_legend legend_for layer))"

record layer_world =
  lw_publish :: "layer_uri \<Rightarrow> py_exn + pyval"
  lw_legend :: "(string, pyval) dict \<Rightarrow> layer_uri \<Rightarrow> pyval option"

definition emit_one_layer :: "layer_world \<Rightarrow> layer_uri \<Rightarrow> unit emitting" where
  "emit_one_layer w layer =
     then_do (lifted (\<lambda>_. case publish_for_emission (lw_publish w) layer of
                            Inl e \<Rightarrow> if isinstance e [ExcException] then Inr layer else Inl e
                          | Inr l \<Rightarrow> Inr l)) (\<lambda>published.
     case emit_layer_uri (lw_legend w) published of
       None \<Rightarrow> returning ()
     | Some l \<Rightarrow> add_loaded_layer l)"

section \<open>One tool call\<close>

text \<open>
  What a tool returns: a \<open>dict\<close>, an object known by its attributes, a layer, a list (an
  item that is no layer is \<open>None\<close>), or anything else.
\<close>

datatype tool_result =
    DictResult "(string, pyval) dict"
  | ObjectResult "(string, pyval) dict"
  | LayerResult layer_uri
  | ListResult "layer_uri option list"
  | OtherResult pyval

definition failed_dict_statuses :: "string list" where
  "failed_dict_statuses = [''error'', ''failed'', ''cancelled'']"

definition classify_tool_return ::
  "(pyval \<Rightarrow> string) \<Rightarrow> tool_result \<Rightarrow> (step_state \<times> string \<times> string) option" where
  "classify_tool_return rep result =
     (case result of
        ObjectResult a \<Rightarrow>
          (case pget a ''status'' of
             PStr status \<Rightarrow>
               (if dhas a ''run_id'' \<and> dhas a ''handle_id'' \<and> status \<noteq> ''complete''
                then Some (if status = ''cancelled'' then Cancelled else Failed,
                           py_str rep (py_or (pget a ''error_code'')
                             (PStr (if status \<noteq> [] then py_upper status else ''SOLVER_FAILED''))),
                           py_str rep (py_or (pget a ''error_message'')
                             (py_or (pget a ''cancellation_reason'') (PStr (''solver run '' @ status)))))
                else None)
           | _ \<Rightarrow> None)
      | DictResult d \<Rightarrow>
          (case pget d ''status'' of
             PStr status \<Rightarrow>
               (if List.member failed_dict_statuses (py_lower status)
                then Some (if py_lower status = ''cancelled'' then Cancelled else Failed,
                           py_str rep (py_or (pget d ''error_code'') (PStr (py_upper status))),
                           py_str rep (py_or (pget d ''error_message'') (py_or (pget d ''message'')
                             (py_or (pget d ''error'') (PStr (''tool reported '' @ status))))))
                else None)
           | _ \<Rightarrow> None)
      | _ \<Rightarrow> None)"

definition upstream_api_error :: exn_class where
  "upstream_api_error = Derived ''UpstreamAPIError'' (Derived ''FetchError'' ExcRuntimeError)"

definition classify_exception :: "(pyval \<Rightarrow> string) \<Rightarrow> py_exn \<Rightarrow> string \<times> string" where
  "classify_exception rep e =
     (let message = (if exc_text e \<noteq> [] then exc_text e else class_name (exc_class e));
          low = py_lower message in
      if isinstance e [upstream_api_error]
      then (''UPSTREAM_API_ERROR'', ''['' @ py_str rep (exn_attr e ''error_code'') @ ''] '' @ message)
      else if isinstance e [ExcValueError] \<and> contains ''bbox'' low then (''BBOX_INVALID'', message)
      else if isinstance e [ExcTimeoutError] then (''UPSTREAM_API_ERROR'', ''upstream timeout: '' @ message)
      else if isinstance e [ExcConnectionError] then (''UPSTREAM_API_ERROR'', message)
      else if isinstance e [ExcLookupError] \<and> contains ''geocode'' low then (''GEOCODE_NO_MATCH'', message)
      else if isinstance e [ExcKeyError] \<and> contains ''tool'' low then (''TOOL_NOT_FOUND'', message)
      else if isinstance e [ExcTypeError, ExcValueError] then (''TOOL_PARAMS_INVALID'', message)
      else (''INTERNAL_ERROR'', message))"

definition record_terminal :: "ulid \<Rightarrow> unit emitting" where
  "record_terminal sid =
     then_do (lifted (\<lambda>s. to_summary s sid)) (\<lambda>summary.
     updating (\<lambda>s. s\<lparr>es_last_step := Some summary, es_last_children := collect_children s sid\<rparr>))"

text \<open>The card of a tool that raised, before the exception is raised again.\<close>

definition card_on_error :: "ulid \<Rightarrow> py_exn \<Rightarrow> unit emitting" where
  "card_on_error sid e = depending (\<lambda>s.
     if isinstance e [ExcCancelled] \<or> (isinstance e [ExcException] \<and> py_truth (exn_attr e ''declined''))
     then then_do (mark_cancelled sid) (\<lambda>_. record_terminal sid)
     else if isinstance e [ExcException]
     then then_do (mark_failed sid (fst (classify_exception (es_repr s) e)) (snd (classify_exception (es_repr s) e)))
            (\<lambda>_. record_terminal sid)
     else returning ())"

text \<open>The card of a tool that returned.\<close>

definition card_on_return :: "ulid \<Rightarrow> tool_result \<Rightarrow> unit emitting" where
  "card_on_return sid result = depending (\<lambda>s.
     then_do (case classify_tool_return (es_repr s) result of
                None \<Rightarrow> mark_complete sid
              | Some (st, code, message) \<Rightarrow>
                  if st = Cancelled then mark_cancelled sid else mark_failed sid code message) (\<lambda>_.
     record_terminal sid))"

fun emit_items :: "layer_world \<Rightarrow> layer_uri option list \<Rightarrow> unit emitting" where
  "emit_items w [] = returning ()"
| "emit_items w (None # items) = emit_items w items"
| "emit_items w (Some layer # items) = then_do (emit_one_layer w layer) (\<lambda>_. emit_items w items)"

definition emit_result_layers :: "layer_world \<Rightarrow> tool_result \<Rightarrow> unit emitting" where
  "emit_result_layers w result =
     (case result of
        LayerResult layer \<Rightarrow> emit_one_layer w layer
      | ListResult items \<Rightarrow> emit_items w items
      | _ \<Rightarrow> returning ())"

definition dispatched_body ::
  "layer_world \<Rightarrow> ulid \<Rightarrow> tool_result emitting \<Rightarrow> tool_result emitting" where
  "dispatched_body w sid invoke =
     then_do (on_error invoke (\<lambda>e. then_do (card_on_error sid e) (\<lambda>_. raising e))) (\<lambda>result.
     then_do (card_on_return sid result) (\<lambda>_.
     then_do (emit_result_layers w result) (\<lambda>_.
     returning result)))"

text \<open>The task-local bindings are restored however the body ends.\<close>

definition with_bindings :: "ulid \<Rightarrow> string \<Rightarrow> 'a emitting \<Rightarrow> 'a emitting" where
  "with_bindings sid tool body s =
     (let (r, s') = body (s\<lparr>es_current := True, es_dispatched := Some tool, es_parent := Some sid\<rparr>)
      in (r, s'\<lparr>es_current := es_current s, es_dispatched := es_dispatched s, es_parent := es_parent s\<rparr>))"

definition emit_tool_call ::
  "layer_world \<Rightarrow> string \<Rightarrow> string \<Rightarrow> tool_result emitting \<Rightarrow> tool_result emitting" where
  "emit_tool_call w name tool invoke =
     then_do (add_step name tool) (\<lambda>sid.
     then_do (mark_running sid None) (\<lambda>_.
     then_do (updating (\<lambda>s. s\<lparr>es_last_children := []\<rparr>)) (\<lambda>_.
     with_bindings sid tool (dispatched_body w sid invoke))))"

text \<open>
  \<open>substep\<close>: the body of the \<open>async with\<close> is given the child's id, or \<open>None\<close> where no parent
  is bound.
\<close>

definition child_on_error :: "ulid \<Rightarrow> py_exn \<Rightarrow> unit emitting" where
  "child_on_error child e = depending (\<lambda>s.
     if isinstance e [ExcCancelled] then mark_cancelled child
     else if isinstance e [ExcException]
     then mark_failed child (fst (classify_exception (es_repr s) e)) (snd (classify_exception (es_repr s) e))
     else returning ())"

definition substep :: "string \<Rightarrow> (ulid option \<Rightarrow> 'a emitting) \<Rightarrow> 'a emitting" where
  "substep raw_name body = depending (\<lambda>s.
     case es_parent s of
       None \<Rightarrow> body None
     | Some parent \<Rightarrow>
         if \<not> dhas (es_steps s) parent then body None
         else
           then_do (add_step raw_name raw_name) (\<lambda>child.
           then_do (patch_step child (\<lambda>x. x\<lparr>st_parent := Some parent\<rparr>)) (\<lambda>_.
           then_do (patch_step parent (\<lambda>x. x\<lparr>st_started_count := st_started_count x + 1, st_label := Some raw_name,
                      st_index := Some (st_started_count x + 1)\<rparr>)) (\<lambda>_.
           then_do (mark_running child None) (\<lambda>_.
           then_do (on_error (body (Some child)) (\<lambda>e. then_do (child_on_error child e) (\<lambda>_. raising e))) (\<lambda>a.
           then_do (mark_complete child) (\<lambda>_.
           returning a)))))))"

definition seed_chat_history :: "pyval list \<Rightarrow> unit emitting" where
  "seed_chat_history history = updating (\<lambda>s. s\<lparr>es_chat := history\<rparr>)"

section \<open>Reading the actions\<close>

lemma dput_dput [simp]: "dput k v (dput k w d) = dput k v d"
  by (induction d) (auto simp: dput_def)

lemma collect_Inr: "(\<And>x. x \<in> set xs \<Longrightarrow> f x = Inr (g x)) \<Longrightarrow> collect f xs = Inr (map g xs)"
  by (induction xs) simp_all

lemma collect_InrD: "collect f xs = Inr ys \<Longrightarrow> map (\<lambda>x. f x) xs = map Inr ys"
  by (induction xs arbitrary: ys) (auto split: sum.splits)

definition wire_of :: "step \<Rightarrow> wire_step" where
  "wire_of x = step_fields.extend (step_fields.truncate x) (wire_step.fields (st_engine x) (st_module x))"

lemma wire_of_select [simp]:
  "st_id (wire_of x) = st_id x" "st_state (wire_of x) = st_state x"
  "st_error_code (wire_of x) = st_error_code x" "st_error_message (wire_of x) = st_error_message x"
  "fields_valid (wire_of x) = fields_valid x"
  by (simp_all add: wire_of_def step_fields.defs wire_step.defs fields_valid_def)

text \<open>A failure is named: a stripped code and sentence stand beside the state.\<close>

definition failure_named :: "'a step_fields_scheme \<Rightarrow> bool" where
  "failure_named x \<longleftrightarrow>
     (st_state x = Failed \<longrightarrow>
        opt_all (\<lambda>c. py_strip c \<noteq> []) (st_error_code x) \<and> st_error_code x \<noteq> None \<and>
        opt_all (\<lambda>m. py_strip m \<noteq> []) (st_error_message x) \<and> st_error_message x \<noteq> None)"

lemma wire_of_named [simp]: "failure_named (wire_of x) = failure_named x"
  by (simp add: failure_named_def)

definition step_ok :: "step \<Rightarrow> bool" where
  "step_ok x \<longleftrightarrow> fields_valid x \<and> failure_named x \<and> 0 \<le> st_started_count x"

definition wires_ok :: "wire_step list \<Rightarrow> bool" where
  "wires_ok ws \<longleftrightarrow> distinct (map st_id ws) \<and> list_all (\<lambda>w. fields_valid w \<and> failure_named w) ws"

definition frame_ok :: "frame \<Rightarrow> bool" where
  "frame_ok f = (case fr_body f of PipelineFrame pid ws \<Rightarrow> wires_ok ws | _ \<Rightarrow> True)"

definition cards_ok :: "emitter \<Rightarrow> bool" where
  "cards_ok s \<longleftrightarrow>
     distinct (es_order s) \<and> set (es_order s) = fst ` set (es_steps s) \<and>
     (\<forall>sid x. dget (es_steps s) sid = Some x \<longrightarrow> st_id x = sid \<and> sid < es_next_id s \<and> step_ok x) \<and>
     opt_all (\<lambda>p. wires_ok (snd p)) (es_terminal s) \<and>
     list_all frame_ok (es_sent s)"

lemma cards_ok_get: "cards_ok s \<Longrightarrow> sid \<in> set (es_order s) \<Longrightarrow> \<exists>x. dget (es_steps s) sid = Some x"
  by (cases "dget (es_steps s) sid") (auto simp: cards_ok_def dget_None_iff)

lemma cards_ok_in: "cards_ok s \<Longrightarrow> dget (es_steps s) sid = Some x \<Longrightarrow> sid \<in> set (es_order s)"
  by (auto simp: cards_ok_def dest!: dget_Some_in intro: rev_image_eqI)

definition wires_of :: "emitter \<Rightarrow> wire_step list" where
  "wires_of s = map (\<lambda>sid. wire_of (the (dget (es_steps s) sid))) (es_order s)"

lemma cards_wires:
  assumes "cards_ok s"
  shows "collect (to_wire_step s) (es_order s) = Inr (wires_of s)" and "wires_ok (wires_of s)"
proof -
  have get: "\<exists>x. dget (es_steps s) sid = Some x \<and> st_id x = sid \<and> step_ok x" if "sid \<in> set (es_order s)" for sid
    using cards_ok_get [OF assms that] assms by (auto simp: cards_ok_def)
  show "collect (to_wire_step s) (es_order s) = Inr (wires_of s)"
    unfolding wires_of_def
  proof (rule collect_Inr)
    fix sid assume "sid \<in> set (es_order s)"
    from get [OF this] show "to_wire_step s sid = Inr (wire_of (the (dget (es_steps s) sid)))"
      by (auto simp: to_wire_step_def wire_of_def step_ok_def)
  qed
  have "map st_id (wires_of s) = es_order s"
    using get by (force simp: wires_of_def intro!: map_idI)
  moreover have "list_all (\<lambda>w. fields_valid w \<and> failure_named w) (wires_of s)"
    using get by (fastforce simp: wires_of_def list_all_iff step_ok_def)
  ultimately show "wires_ok (wires_of s)"
    using assms by (simp add: wires_ok_def cards_ok_def)
qed

section \<open>What every operation keeps\<close>

text \<open>
  A property of the emitter that the primitive operations keep is kept by every operation,
  by tool bodies and sub-steps nested in each other included.
\<close>

definition benign :: "(step \<Rightarrow> step) \<Rightarrow> bool" where
  "benign f \<longleftrightarrow> (\<forall>x. step_ok x \<longrightarrow> step_ok (f x) \<and> st_id (f x) = st_id x)"

definition essence ::
  "emitter \<Rightarrow> (ulid, step) dict \<times> ulid list \<times> ulid \<times> (ulid \<times> wire_step list) option \<times> frame list \<times> layer_row list \<times> int" where
  "essence s = (es_steps s, es_order s, es_next_id s, es_terminal s, es_sent s, es_layers s, es_next_z s)"

locale emitter_kept =
  fixes P :: "emitter \<Rightarrow> bool"
  assumes frame_law: "essence s' = essence s \<Longrightarrow> P s \<Longrightarrow> P s'"
    and ulid_law: "keeps P new_ulid"
    and append_law: "keeps P (append_step name tool)"
    and clear_law: "P s \<Longrightarrow> P (s\<lparr>es_steps := [], es_order := []\<rparr>)"
    and patch_law: "benign f \<Longrightarrow> keeps P (patch_step sid f)"
    and fail_law: "named c m = Inr (code, sentence) \<Longrightarrow> keeps P (fail_step sid code sentence)"
    and emit_law: "keeps P (emit_pipeline_state terminal)"
    and send_law: "(\<And>pid ws. body \<noteq> PipelineFrame pid ws) \<Longrightarrow> keeps P (send body)"
    and rebind_law: "keeps P (then_do (rebind_sink loop sink)
                       (\<lambda>p. case p of None \<Rightarrow> returning () | Some q \<Rightarrow> send_pipeline_state q))"
    and place_law: "keeps P (place_row row)"
    and reset_law: "keeps P (reset_loaded_layers accepts layers)"
    and merge_law: "keeps P (merge_loaded_layers_from others)"
    and repatch_law: "P s \<Longrightarrow> i < length (es_layers s) \<Longrightarrow> lr_z row = lr_z (es_layers s ! i) \<Longrightarrow>
      P (s\<lparr>es_layers := (es_layers s)[i := row]\<rparr>)"
begin

lemma frame_kept: "(\<And>s. essence (f s) = essence s) \<Longrightarrow> keeps P (updating f)"
  using frame_law by (auto simp: keeps_def updating_def)

lemma now_kept: "keeps P now"
  using frame_law by (fastforce simp: keeps_def now_def essence_def)

lemma lifted_kept: "keeps P (lifted f)"
  by (simp add: keeps_def lifted_def)

lemma require_kept: "keeps P (require_step sid)"
  by (simp add: keeps_def require_step_def split: option.split)

lemma clear_kept: "(\<And>s. essence (f s) = essence (s\<lparr>es_steps := [], es_order := []\<rparr>)) \<Longrightarrow> keeps P (updating f)"
  using frame_law clear_law by (auto simp: keeps_def updating_def)

lemmas kept_rules = keeps_intros frame_kept now_kept lifted_kept require_kept ulid_law append_law
  emit_law place_law

lemma start_kept: "keeps P start_pipeline"
  unfolding start_pipeline_def
  by (intro kept_rules clear_kept) (simp_all add: essence_def)

lemma final_kept: "keeps P final_state"
  by (simp add: keeps_def final_state_def split: sum.split)

lemma snapshot_kept: "keeps P current_snapshot"
  unfolding current_snapshot_def by (intro kept_rules final_kept)

end

lemma elapsed_ms_nonneg: "opt_all (\<lambda>d. 0 \<le> d) (elapsed_ms a b)"
  by (auto simp: elapsed_ms_def round_thousandth_def Let_def pos_imp_zdiv_nonneg_iff split: option.split)

lemmas benign_simps = benign_def step_ok_def fields_valid_def failure_named_def

lemma benign_running: "benign (\<lambda>x. x\<lparr>st_state := Running\<rparr>)"
  "benign (\<lambda>x. x\<lparr>st_started := t\<rparr>)" "benign (\<lambda>x. x\<lparr>st_name := n\<rparr>)" "benign (\<lambda>x. x\<lparr>st_parent := p\<rparr>)"
  "benign (\<lambda>x. x\<lparr>st_card_message := m\<rparr>)"
  "benign (\<lambda>x. x\<lparr>st_role := r, st_batch_job := j, st_batch_status := b, st_engine := e, st_module := d\<rparr>)"
  by (simp_all add: benign_simps)

lemma benign_state: "st \<noteq> Failed \<Longrightarrow> benign (\<lambda>x. x\<lparr>st_state := st\<rparr>)"
  by (simp add: benign_simps)

lemma benign_progress: "0 \<le> p \<Longrightarrow> p \<le> 100 \<Longrightarrow> benign (\<lambda>x. x\<lparr>st_progress := Some p\<rparr>)"
  by (simp add: benign_simps)

lemma benign_plan: "benign (\<lambda>x. x\<lparr>st_total := (case planned of None \<Rightarrow> None | Some n \<Rightarrow> if 1 \<le> n then Some n else None)\<rparr>)"
  by (simp add: benign_simps split: option.split)

lemma benign_started: "benign (\<lambda>x. x\<lparr>st_started_count := st_started_count x + 1, st_label := l,
    st_index := Some (st_started_count x + 1)\<rparr>)"
  by (simp add: benign_simps)

lemma benign_terminal:
  "benign (\<lambda>x. let x1 = clear_parent_breadcrumb (x\<lparr>st_completed := Some t\<rparr>) in
               x1\<lparr>st_duration := elapsed_ms (st_started x1) (st_completed x1)\<rparr>)"
  by (simp add: benign_simps clear_parent_breadcrumb_def elapsed_ms_nonneg Let_def)

lemmas benign_rules = benign_running benign_plan benign_started benign_terminal

context emitter_kept
begin

lemma session_kept: "keeps P emit_session_state"
  unfolding emit_session_state_def by (intro kept_rules snapshot_kept send_law) simp

lemma close_kept: "keeps P close_pipeline"
  unfolding close_pipeline_def
  by (intro kept_rules snapshot_kept clear_kept) (simp_all add: essence_def)

lemma add_kept: "keeps P (add_step name tool)"
  unfolding add_step_def by (intro kept_rules start_kept)

lemma progress_kept: "keeps P (set_progress sid p)"
proof (cases "coerce_progress p")
  case (Inl e)
  then show ?thesis by (simp add: set_progress_def lifted_def keeps_def then_do_def)
next
  case (Inr q)
  then have "benign (\<lambda>x. x\<lparr>st_progress := Some q\<rparr>)"
    by (auto simp: coerce_progress_def split: if_splits intro: benign_progress)
  with Inr patch_law show ?thesis by (simp add: set_progress_def lifted_def keeps_def then_do_def)
qed

lemma running_kept: "keeps P (mark_running sid p)"
  unfolding mark_running_def by (intro kept_rules patch_law progress_kept benign_rules)

lemma update_kept: "keeps P (update_progress sid p)"
  unfolding update_progress_def by (intro kept_rules progress_kept)

lemma plan_kept: "keeps P (begin_substeps planned)"
  unfolding begin_substeps_def by (intro kept_rules patch_law benign_rules)

lemma terminal_kept: "st \<noteq> Failed \<Longrightarrow> keeps P (mark_terminal sid st)"
  unfolding mark_terminal_def by (intro kept_rules patch_law benign_rules benign_state)

lemma complete_kept: "keeps P (mark_complete sid)"
  unfolding mark_complete_def by (intro kept_rules terminal_kept) simp

lemma cancelled_kept: "keeps P (mark_cancelled sid)"
  unfolding mark_cancelled_def by (intro kept_rules terminal_kept) simp

lemma failed_kept: "keeps P (mark_failed sid c m)"
proof (cases "named c m")
  case (Inl e)
  then show ?thesis by (simp add: mark_failed_def lifted_def keeps_def then_do_def)
next
  case (Inr p)
  obtain code sentence where p: "p = (code, sentence)" by (cases p)
  from Inr p have "keeps P (then_do (fail_step sid code sentence) (\<lambda>_. emit_pipeline_state True))"
    by (intro kept_rules) (rule fail_law, simp)
  with Inr p show ?thesis by (simp add: mark_failed_def lifted_def keeps_def then_do_def)
qed

lemma compute_kept: "keeps P (add_compute_step n t j b e m)"
  unfolding add_compute_step_def by (intro kept_rules add_kept patch_law running_kept benign_rules)

lemma durable_kept: "keeps P (add_durable_step n t)"
  unfolding add_durable_step_def by (intro kept_rules add_kept patch_law running_kept benign_rules)

lemma rename_kept: "keeps P (rename_step sid n)"
  unfolding rename_step_def by (intro patch_law benign_rules)

lemma swallow_kept: "keeps P (swallow e)"
  unfolding swallow_def by (intro kept_rules)

lemma persist_kept: "keeps P (persist_step_card sid states)"
  unfolding persist_step_card_def Let_def
  by (intro kept_rules swallow_kept) (simp add: essence_def)

lemma layer_kept: "keeps P (add_loaded_layer layer)"
  unfolding add_loaded_layer_def observe_row_def emit_map_command_def
  by (intro kept_rules session_kept send_law) (simp_all add: essence_def)

lemma visible_kept: "keeps P (set_layer_visible lid v)" "keeps P (set_layer_name lid n)"
proof -
  have patch: "keeps P (patch_layer lid f)" if z: "\<And>r. lr_z (f r) = lr_z r" for f
  proof -
    have "P (s\<lparr>es_layers := (es_layers s)[i := f (es_layers s ! i)]\<rparr>)" if "P s" for i s
      using repatch_law [OF that, of i "f (es_layers s ! i)"] z that
      by (cases "i < length (es_layers s)") (auto intro: frame_law [OF _ that] simp: essence_def list_update_beyond)
    then have upd: "keeps P (updating (\<lambda>s. s\<lparr>es_layers := (es_layers s)[i := f (es_layers s ! i)]\<rparr>))" for i
      by (rule keeps_updating)
    show ?thesis unfolding patch_layer_def by (intro keeps_intros upd session_kept)
  qed
  show "keeps P (set_layer_visible lid v)" "keeps P (set_layer_name lid n)"
    unfolding set_layer_visible_def set_layer_name_def by (rule patch, simp)+
qed

lemma chart_kept: "keeps P (emit_chart chart)"
  unfolding emit_chart_def Let_def
  by (intro kept_rules send_law swallow_kept) (simp_all add: essence_def)

lemma seed_kept: "keeps P (seed_chat_history h)"
  unfolding seed_chat_history_def by (intro kept_rules) (simp add: essence_def)

end

definition new_emitter ::
  "string \<Rightarrow> (frame \<Rightarrow> py_exn option) \<Rightarrow> (pyval \<Rightarrow> py_exn option) option \<Rightarrow> (card_row \<Rightarrow> py_exn option) option
     \<Rightarrow> pyval list \<Rightarrow> pyval list \<Rightarrow> pyval \<Rightarrow> emitter \<Rightarrow> emitter" where
  "new_emitter session sink chart_persist card_persist chat history map_view world =
     world\<lparr>es_session := session, es_sink := sink, es_chart_persist := chart_persist,
       es_card_persist := card_persist, es_pipeline := None, es_pipeline_started := None, es_steps := [],
       es_order := [], es_chat := chat, es_history := map Seeded history, es_map_view := map_view,
       es_layers := [], es_next_z := 0, es_last_step := None, es_last_children := [], es_parent := None,
       es_terminal := None, es_sent := [], es_charts := [], es_cards := []\<rparr>"

section \<open>Runs of an emitter\<close>

text \<open>
  What a session does with its emitter: operations, and tool calls and sub-steps whose
  bodies are operations again, ending in an outcome of their own.
\<close>

datatype card_op =
    OpSeed "pyval list" | OpStart | OpClose
  | OpAdd string string | OpRunning ulid "int option" | OpProgress ulid int | OpPlan "int option"
  | OpCompute string string string "string option" "string option" "string option"
  | OpDurable string string | OpRename ulid string
  | OpComplete ulid | OpFailed ulid string string | OpCancelled ulid
  | OpPersist ulid "step_state list"
  | OpLayer layer_uri | OpVisible string bool | OpName string string
  | OpReset "pyval list" | OpMerge "layer_row list"
  | OpSession | OpChart pyval | OpRebind bool "frame \<Rightarrow> py_exn option"
  | OpSubstep string "card_op list" "py_exn option"
  | OpToolCall string string "card_op list" "py_exn + tool_result"

record card_env =
  ce_world :: layer_world
  ce_accepts :: "(string, pyval) dict \<Rightarrow> layer_row option"

definition discard :: "'a emitting \<Rightarrow> unit emitting" where
  "discard m = then_do m (\<lambda>_. returning ())"

definition replay :: "bool \<Rightarrow> (frame \<Rightarrow> py_exn option) \<Rightarrow> unit emitting" where
  "replay loop sink =
     then_do (rebind_sink loop sink) (\<lambda>p. case p of None \<Rightarrow> returning () | Some q \<Rightarrow> send_pipeline_state q)"

fun card_act :: "card_env \<Rightarrow> card_op \<Rightarrow> unit emitting"
  and card_acts :: "card_env \<Rightarrow> card_op list \<Rightarrow> unit emitting" where
  "card_act env (OpSeed h) = seed_chat_history h"
| "card_act env OpStart = discard start_pipeline"
| "card_act env OpClose = close_pipeline"
| "card_act env (OpAdd n t) = discard (add_step n t)"
| "card_act env (OpRunning sid p) = mark_running sid p"
| "card_act env (OpProgress sid p) = update_progress sid p"
| "card_act env (OpPlan n) = begin_substeps n"
| "card_act env (OpCompute n t j b e m) = discard (add_compute_step n t j b e m)"
| "card_act env (OpDurable n t) = discard (add_durable_step n t)"
| "card_act env (OpRename sid n) = rename_step sid n"
| "card_act env (OpComplete sid) = mark_complete sid"
| "card_act env (OpFailed sid c m) = mark_failed sid c m"
| "card_act env (OpCancelled sid) = mark_cancelled sid"
| "card_act env (OpPersist sid states) = persist_step_card sid states"
| "card_act env (OpLayer l) = add_loaded_layer l"
| "card_act env (OpVisible l v) = discard (set_layer_visible l v)"
| "card_act env (OpName l n) = discard (set_layer_name l n)"
| "card_act env (OpReset ls) = reset_loaded_layers (ce_accepts env) ls"
| "card_act env (OpMerge rs) = discard (merge_loaded_layers_from rs)"
| "card_act env OpSession = emit_session_state"
| "card_act env (OpChart c) = emit_chart c"
| "card_act env (OpRebind loop sink) = replay loop sink"
| "card_act env (OpSubstep n ops e) =
     substep n (\<lambda>_. then_do (card_acts env ops) (\<lambda>_. case e of None \<Rightarrow> returning () | Some x \<Rightarrow> raising x))"
| "card_act env (OpToolCall n t ops r) =
     discard (emit_tool_call (ce_world env) n t
       (then_do (card_acts env ops) (\<lambda>_. case r of Inl x \<Rightarrow> raising x | Inr v \<Rightarrow> returning v)))"
| "card_acts env [] = returning ()"
| "card_acts env (x # xs) = then_do (card_act env x) (\<lambda>_. card_acts env xs)"

definition card_step :: "card_env \<Rightarrow> card_op \<Rightarrow> emitter \<Rightarrow> emitter" where
  "card_step env op s = snd (card_act env op s)"

context emitter_kept
begin

lemma record_kept: "keeps P (record_terminal sid)"
  unfolding record_terminal_def by (intro kept_rules) (simp add: essence_def)

lemma substep_kept:
  assumes "\<And>child. keeps P (body child)"
  shows "keeps P (substep n body)"
  unfolding substep_def child_on_error_def
  by (intro kept_rules assms add_kept patch_law benign_rules running_kept cancelled_kept failed_kept complete_kept)

lemma one_layer_kept: "keeps P (emit_one_layer w layer)"
  unfolding emit_one_layer_def by (intro kept_rules layer_kept)

lemma items_kept: "keeps P (emit_items w items)"
  by (induction w items rule: emit_items.induct) (auto intro!: kept_rules one_layer_kept)

lemma return_kept: "keeps P (card_on_return sid result)"
  unfolding card_on_return_def
  by (intro kept_rules record_kept complete_kept)
     (auto split: prod.split intro: cancelled_kept failed_kept)

lemma with_kept:
  assumes "keeps P body"
  shows "keeps P (with_bindings sid tool body)"
proof -
  have "P (s'\<lparr>es_current := c, es_dispatched := d, es_parent := p\<rparr>)" if "P s'" for s' c d p
    using that by (rule frame_law [rotated]) (simp add: essence_def)
  with keepsD [OF assms] show ?thesis
    by (auto simp: keeps_def with_bindings_def split_beta)
qed

lemma tool_call_kept:
  assumes "keeps P invoke"
  shows "keeps P (emit_tool_call w n t invoke)"
proof -
  have "keeps P (emit_result_layers w r)" for r
    by (cases r) (auto simp: emit_result_layers_def intro: kept_rules one_layer_kept items_kept)
  then show ?thesis
    unfolding emit_tool_call_def dispatched_body_def card_on_error_def
    by (intro kept_rules assms add_kept running_kept with_kept cancelled_kept failed_kept record_kept return_kept)
       (simp_all add: essence_def)
qed

lemma act_kept: "keeps P (card_act env op)" "keeps P (card_acts env ops)"
proof (induction env op and env ops rule: card_act_card_acts.induct)
qed (auto simp: discard_def replay_def rebind_law simp del: not_None_eq
     intro!: kept_rules seed_kept start_kept close_kept add_kept running_kept update_kept
       plan_kept compute_kept durable_kept rename_kept complete_kept failed_kept cancelled_kept persist_kept
       layer_kept visible_kept session_kept chart_kept substep_kept tool_call_kept reset_law merge_law
     split: sum.split)

lemma step_kept: "P s \<Longrightarrow> P (card_step env op s)"
  unfolding card_step_def by (rule keepsD [OF act_kept(1)])

end

section \<open>The cards of a session\<close>

lemma cards_ok_frame: "essence s' = essence s \<Longrightarrow> cards_ok s \<Longrightarrow> cards_ok s'"
  by (simp add: cards_ok_def essence_def)

lemma cards_ok_patched:
  assumes "cards_ok s" and "dget (es_steps s) sid = Some x" and "step_ok y" and "st_id y = st_id x"
  shows "cards_ok (s\<lparr>es_steps := dput sid y (es_steps s)\<rparr>)"
proof -
  have "fst ` set (dput sid y (es_steps s)) = fst ` set (es_steps s)"
    using assms(2) dput_keys [of sid y "es_steps s"] by (metis dkeys_def list.set_map option.simps(3))
  with assms show ?thesis by (auto simp: cards_ok_def)
qed

lemma cards_patch: "benign f \<Longrightarrow> keeps cards_ok (patch_step sid f)"
proof -
  assume f: "benign f"
  have "cards_ok (s\<lparr>es_steps := (case dget (es_steps s) sid of None \<Rightarrow> es_steps s | Some x \<Rightarrow> dput sid (f x) (es_steps s))\<rparr>)"
    if "cards_ok s" for s
  proof (cases "dget (es_steps s) sid")
    case None
    then show ?thesis using that by (simp add: cards_ok_def)
  next
    case (Some x)
    with that have "step_ok x" by (simp add: cards_ok_def)
    with f have "step_ok (f x)" "st_id (f x) = st_id x" by (simp_all add: benign_def)
    with cards_ok_patched [OF that Some] Some show ?thesis by simp
  qed
  then show ?thesis unfolding patch_step_def by (rule keeps_updating)
qed

lemma cards_send:
  assumes "\<And>pid ws. body = PipelineFrame pid ws \<Longrightarrow> wires_ok ws"
  shows "keeps cards_ok (send body)"
proof -
  have "frame_ok \<lparr>fr_session = a, fr_case = b, fr_body = body\<rparr>" for a b
    using assms by (cases body) (simp_all add: frame_ok_def)
  then show ?thesis by (auto simp: keeps_def send_def Let_def cards_ok_def split: option.split)
qed

lemma cards_send_pipeline:
  assumes "wires_ok (snd p)"
  shows "keeps cards_ok (send_pipeline_state p)"
  unfolding send_pipeline_state_def using assms by (intro keeps_intros cards_send) simp

lemma cards_emit: "keeps cards_ok (emit_pipeline_state terminal)"
proof -
  have "cards_ok (snd (emit_pipeline_state terminal s))" if s: "cards_ok s" for s
  proof (cases "es_pipeline s")
    case None
    with s show ?thesis by (simp add: emit_pipeline_state_def)
  next
    case (Some pid)
    have "cards_ok (if terminal then s\<lparr>es_terminal := Some (pid, wires_of s)\<rparr> else s)"
      using s cards_wires(2) [OF s] by (simp add: cards_ok_def)
    with Some cards_wires [OF s] show ?thesis
      by (simp only: emit_pipeline_state_def option.case sum.case)
         (rule keepsD [OF cards_send_pipeline], simp)
  qed
  then show ?thesis by (simp add: keeps_def)
qed

definition failed_step :: "string \<Rightarrow> string \<Rightarrow> int \<Rightarrow> step \<Rightarrow> step" where
  "failed_step code sentence t x =
     x\<lparr>st_state := Failed, st_completed := Some t, st_label := None, st_index := None, st_total := None,
       st_duration := elapsed_ms (st_started x) (Some t), st_error_code := Some code,
       st_error_message := Some (truncate_message sentence)\<rparr>"

lemma fail_step_known:
  "dget (es_steps s) sid = Some x \<Longrightarrow>
   fail_step sid code sentence s =
     (Inr (), s\<lparr>es_reads := Suc (es_reads s),
                es_steps := dput sid (failed_step code sentence (es_clock s (es_reads s)) x) (es_steps s)\<rparr>)"
  by (simp add: fail_step_def mark_terminal_def act_defs require_step_def patch_step_def now_def
      failed_step_def clear_parent_breadcrumb_def Let_def)

lemma fail_step_unknown:
  "dget (es_steps s) sid = None \<Longrightarrow> fail_step sid code sentence s = (Inl step_not_found, s)"
  by (simp add: fail_step_def mark_terminal_def act_defs require_step_def)

lemma named_strips:
  assumes "named c m = Inr (code, sentence)"
  shows "py_strip code \<noteq> []" and "py_strip (truncate_message sentence) \<noteq> []"
proof -
  have code: "code = py_strip c" "code \<noteq> []" and sent: "sentence = py_strip m" "sentence \<noteq> []"
    using assms by (auto simp: named_def Let_def split: if_splits)
  then show "py_strip code \<noteq> []"
    using py_strip_hd [of c] by (cases "py_strip c") (auto simp: py_strip_Nil_iff)
  obtain h t where ht: "sentence = h # t" "\<not> is_space h"
    using sent py_strip_hd [of m] by (cases "py_strip m") auto
  then have "h \<in> set (truncate_message sentence)"
    by (simp add: truncate_message_def error_message_max_len_def take_Cons')
  with ht(2) show "py_strip (truncate_message sentence) \<noteq> []"
    by (auto simp: py_strip_Nil_iff)
qed

lemma cards_fail:
  assumes "named c m = Inr (code, sentence)"
  shows "keeps cards_ok (fail_step sid code sentence)"
proof -
  have "cards_ok (snd (fail_step sid code sentence s))" if s: "cards_ok s" for s
  proof (cases "dget (es_steps s) sid")
    case None
    with s show ?thesis by (simp add: fail_step_unknown)
  next
    case (Some x)
    let ?y = "failed_step code sentence (es_clock s (es_reads s)) x"
    from s Some have "step_ok x" by (simp add: cards_ok_def)
    then have "step_ok ?y"
      using named_strips [OF assms]
      by (simp add: step_ok_def failed_step_def fields_valid_def failure_named_def elapsed_ms_nonneg
          truncate_message_def error_message_max_len_def)
    with cards_ok_patched [OF s Some, of ?y]
    have "cards_ok (s\<lparr>es_steps := dput sid ?y (es_steps s)\<rparr>)" by (simp add: failed_step_def)
    then have "cards_ok (s\<lparr>es_reads := Suc (es_reads s), es_steps := dput sid ?y (es_steps s)\<rparr>)"
      by (rule cards_ok_frame [rotated]) (simp add: essence_def)
    then show ?thesis by (simp add: fail_step_known [OF Some])
  qed
  then show ?thesis by (simp add: keeps_def)
qed

lemma cards_append: "keeps cards_ok (append_step name tool)"
proof -
  have "cards_ok (snd (append_step name tool s))" if s: "cards_ok s" for s
  proof -
    let ?i = "es_next_id s"
    have new: "dget (es_steps s) ?i = None"
      using s by (cases "dget (es_steps s) ?i") (auto simp: cards_ok_def)
    moreover have "step_ok (new_step ?i name tool)"
      by (simp add: step_ok_def new_step_def fields_valid_def failure_named_def)
    moreover have "st_id (new_step ?i name tool) = ?i" by (simp add: new_step_def)
    moreover from new s have "?i \<notin> set (es_order s)" by (simp add: cards_ok_def dget_None_iff)
    moreover from new have "fst ` set (dput ?i v (es_steps s)) = insert ?i (fst ` set (es_steps s))" for v
      by (auto simp: dput_new)
    ultimately show ?thesis
      using s by (simp add: append_step_def act_defs new_ulid_def cards_ok_def less_Suc_eq)
  qed
  then show ?thesis by (simp add: keeps_def)
qed

lemma cards_rebind:
  "keeps cards_ok (then_do (rebind_sink loop sink)
     (\<lambda>p. case p of None \<Rightarrow> returning () | Some q \<Rightarrow> send_pipeline_state q))"
proof -
  have "cards_ok (snd (then_do (rebind_sink loop sink)
     (\<lambda>p. case p of None \<Rightarrow> returning () | Some q \<Rightarrow> send_pipeline_state q) s))" if s: "cards_ok s" for s
  proof -
    let ?s = "s\<lparr>es_sink := sink\<rparr>"
    have ok: "cards_ok ?s" using s by (rule cards_ok_frame [rotated]) (simp add: essence_def)
    have "\<exists>r. rebind_sink loop sink s = (Inr r, ?s) \<and> opt_all (\<lambda>p. wires_ok (snd p)) r"
    proof (cases "loop \<and> es_pipeline ?s \<noteq> None \<and> es_order ?s \<noteq> []")
      case True
      then obtain pid sid sids where "es_pipeline ?s = Some pid" "es_order ?s = sid # sids" "loop"
        by (auto simp: neq_Nil_conv)
      then show ?thesis
        using cards_wires [OF ok] by (simp add: rebind_sink_def Let_def)
    next
      case False
      have "opt_all (\<lambda>p. wires_ok (snd p)) (es_terminal ?s)" using ok by (simp add: cards_ok_def)
      with False show ?thesis
        by (cases "es_pipeline ?s"; cases "es_order ?s") (auto simp: rebind_sink_def Let_def)
    qed
    then obtain r where r: "rebind_sink loop sink s = (Inr r, ?s)" "opt_all (\<lambda>p. wires_ok (snd p)) r" by blast
    then show ?thesis
      using ok keepsD [OF cards_send_pipeline ok] by (cases r) (simp_all add: act_defs)
  qed
  then show ?thesis by (simp add: keeps_def)
qed

interpretation cards: emitter_kept cards_ok
proof unfold_locales
  show "\<And>s' s. essence s' = essence s \<Longrightarrow> cards_ok s \<Longrightarrow> cards_ok s'" by (rule cards_ok_frame)
  show "keeps cards_ok new_ulid" by (auto simp: keeps_def new_ulid_def cards_ok_def less_SucI)
  show "\<And>name tool. keeps cards_ok (append_step name tool)" by (rule cards_append)
  show "\<And>s. cards_ok s \<Longrightarrow> cards_ok (s\<lparr>es_steps := [], es_order := []\<rparr>)" by (simp add: cards_ok_def)
  show "\<And>f sid. benign f \<Longrightarrow> keeps cards_ok (patch_step sid f)" by (rule cards_patch)
  show "\<And>c m code sentence sid. named c m = Inr (code, sentence) \<Longrightarrow> keeps cards_ok (fail_step sid code sentence)"
    by (rule cards_fail)
  show "\<And>terminal. keeps cards_ok (emit_pipeline_state terminal)" by (rule cards_emit)
  show "\<And>body. (\<And>pid ws. body \<noteq> PipelineFrame pid ws) \<Longrightarrow> keeps cards_ok (send body)"
    by (rule cards_send) blast
  show "\<And>loop sink. keeps cards_ok (then_do (rebind_sink loop sink)
      (\<lambda>p. case p of None \<Rightarrow> returning () | Some q \<Rightarrow> send_pipeline_state q))" by (rule cards_rebind)
  have layers: "cards_ok (s\<lparr>es_layers := ls, es_next_z := z\<rparr>)" "cards_ok (s\<lparr>es_layers := ls\<rparr>)"
    "cards_ok (s\<lparr>es_next_z := z\<rparr>)" if "cards_ok s" for s ls z
    using that by (simp_all add: cards_ok_def)
  show "\<And>row. keeps cards_ok (place_row row)"
    unfolding place_row_def
    by (intro keeps_intros keeps_updating layers) (auto simp: keeps_def alloc_z_def intro: layers)
  show "\<And>accepts ls. keeps cards_ok (reset_loaded_layers accepts ls)"
    unfolding reset_loaded_layers_def by (rule keeps_updating) (simp add: Let_def layers)
  show "\<And>s i row. cards_ok s \<Longrightarrow> cards_ok (s\<lparr>es_layers := (es_layers s)[i := row]\<rparr>)"
    by (rule layers)
  show "keeps cards_ok (merge_loaded_layers_from others)" for others
  proof -
    have "cards_ok (snd (fold merge_row others (acc, s)))" if "cards_ok s" for acc s
      using that
    proof (induction others arbitrary: acc s)
      case (Cons r rs)
      have "cards_ok (snd (merge_row r (acc, s)))"
        using Cons.prems by (auto simp: merge_row_def Let_def layers split: option.split prod.split)
      with Cons.IH [of "snd (merge_row r (acc, s))" "fst (merge_row r (acc, s))"] show ?case by simp
    qed simp
    then show ?thesis by (auto simp: keeps_def merge_loaded_layers_from_def Let_def split_beta)
  qed
qed

section \<open>The stack of layers\<close>

text \<open>Every slot in use is below the counter.\<close>

definition slots_ok :: "emitter \<Rightarrow> bool" where
  "slots_ok s \<longleftrightarrow> list_all (\<lambda>r. opt_all (\<lambda>z. z < es_next_z s) (lr_z r)) (es_layers s)"

lemma opt_all_iff: "opt_all P v \<longleftrightarrow> (\<forall>x. v = Some x \<longrightarrow> P x)"
  by (cases v) simp_all

lemma opt_all_mono: "opt_all P v \<Longrightarrow> (\<And>x. P x \<Longrightarrow> Q x) \<Longrightarrow> opt_all Q v"
  by (cases v) simp_all

lemma slots_same:
  "(\<And>s. es_layers (snd (m s)) = es_layers s \<and> es_next_z (snd (m s)) = es_next_z s) \<Longrightarrow> keeps slots_ok m"
  by (simp add: keeps_def slots_ok_def)

lemma slots_grow: "slots_ok s \<Longrightarrow> es_next_z s \<le> z \<Longrightarrow> list_all (\<lambda>r. opt_all (\<lambda>k. k < z) (lr_z r)) (es_layers s)"
  unfolding slots_ok_def by (erule list.pred_mono_strong) (auto elim: opt_all_mono)

lemma send_stack [simp]:
  "es_layers (snd (send b s)) = es_layers s" "es_next_z (snd (send b s)) = es_next_z s"
  by (simp_all add: send_def Let_def split: option.split)

lemma send_pipeline_stack [simp]:
  "es_layers (snd (send_pipeline_state p s)) = es_layers s" "es_next_z (snd (send_pipeline_state p s)) = es_next_z s"
proof -
  obtain r s1 where e: "send (PipelineFrame (fst p) (snd p)) s = (r, s1)" by (metis surj_pair)
  have "es_layers s1 = es_layers s" "es_next_z s1 = es_next_z s"
    using send_stack [of "PipelineFrame (fst p) (snd p)" s] e by simp_all
  with e show "es_layers (snd (send_pipeline_state p s)) = es_layers s"
    "es_next_z (snd (send_pipeline_state p s)) = es_next_z s"
    by (simp_all add: send_pipeline_state_def act_defs split: sum.split)
qed

lemma emit_stack [simp]:
  "es_layers (snd (emit_pipeline_state t s)) = es_layers s" "es_next_z (snd (emit_pipeline_state t s)) = es_next_z s"
  by (simp_all add: emit_pipeline_state_def split: option.split sum.split)

lemma list_all_update: "list_all P xs \<Longrightarrow> P x \<Longrightarrow> list_all P (xs[i := x])"
  by (auto simp: list_all_iff dest!: set_update_subset_insert [THEN subsetD])

lemma slots_place: "keeps slots_ok (place_row row)"
proof -
  have "slots_ok (snd (place_row row s))" if s: "slots_ok s" for s
  proof (cases "find_index (\<lambda>r. same_paint r row) (es_layers s)")
    case None
    then show ?thesis
      using slots_grow [OF s, of "es_next_z s + 1"]
      by (simp add: place_row_def act_defs alloc_z_def) (simp add: slots_ok_def)
  next
    case (Some i)
    then have i: "i < length (es_layers s)" by (auto dest: find_index_less)
    show ?thesis
    proof (cases "lr_z (es_layers s ! i)")
      case None
      then show ?thesis
        using Some slots_grow [OF s, of "es_next_z s + 1"]
        by (simp add: place_row_def act_defs alloc_z_def) (simp add: slots_ok_def list_all_update)
    next
      case (Some z)
      with i s have "z < es_next_z s" by (fastforce simp: slots_ok_def list_all_length)
      with \<open>find_index _ _ = Some i\<close> Some s show ?thesis
        by (simp add: place_row_def act_defs) (simp add: slots_ok_def list_all_update)
    qed
  qed
  then show ?thesis by (simp add: keeps_def)
qed

lemma slots_merge: "slots_ok s \<Longrightarrow> slots_ok (snd (fold merge_row others (acc, s)))"
proof (induction others arbitrary: acc s)
  case (Cons r rs)
  have "slots_ok (snd (merge_row r (acc, s)))"
  proof (cases "lr_z r")
    case None
    then show ?thesis
      using slots_grow [OF Cons.prems, of "es_next_z s + 1"] Cons.prems
      by (auto simp: merge_row_def Let_def slots_ok_def split: prod.split)
  next
    case (Some z)
    then show ?thesis
      using slots_grow [OF Cons.prems, of "max (es_next_z s) (z + 1)"] Cons.prems
      by (auto simp: merge_row_def Let_def slots_ok_def split: prod.split)
  qed
  with Cons.IH [of "snd (merge_row r (acc, s))" "fst (merge_row r (acc, s))"] show ?case by simp
qed simp

lemma slots_seeded:
  "slots_ok (s\<lparr>es_layers := [], es_next_z := 0\<rparr>)"
  "slots_ok (s\<lparr>es_layers := rows, es_next_z := (if List.map_filter lr_z rows = [] then 0
                                             else Max (set (List.map_filter lr_z rows)) + 1)\<rparr>)"
proof -
  have "z < Max (set (List.map_filter lr_z rows)) + 1" "List.map_filter lr_z rows \<noteq> []"
    if "r \<in> set rows" "lr_z r = Some z" for r z
  proof -
    have z: "z \<in> set (List.map_filter lr_z rows)"
      using that by (auto simp: map_filter_def intro!: rev_image_eqI)
    then show "List.map_filter lr_z rows \<noteq> []" by auto
    from Max_ge [OF _ z] show "z < Max (set (List.map_filter lr_z rows)) + 1" by simp
  qed
  then show "slots_ok (s\<lparr>es_layers := [], es_next_z := 0\<rparr>)"
    "slots_ok (s\<lparr>es_layers := rows, es_next_z := (if List.map_filter lr_z rows = [] then 0
                                             else Max (set (List.map_filter lr_z rows)) + 1)\<rparr>)"
    by (auto simp: slots_ok_def list_all_iff opt_all_iff)
qed

lemma rebind_stack:
  "rebind_sink loop sink s = (r, s') \<Longrightarrow> es_layers s' = es_layers s \<and> es_next_z s' = es_next_z s"
  by (auto simp: rebind_sink_def Let_def split: if_splits option.splits list.splits sum.splits)

interpretation slots: emitter_kept slots_ok
proof unfold_locales
  show "\<And>s' s. essence s' = essence s \<Longrightarrow> slots_ok s \<Longrightarrow> slots_ok s'" by (simp add: slots_ok_def essence_def)
  show "keeps slots_ok new_ulid" "\<And>name tool. keeps slots_ok (append_step name tool)"
    by (rule slots_same, simp add: new_ulid_def append_step_def act_defs)+
  show "\<And>s. slots_ok s \<Longrightarrow> slots_ok (s\<lparr>es_steps := [], es_order := []\<rparr>)" by (simp add: slots_ok_def)
  show "\<And>f sid. keeps slots_ok (patch_step sid f)"
    by (rule slots_same) (simp add: patch_step_def act_defs)
  show "\<And>c m code sentence sid. keeps slots_ok (fail_step sid code sentence)"
    by (rule slots_same) (simp add: fail_step_def mark_terminal_def patch_step_def require_step_def now_def act_defs
        split: option.split)
  show "\<And>terminal. keeps slots_ok (emit_pipeline_state terminal)" "\<And>body. keeps slots_ok (send body)"
    by (rule slots_same, simp)+
  show "\<And>row. keeps slots_ok (place_row row)" by (rule slots_place)
  show "\<And>s i row. slots_ok s \<Longrightarrow> i < length (es_layers s) \<Longrightarrow> lr_z row = lr_z (es_layers s ! i) \<Longrightarrow>
      slots_ok (s\<lparr>es_layers := (es_layers s)[i := row]\<rparr>)"
    by (auto simp: slots_ok_def intro!: list_all_update) (simp add: list_all_length)
  show "keeps slots_ok (merge_loaded_layers_from others)" for others
    using slots_merge by (auto simp: keeps_def merge_loaded_layers_from_def Let_def split_beta)
  show "keeps slots_ok (reset_loaded_layers accepts layers)" for accepts layers
    unfolding reset_loaded_layers_def by (intro keeps_updating) (simp add: slots_seeded Let_def)
  show "keeps slots_ok (then_do (rebind_sink loop sink)
     (\<lambda>p. case p of None \<Rightarrow> returning () | Some q \<Rightarrow> send_pipeline_state q))" for loop sink
    by (rule slots_same) (simp add: then_do_def rebind_stack returning_def split: prod.split sum.split option.split)
qed

section \<open>Properties of a session's cards\<close>

interpretation card_runs: kept_invariant "\<lambda>s. s = new_emitter session sink cp kp chat history view world"
    "card_step env" cards_ok
  for session sink cp kp chat history view world env
proof unfold_locales
  fix s :: emitter assume "s = new_emitter session sink cp kp chat history view world"
  then show "cards_ok s" by (simp add: new_emitter_def cards_ok_def)
qed (rule cards.step_kept)

interpretation slot_runs: kept_invariant "\<lambda>s. s = new_emitter session sink cp kp chat history view world"
    "card_step env" slots_ok
  for session sink cp kp chat history view world env
proof unfold_locales
  fix s :: emitter assume "s = new_emitter session sink cp kp chat history view world"
  then show "slots_ok s" by (simp add: new_emitter_def slots_ok_def)
qed (rule slots.step_kept)

lemma cards_named: "cards_ok s \<Longrightarrow> name_failures s = Inr ()"
proof -
  assume s: "cards_ok s"
  let ?f = "\<lambda>sid. case dget (es_steps s) sid of
              None \<Rightarrow> Inl key_error
            | Some x \<Rightarrow>
                if st_state x \<noteq> Failed then Inr ()
                else (case named (case st_error_code x of None \<Rightarrow> [] | Some c \<Rightarrow> c)
                                 (case st_error_message x of None \<Rightarrow> [] | Some m \<Rightarrow> m) of
                        Inl e \<Rightarrow> Inl e | Inr _ \<Rightarrow> Inr ())"
  have "?f sid = Inr ()" if in_order: "sid \<in> set (es_order s)" for sid
  proof -
    from cards_ok_get [OF s in_order] obtain x where x: "dget (es_steps s) sid = Some x" by blast
    with s have "failure_named x" by (auto simp: cards_ok_def step_ok_def)
    with x show ?thesis by (auto simp: failure_named_def named_def Let_def)
  qed
  then have "collect ?f (es_order s) = Inr (map (\<lambda>_. ()) (es_order s))" by (rule collect_Inr)
  then show ?thesis by (simp add: name_failures_def)
qed


text \<open>
  in any session a layer that paints what no row paints takes a slot above every slot in
  use; one that repaints a row replaces it in place and keeps its slot, and no other row moves.
\<close>

theorem layer_slots:
  "let s = run_ops (card_step env) ops (new_emitter session sink cp kp chat history view world);
       s' = snd (place_row row s)
   in case find_index (\<lambda>r. same_paint r row) (es_layers s) of
        None \<Rightarrow> es_layers s' = es_layers s @ [row\<lparr>lr_z := Some (es_next_z s)\<rparr>] \<and>
                list_all (\<lambda>r. opt_all (\<lambda>z. z < es_next_z s) (lr_z r)) (es_layers s)
      | Some i \<Rightarrow> \<exists>z. es_layers s' = (es_layers s)[i := row\<lparr>lr_z := Some z\<rparr>] \<and>
                z = (case lr_z (es_layers s ! i) of None \<Rightarrow> es_next_z s | Some k \<Rightarrow> k)"
proof -
  let ?s = "run_ops (card_step env) ops (new_emitter session sink cp kp chat history view world)"
  have "slots_ok ?s" by (rule slot_runs.inv_reached) (rule refl)
  then show ?thesis
    by (auto simp: Let_def place_row_def act_defs alloc_z_def slots_ok_def split: option.split)
qed

text \<open>
  merging the rows of another emitter keeps one row of each uri: of two groups of one
  mesh file, which \<open>add_loaded_layer\<close> holds as two rows, the second is lost.
\<close>

theorem merge_drops_mesh_group:
  assumes "lr_uri a = lr_uri b" and "lr_group a \<noteq> lr_group b" and "lr_id a \<noteq> lr_id b"
    and "lr_z a = Some i" and "lr_z b = Some j" and "es_layers s = []"
  shows "es_layers (snd (merge_loaded_layers_from [a, b] s)) = [a] \<and>
         map lr_id (es_layers (snd (then_do (place_row a) (\<lambda>_. place_row b) s))) = [lr_id a, lr_id b]"
  using assms
  by (simp add: merge_loaded_layers_from_def merge_row_def Let_def place_row_def act_defs alloc_z_def same_paint_def)

definition sample_layer :: layer_uri where
  "sample_layer =
     \<lparr>ly_id = ''depth'', ly_name = ''Depth'', ly_type = MeshLayer, ly_uri = ''s3://runs/r.slf'',
      ly_style = Some [(''dataset_group'', PStr ''depth'')], ly_quantity = None, ly_tracer = None,
      ly_role = PrimaryLayer, ly_origin = None, ly_bbox = None, ly_legend = PNone, ly_datasets = [],
      ly_crs = None, ly_reference = None, ly_valid_from = None, ly_valid_to = None\<rparr>"

definition sample_row :: "string \<Rightarrow> string \<Rightarrow> int \<Rightarrow> layer_row" where
  "sample_row lid grp z =
     (case row_of_layer [] (sample_layer\<lparr>ly_id := lid, ly_style := Some [(''dataset_group'', PStr grp)]\<rparr>) of
        Inr r \<Rightarrow> r\<lparr>lr_z := Some z\<rparr>)"

definition sample_session :: emitter where
  "sample_session =
     \<lparr>es_session = ''S'', es_sink = (\<lambda>_. None), es_chart_persist = None, es_card_persist = None,
      es_pipeline = None, es_pipeline_started = None, es_steps = [], es_order = [], es_chat = [],
      es_history = [], es_map_view = PNone, es_layers = [], es_next_z = 0, es_last_step = None,
      es_last_children = [], es_parent = None, es_terminal = None, es_turn_case = None,
      es_current = False, es_dispatched = None, es_registry = None, es_legends = [], es_closed = [],
      es_clock = (\<lambda>n. int n), es_reads = 0, es_next_id = 0, es_ulid_text = show_nat,
      es_repr = (\<lambda>_. []), es_sent = [], es_charts = [], es_cards = []\<rparr>"

theorem merge_drops_mesh_group_witness:
  "es_layers (snd (merge_loaded_layers_from [sample_row ''a'' ''depth'' 0, sample_row ''b'' ''speed'' 1] sample_session))
     = [sample_row ''a'' ''depth'' 0]"
  using merge_drops_mesh_group [of "sample_row ''a'' ''depth'' 0" "sample_row ''b'' ''speed'' 1" 0 1 sample_session]
  by (simp add: sample_row_def sample_layer_def row_of_layer_def pget_def dget_or_def sample_session_def)

section \<open>Terminal transitions\<close>

text \<open>A sink that fails only the way a closed socket does, and what it keeps of a frame.\<close>

definition socket_only :: "emitter \<Rightarrow> bool" where
  "socket_only s \<longleftrightarrow> (\<forall>f e. es_sink s f = Some e \<longrightarrow> isinstance e (es_closed s))"

definition accepted :: "emitter \<Rightarrow> ulid \<Rightarrow> frame list" where
  "accepted s pid =
     (let f = \<lparr>fr_session = es_session s, fr_case = es_turn_case s, fr_body = PipelineFrame pid (wires_of s)\<rparr>
      in if es_sink s f = None then [f] else [])"

lemma emit_socket:
  assumes "cards_ok s" and "socket_only s" and "es_pipeline s = Some pid"
  shows "emit_pipeline_state t s =
    (Inr (), s\<lparr>es_terminal := (if t then Some (pid, wires_of s) else es_terminal s),
               es_sent := es_sent s @ accepted s pid\<rparr>)"
proof -
  have "send_pipeline_state (pid, wires_of s) q = (Inr (), q\<lparr>es_sent := es_sent s @ accepted s pid\<rparr>)"
    if "q = (if t then s\<lparr>es_terminal := Some (pid, wires_of s)\<rparr> else s)" for q
    using assms(2) that
    by (auto simp: send_pipeline_state_def send_def act_defs accepted_def Let_def socket_only_def split: option.split)
  then show ?thesis using assms cards_wires(1) [OF assms(1)] by (simp add: emit_pipeline_state_def)
qed

lemma wires_of_sent [simp]: "wires_of (s\<lparr>es_terminal := t, es_sent := f\<rparr>) = wires_of s"
  by (simp add: wires_of_def)

lemma socket_only_kept [simp]:
  "socket_only (s\<lparr>es_sent := f\<rparr>) = socket_only s" "socket_only (s\<lparr>es_terminal := t\<rparr>) = socket_only s"
  "socket_only (s\<lparr>es_order := ord\<rparr>) = socket_only s" "socket_only (s\<lparr>es_reads := n\<rparr>) = socket_only s"
  "socket_only (s\<lparr>es_steps := d\<rparr>) = socket_only s" "socket_only (s\<lparr>es_last_step := l\<rparr>) = socket_only s"
  "socket_only (s\<lparr>es_last_children := c\<rparr>) = socket_only s" "socket_only (s\<lparr>es_current := b\<rparr>) = socket_only s"
  "socket_only (s\<lparr>es_dispatched := d'\<rparr>) = socket_only s" "socket_only (s\<lparr>es_parent := p\<rparr>) = socket_only s"
  by (simp_all add: socket_only_def)

text \<open>
  a step marked failed with a code and a sentence takes them, its end and its duration,
  loses its breadcrumb and leaves every other step as it was; the frame is the whole pipeline
  and is stashed; a socket that closed loses the frame and nothing else: the next sink is
  given the same pipeline.
\<close>

theorem failed_transition:
  assumes "cards_ok s" and "socket_only s" and "es_pipeline s = Some pid"
    and "dget (es_steps s) sid = Some x" and "named c m = Inr (code, sentence)"
  shows "\<exists>s'. mark_failed sid c m s = (Inr (), s') \<and>
    es_steps s' = dput sid (failed_step code sentence (es_clock s (es_reads s)) x) (es_steps s) \<and>
    es_order s' = es_order s \<and> es_terminal s' = Some (pid, wires_of s') \<and>
    es_sent s' = es_sent s @ accepted s' pid \<and>
    (\<forall>sink. rebind_sink True sink s' = (Inr (Some (pid, wires_of s')), s'\<lparr>es_sink := sink\<rparr>))"
proof -
  let ?s1 = "s\<lparr>es_reads := Suc (es_reads s),
       es_steps := dput sid (failed_step code sentence (es_clock s (es_reads s)) x) (es_steps s)\<rparr>"
  let ?s2 = "?s1\<lparr>es_terminal := Some (pid, wires_of ?s1), es_sent := es_sent ?s1 @ accepted ?s1 pid\<rparr>"
  have ok: "cards_ok ?s1"
    using keepsD [OF cards_fail [OF assms(5)] assms(1), of sid] fail_step_known [OF assms(4), of code sentence] by simp
  have "mark_failed sid c m s = (Inr (), ?s2)"
    using assms emit_socket [OF ok, of pid True] fail_step_known [OF assms(4), of code sentence]
    by (simp add: mark_failed_def act_defs lifted_def)
  moreover have "accepted ?s2 pid = accepted ?s1 pid" by (simp add: accepted_def)
  moreover have "rebind_sink True sink ?s2 = (Inr (Some (pid, wires_of ?s2)), ?s2\<lparr>es_sink := sink\<rparr>)" for sink
  proof -
    have "cards_ok (?s2\<lparr>es_sink := sink\<rparr>)"
      using ok cards_wires(2) [OF ok] keepsD [OF cards_emit ok, of True] emit_socket [OF ok, of pid True] assms(2,3)
      by (intro cards_ok_frame [of "?s2\<lparr>es_sink := sink\<rparr>" ?s2]) (simp_all add: essence_def)
    from cards_wires(1) [OF this] cards_ok_in [OF assms(1,4)] assms(3) show ?thesis
      by (cases "es_order s") (simp_all add: rebind_sink_def wires_of_def)
  qed
  ultimately show ?thesis by (intro exI [of _ ?s2]) simp
qed

definition one_card :: emitter where
  "one_card = snd (add_step ''Fetch'' ''fetch_dem'' sample_session)"

lemma one_card_ok: "cards_ok one_card" "socket_only one_card"
proof -
  have "cards_ok sample_session" by (simp add: sample_session_def cards_ok_def)
  then show "cards_ok one_card" unfolding one_card_def by (rule keepsD [OF cards.add_kept])
  show "socket_only one_card"
    by (simp add: one_card_def add_step_def act_defs sample_session_def start_pipeline_def new_ulid_def now_def
        append_step_def emit_pipeline_state_def to_wire_step_def fields_valid_def new_step_def
        send_pipeline_state_def send_def socket_only_def Let_def dput_new)
qed

lemma one_card_parts: "es_pipeline one_card = Some 0" "dget (es_steps one_card) 1 = Some (new_step 1 ''Fetch'' ''fetch_dem'')"
  by (simp_all add: one_card_def add_step_def act_defs sample_session_def start_pipeline_def new_ulid_def now_def
        append_step_def emit_pipeline_state_def to_wire_step_def fields_valid_def new_step_def
        send_pipeline_state_def send_def Let_def dput_new)

theorem failed_transition_witness:
  "\<exists>s'. mark_failed 1 ''UPSTREAM'' ''the service is down'' one_card = (Inr (), s') \<and>
     es_terminal s' = Some (0, wires_of s')"
proof -
  have "py_strip ''UPSTREAM'' = ''UPSTREAM''" "py_strip ''the service is down'' = ''the service is down''"
    by (simp_all add: py_strip_id is_space_def char_code_def)
  then have "named ''UPSTREAM'' ''the service is down'' = Inr (''UPSTREAM'', ''the service is down'')"
    by (simp add: named_def)
  from failed_transition [OF one_card_ok one_card_parts this] show ?thesis by blast
qed

section \<open>The card of a tool call\<close>

definition bindings where
  "bindings s = (es_current s, es_dispatched s, es_parent s, es_sink s, es_closed s, es_repr s)"

text \<open>A session whose step \<open>sid\<close> is a card named \<open>x\<close>, on an open pipeline and a sound sink.\<close>

definition has_card :: "ulid \<Rightarrow> step \<Rightarrow> emitter \<Rightarrow> bool" where
  "has_card sid x s \<longleftrightarrow>
     cards_ok s \<and> socket_only s \<and> es_pipeline s \<noteq> None \<and> dget (es_steps s) sid = Some x"

lemma has_card_step: "has_card sid x s \<Longrightarrow> step_ok x"
  unfolding has_card_def cards_ok_def by blast

lemma socket_bindings: "bindings s' = bindings s \<Longrightarrow> socket_only s' = socket_only s"
  by (simp add: bindings_def socket_only_def)

lemma append_emit:
  assumes "cards_ok s" and "socket_only s" and "es_pipeline s \<noteq> None"
  shows "\<exists>sid s'. then_do (append_step n t) (\<lambda>sid. then_do (emit_pipeline_state False) (\<lambda>_. returning sid)) s =
           (Inr sid, s') \<and> has_card sid (new_step sid n t) s' \<and> bindings s' = bindings s"
proof -
  let ?i = "es_next_id s"
  let ?s1 = "s\<lparr>es_next_id := Suc ?i, es_steps := dput ?i (new_step ?i n t) (es_steps s), es_order := es_order s @ [?i]\<rparr>"
  have a: "append_step n t s = (Inr ?i, ?s1)" by (simp add: append_step_def act_defs new_ulid_def)
  obtain pid where pid: "es_pipeline s = Some pid" using assms(3) by blast
  have ok: "cards_ok ?s1" using keepsD [OF cards_append assms(1), of n t] unfolding a by simp
  have so: "socket_only ?s1" using assms(2) by (simp add: socket_only_def)
  have "cards_ok (snd (emit_pipeline_state False ?s1))" by (rule keepsD [OF cards_emit ok])
  with a pid emit_socket [OF ok so, of pid False] so show ?thesis
    by (auto simp: act_defs has_card_def bindings_def)
qed

lemma add_step_socket:
  assumes "cards_ok s" and "socket_only s"
  shows "\<exists>sid s'. add_step n t s = (Inr sid, s') \<and> has_card sid (new_step sid n t) s' \<and> bindings s' = bindings s"
proof -
  let ?open = "depending (\<lambda>s. if es_pipeline s = None then then_do start_pipeline (\<lambda>_. returning ()) else returning ())"
  have "\<exists>s0. ?open s = (Inr (), s0) \<and> es_pipeline s0 \<noteq> None \<and> bindings s0 = bindings s"
    by (simp add: act_defs start_pipeline_def new_ulid_def now_def bindings_def)
  then obtain s0 where s0: "?open s = (Inr (), s0)" "es_pipeline s0 \<noteq> None" "bindings s0 = bindings s" by blast
  have kept: "keeps cards_ok ?open" by (intro keeps_intros cards.start_kept)
  from keepsD [OF kept assms(1)] have "cards_ok s0" unfolding s0(1) by simp
  moreover have "socket_only s0" using assms(2) socket_bindings [OF s0(3)] by simp
  ultimately show ?thesis
    using append_emit [of s0 n t] s0 by (auto simp: add_step_def then_do_def)
qed

lemma patched_emit:
  assumes "has_card sid x s" and "cards_ok (s\<lparr>es_reads := k, es_steps := dput sid y (es_steps s)\<rparr>)"
  shows "\<exists>s'. emit_pipeline_state t (s\<lparr>es_reads := k, es_steps := dput sid y (es_steps s)\<rparr>) = (Inr (), s') \<and>
           has_card sid y s' \<and> bindings s' = bindings s"
proof -
  let ?s1 = "s\<lparr>es_reads := k, es_steps := dput sid y (es_steps s)\<rparr>"
  obtain pid where pid: "es_pipeline s = Some pid" using assms(1) by (auto simp: has_card_def)
  have so: "socket_only ?s1" using assms(1) by (simp add: has_card_def)
  have "cards_ok (snd (emit_pipeline_state t ?s1))" by (rule keepsD [OF cards_emit assms(2)])
  with pid emit_socket [OF assms(2) so, of pid t] so show ?thesis
    by (auto simp: has_card_def bindings_def)
qed

lemma running_socket:
  assumes "has_card sid x s"
  shows "\<exists>s' k. mark_running sid None s = (Inr (), s') \<and>
           has_card sid (x\<lparr>st_state := Running, st_started := Some k\<rparr>) s' \<and> bindings s' = bindings s"
proof -
  let ?t = "es_clock s (es_reads s)"
  let ?y = "x\<lparr>st_state := Running, st_started := Some ?t\<rparr>"
  let ?s1 = "s\<lparr>es_reads := Suc (es_reads s), es_steps := dput sid ?y (es_steps s)\<rparr>"
  have x: "dget (es_steps s) sid = Some x" "cards_ok s" using assms by (simp_all add: has_card_def)
  have "step_ok ?y" using x by (simp add: cards_ok_def step_ok_def fields_valid_def failure_named_def)
  from cards_ok_patched [OF x(2) x(1) this] have "cards_ok (s\<lparr>es_steps := dput sid ?y (es_steps s)\<rparr>)" by simp
  then have "cards_ok ?s1" by (rule cards_ok_frame [rotated]) (simp add: essence_def)
  from patched_emit [OF assms this, of False] x(1) show ?thesis
    by (auto simp: mark_running_def act_defs require_step_def patch_step_def now_def)
qed

definition ended_step :: "step_state \<Rightarrow> int \<Rightarrow> step \<Rightarrow> step" where
  "ended_step st t x =
     x\<lparr>st_state := st, st_completed := Some t, st_label := None, st_index := None, st_total := None,
       st_duration := elapsed_ms (st_started x) (Some t)\<rparr>"

lemma ended_socket:
  assumes "has_card sid x s" and "st \<noteq> Failed"
  shows "\<exists>s' t. then_do (mark_terminal sid st) (\<lambda>_. emit_pipeline_state True) s = (Inr (), s') \<and>
           has_card sid (ended_step st t x) s' \<and> bindings s' = bindings s"
proof -
  let ?t = "es_clock s (es_reads s)"
  let ?y = "ended_step st ?t x"
  let ?s1 = "s\<lparr>es_reads := Suc (es_reads s), es_steps := dput sid ?y (es_steps s)\<rparr>"
  have x: "dget (es_steps s) sid = Some x" "cards_ok s" using assms by (simp_all add: has_card_def)
  have "mark_terminal sid st s = (Inr (), ?s1)"
    using x(1) by (simp add: mark_terminal_def act_defs require_step_def patch_step_def now_def ended_step_def
        clear_parent_breadcrumb_def Let_def)
  moreover from this have "cards_ok ?s1"
    using keepsD [OF cards.terminal_kept [OF assms(2)] x(2), of sid] by simp
  ultimately show ?thesis using patched_emit [OF assms(1), where k = "Suc (es_reads s)" and y = ?y and t = True] by (auto simp: then_do_def)
qed

lemma failed_socket:
  assumes "has_card sid x s" and "named c m = Inr (code, sentence)"
  shows "\<exists>s' t. mark_failed sid c m s = (Inr (), s') \<and>
           has_card sid (failed_step code sentence t x) s' \<and> bindings s' = bindings s"
proof -
  let ?t = "es_clock s (es_reads s)"
  have x: "dget (es_steps s) sid = Some x" "cards_ok s" using assms by (simp_all add: has_card_def)
  have "cards_ok (snd (fail_step sid code sentence s))" by (rule keepsD [OF cards_fail [OF assms(2)] x(2)])
  then show ?thesis
    using patched_emit [OF assms(1), where k = "Suc (es_reads s)" and y = "failed_step code sentence ?t x" and t = True]
      fail_step_known [OF x(1), of code sentence] assms(2)
    by (auto simp: mark_failed_def act_defs lifted_def)
qed

lemma record_socket:
  assumes "has_card sid x s" and "opt_all code_shape (st_error_code x)"
  shows "\<exists>s'. record_terminal sid s = (Inr (), s') \<and> has_card sid x s' \<and> bindings s' = bindings s \<and>
           es_last_step s' = Some (step_fields.truncate x)"
proof -
  have "step_ok x" by (rule has_card_step [OF assms(1)])
  with assms have "to_summary s sid = Inr (step_fields.truncate x)"
    by (simp add: has_card_def to_summary_def summary_valid_def step_ok_def)
  moreover have "has_card sid x (s\<lparr>es_last_step := l, es_last_children := c\<rparr>)" for l c
    using assms(1) by (simp add: has_card_def cards_ok_frame [of "s\<lparr>es_last_step := l, es_last_children := c\<rparr>" s] essence_def)
  ultimately show ?thesis by (simp add: record_terminal_def act_defs lifted_def bindings_def)
qed

text \<open>
  The state a tool call's card ends in, with the code and sentence of a failure, read off
  the outcome of the tool.
\<close>

definition verdict :: "(pyval \<Rightarrow> string) \<Rightarrow> py_exn + tool_result \<Rightarrow> step_state \<times> string \<times> string" where
  "verdict rep outcome =
     (case outcome of
        Inl e \<Rightarrow>
          if isinstance e [ExcCancelled] \<or> py_truth (exn_attr e ''declined'') then (Cancelled, [], [])
          else (Failed, classify_exception rep e)
      | Inr v \<Rightarrow> (case classify_tool_return rep v of None \<Rightarrow> (Complete, [], []) | Some p \<Rightarrow> p))"

definition conclude :: "step_state \<times> string \<times> string \<Rightarrow> ulid \<Rightarrow> unit emitting" where
  "conclude v sid =
     then_do (if fst v = Complete then mark_complete sid
              else if fst v = Cancelled then mark_cancelled sid
              else mark_failed sid (fst (snd v)) (snd (snd v))) (\<lambda>_. record_terminal sid)"

lemma classify_states: "classify_tool_return rep v = Some (st, c, m) \<Longrightarrow> st = Cancelled \<or> st = Failed"
  by (auto simp: classify_tool_return_def split: tool_result.splits pyval.splits if_splits)

lemma card_on_return_conclude: "card_on_return sid v s = conclude (verdict (es_repr s) (Inr v)) sid s"
proof (cases "classify_tool_return (es_repr s) v")
  case None
  then show ?thesis by (simp add: card_on_return_def depending_def conclude_def verdict_def)
next
  case (Some p)
  obtain st c m where p: "p = (st, c, m)" by (cases p)
  with Some classify_states [of "es_repr s" v st c m] show ?thesis
    by (auto simp: card_on_return_def depending_def conclude_def verdict_def)
qed

lemma card_on_error_conclude:
  "isinstance e [ExcCancelled] \<or> isinstance e [ExcException] \<Longrightarrow>
   card_on_error sid e s = conclude (verdict (es_repr s) (Inl e)) sid s"
  by (auto simp: card_on_error_def depending_def conclude_def verdict_def)

definition nameable :: "step_state \<times> string \<times> string \<Rightarrow> bool" where
  "nameable v \<longleftrightarrow> fst v \<noteq> Failed \<or> (code_shape (py_strip (fst (snd v))) \<and> py_strip (snd (snd v)) \<noteq> [])"

lemma conclude_socket:
  assumes "has_card sid x s" and "st_error_code x = None" and "nameable v" and "fst v \<in> {Complete, Cancelled, Failed}"
  shows "\<exists>s' y. conclude v sid s = (Inr (), s') \<and> has_card sid y s' \<and> st_state y = fst v \<and>
           st_completed y \<noteq> None \<and> es_last_step s' = Some (step_fields.truncate y) \<and> bindings s' = bindings s"
proof (cases "fst v = Failed")
  case False
  then obtain s1 t where s1: "then_do (mark_terminal sid (fst v)) (\<lambda>_. emit_pipeline_state True) s = (Inr (), s1)"
    "has_card sid (ended_step (fst v) t x) s1" "bindings s1 = bindings s"
    using ended_socket [OF assms(1)] by blast
  have "opt_all code_shape (st_error_code (ended_step (fst v) t x))" using assms(2) by (simp add: ended_step_def)
  from record_socket [OF s1(2) this] obtain s2 where s2: "record_terminal sid s1 = (Inr (), s2)"
    "has_card sid (ended_step (fst v) t x) s2" "bindings s2 = bindings s1"
    "es_last_step s2 = Some (step_fields.truncate (ended_step (fst v) t x))" by blast
  have "conclude v sid s = (Inr (), s2)"
    using False assms(4) s1(1) s2(1)
    by (auto simp: conclude_def mark_complete_def mark_cancelled_def then_do_def split: prod.splits sum.splits)
  with s1 s2 show ?thesis by (intro exI [of _ s2] exI [of _ "ended_step (fst v) t x"]) (simp add: ended_step_def)
next
  case True
  let ?c = "py_strip (fst (snd v))" and ?m = "py_strip (snd (snd v))"
  have "named (fst (snd v)) (snd (snd v)) = Inr (?c, ?m)"
    using True assms(3) by (auto simp: named_def nameable_def Let_def code_shape_def)
  from failed_socket [OF assms(1) this] obtain s1 t where s1:
    "mark_failed sid (fst (snd v)) (snd (snd v)) s = (Inr (), s1)"
    "has_card sid (failed_step ?c ?m t x) s1" "bindings s1 = bindings s" by blast
  have "opt_all code_shape (st_error_code (failed_step ?c ?m t x))"
    using True assms(3) by (simp add: failed_step_def nameable_def)
  from record_socket [OF s1(2) this] obtain s2 where s2: "record_terminal sid s1 = (Inr (), s2)"
    "has_card sid (failed_step ?c ?m t x) s2" "bindings s2 = bindings s1"
    "es_last_step s2 = Some (step_fields.truncate (failed_step ?c ?m t x))" by blast
  have "conclude v sid s = (Inr (), s2)"
    using True s1(1) s2(1) by (simp add: conclude_def then_do_def)
  with True s1 s2 show ?thesis
    by (intro exI [of _ s2] exI [of _ "failed_step ?c ?m t x"]) (simp add: failed_step_def)
qed

text \<open>
  A tool that ends in \<open>outcome\<close> and may use the emitter as it runs, but leaves its own card
  on an open pipeline and the bindings as they were.
\<close>

definition leaves_card :: "tool_result emitting \<Rightarrow> py_exn + tool_result \<Rightarrow> bool" where
  "leaves_card invoke outcome \<longleftrightarrow>
     (\<forall>sid x s. has_card sid x s \<and> es_parent s = Some sid \<and> st_error_code x = None \<longrightarrow>
        (\<exists>s' x'. invoke s = (outcome, s') \<and> has_card sid x' s' \<and> st_error_code x' = None \<and>
                 bindings s' = bindings s))"

lemma body_socket:
  assumes "has_card sid x s" and "es_parent s = Some sid" and "st_error_code x = None"
    and "leaves_card invoke outcome" and "nameable (verdict (es_repr s) outcome)"
    and "case outcome of Inl e \<Rightarrow> isinstance e [ExcCancelled] \<or> isinstance e [ExcException]
                       | Inr v \<Rightarrow> emit_result_layers w v = returning ()"
  shows "\<exists>s' y. dispatched_body w sid invoke s = (outcome, s') \<and> has_card sid y s' \<and>
           st_state y = fst (verdict (es_repr s) outcome) \<and> st_completed y \<noteq> None \<and>
           es_last_step s' = Some (step_fields.truncate y) \<and> bindings s' = bindings s"
proof -
  from assms(1-4) obtain s1 x1 where s1: "invoke s = (outcome, s1)" "has_card sid x1 s1"
    "st_error_code x1 = None" "bindings s1 = bindings s" unfolding leaves_card_def by blast
  have rep: "es_repr s1 = es_repr s" using s1(4) by (simp add: bindings_def)
  have st: "fst (verdict (es_repr s) outcome) \<in> {Complete, Cancelled, Failed}"
    by (auto simp: verdict_def dest: classify_states split: sum.splits option.splits prod.splits)
  obtain s2 y where s2: "conclude (verdict (es_repr s) outcome) sid s1 = (Inr (), s2)" "has_card sid y s2"
    "st_state y = fst (verdict (es_repr s) outcome)" "st_completed y \<noteq> None"
    "es_last_step s2 = Some (step_fields.truncate y)" "bindings s2 = bindings s1"
    using conclude_socket [OF s1(2,3) assms(5) st] by blast
  have "dispatched_body w sid invoke s = (outcome, s2)"
    using s1(1) s2(1) rep assms(6)
    by (cases outcome) (simp_all add: dispatched_body_def act_defs card_on_return_conclude card_on_error_conclude)
  with s2 s1(4) show ?thesis by auto
qed

lemma call_opened:
  assumes "cards_ok s" and "socket_only s"
  shows "\<exists>sid x s1. has_card sid x s1 \<and> es_parent s1 = Some sid \<and> st_error_code x = None \<and> st_state x = Running \<and>
           es_repr s1 = es_repr s \<and>
           (\<forall>invoke. emit_tool_call w name tool invoke s =
              (let (r, s2) = dispatched_body w sid invoke s1
               in (r, s2\<lparr>es_current := es_current s, es_dispatched := es_dispatched s, es_parent := es_parent s\<rparr>))) \<and>
           es_sink s1 = es_sink s \<and> es_closed s1 = es_closed s"
proof -
  obtain sid a where a: "add_step name tool s = (Inr sid, a)" "has_card sid (new_step sid name tool) a"
    "bindings a = bindings s" using add_step_socket [OF assms] by blast
  obtain b k where b: "mark_running sid None a = (Inr (), b)" "bindings b = bindings a"
    "has_card sid ((new_step sid name tool)\<lparr>st_state := Running, st_started := Some k\<rparr>) b"
    using running_socket [OF a(2)] by blast
  let ?x = "(new_step sid name tool)\<lparr>st_state := Running, st_started := Some k\<rparr>"
  let ?c = "b\<lparr>es_last_children := [], es_current := True, es_dispatched := Some tool, es_parent := Some sid\<rparr>"
  have "cards_ok ?c" using b(3) by (intro cards_ok_frame [of ?c b]) (simp_all add: essence_def has_card_def)
  with b(3) have "has_card sid ?x ?c" by (simp add: has_card_def)
  moreover have "st_error_code ?x = None" by (simp add: new_step_def)
  ultimately show ?thesis
    using a b by (intro exI [of _ sid] exI [of _ ?x] exI [of _ ?c])
      (simp add: emit_tool_call_def with_bindings_def act_defs bindings_def)
qed

lemma tool_call_ends:
  assumes "cards_ok s" and "socket_only s" and "leaves_card invoke outcome"
    and "nameable (verdict (es_repr s) outcome)"
    and "case outcome of Inl e \<Rightarrow> isinstance e [ExcCancelled] \<or> isinstance e [ExcException]
                       | Inr v \<Rightarrow> emit_result_layers w v = returning ()"
  shows "\<exists>sid s' y. emit_tool_call w name tool invoke s = (outcome, s') \<and>
    dget (es_steps s') sid = Some y \<and> st_state y = fst (verdict (es_repr s) outcome) \<and>
    st_completed y \<noteq> None \<and> es_last_step s' = Some (step_fields.truncate y) \<and> bindings s' = bindings s"
proof -
  obtain sid x s1 where s1: "has_card sid x s1" "es_parent s1 = Some sid" "st_error_code x = None"
    "es_repr s1 = es_repr s" "es_sink s1 = es_sink s" "es_closed s1 = es_closed s"
    "emit_tool_call w name tool invoke s =
       (let (r, s2) = dispatched_body w sid invoke s1
        in (r, s2\<lparr>es_current := es_current s, es_dispatched := es_dispatched s, es_parent := es_parent s\<rparr>))"
    using call_opened [OF assms(1,2)] by blast
  have n: "nameable (verdict (es_repr s1) outcome)" using assms(4) s1(4) by simp
  obtain s2 y where s2: "dispatched_body w sid invoke s1 = (outcome, s2)" "has_card sid y s2"
    "st_state y = fst (verdict (es_repr s1) outcome)" "st_completed y \<noteq> None"
    "es_last_step s2 = Some (step_fields.truncate y)" "bindings s2 = bindings s1"
    using body_socket [OF s1(1-3) assms(3) n assms(5)] by blast
  let ?s' = "s2\<lparr>es_current := es_current s, es_dispatched := es_dispatched s, es_parent := es_parent s\<rparr>"
  have "emit_tool_call w name tool invoke s = (outcome, ?s')" using s1(7) s2(1) by simp
  moreover have "bindings ?s' = bindings s" using s2(6) s1(4-6) by (simp add: bindings_def)
  moreover have "dget (es_steps ?s') sid = Some y" using s2(2) by (simp add: has_card_def)
  ultimately show ?thesis
    using s2(3-5) s1(4) by (intro exI [of _ sid] exI [of _ ?s'] exI [of _ y]) simp
qed


lemma sample_session_ok: "cards_ok sample_session" "socket_only sample_session"
  by (simp_all add: sample_session_def cards_ok_def socket_only_def)

definition no_layers :: layer_world where
  "no_layers = \<lparr>lw_publish = (\<lambda>l. Inr PNone), lw_legend = (\<lambda>d l. None)\<rparr>"

lemma outright_leaves: "leaves_card (\<lambda>s. (outcome, s)) outcome"
  unfolding leaves_card_def by blast


text \<open>
  a tool that raises with a blank text is not reported: its card is left running, no
  terminal frame is stashed, and what reaches the caller is the refusal of a nameless failure
  instead of the exception.
\<close>

theorem blank_exception_leaves_card:
  assumes "cards_ok s" and "socket_only s" and "isinstance e [ExcException]" and "\<not> isinstance e [ExcCancelled]"
    and "\<not> py_truth (exn_attr e ''declined'')" and "snd (classify_exception (es_repr s) e) = exc_text e"
    and "py_strip (exc_text e) = []" and "invoke = raising e"
  shows "\<exists>sid s' y. emit_tool_call w name tool invoke s = (Inl nameless_failure, s') \<and>
    dget (es_steps s') sid = Some y \<and> st_state y = Running"
proof -
  obtain sid x s1 where s1: "has_card sid x s1" "st_state x = Running" "es_repr s1 = es_repr s"
    "emit_tool_call w name tool invoke s =
       (let (r, s2) = dispatched_body w sid invoke s1
        in (r, s2\<lparr>es_current := es_current s, es_dispatched := es_dispatched s, es_parent := es_parent s\<rparr>))"
    using call_opened [OF assms(1,2)] by blast
  have "dispatched_body w sid invoke s1 = (Inl nameless_failure, s1)"
    using assms s1(3) by (simp add: dispatched_body_def act_defs card_on_error_def mark_failed_def lifted_def named_def)
  with s1 show ?thesis by (intro exI [of _ sid] exI [of _ x] exI) (auto simp: has_card_def)
qed

theorem blank_exception_leaves_card_witness:
  "\<exists>sid s' y. emit_tool_call no_layers ''Solve'' ''run_solver'' (raising (plain_exn ExcRuntimeError '' '')) sample_session
      = (Inl nameless_failure, s') \<and> dget (es_steps s') sid = Some y \<and> st_state y = Running"
  by (rule blank_exception_leaves_card [OF sample_session_ok])
     (simp_all add: isinstance_def plain_exn_def exn_attr_def pget_def dget_or_def classify_exception_def
        upstream_api_error_def py_strip_def is_space_def char_code_def)

lemma collect_Inl:
  "x \<in> set xs \<Longrightarrow> f x = Inl e \<Longrightarrow> (\<And>z k. z \<in> set xs \<Longrightarrow> f z = Inl k \<Longrightarrow> k = e) \<Longrightarrow> collect f xs = Inl e"
proof (induction xs)
  case (Cons a xs)
  show ?case
  proof (cases "f a")
    case (Inl k)
    with Cons.prems(3) [of a k] show ?thesis by simp
  next
    case (Inr b)
    with Cons.prems have x: "x \<in> set xs" by auto
    have "collect f xs = Inl e"
      by (rule Cons.IH [OF x Cons.prems(2)]) (rule Cons.prems(3), simp_all)
    with Inr show ?thesis by simp
  qed
qed simp

text \<open>One step whose summary the contract refuses, and no session state can be sent.\<close>

lemma session_refused:
  assumes "cards_ok s" and "es_pipeline s \<noteq> None" and "dget (es_steps s) sid = Some x" and "\<not> summary_valid x"
  shows "fst (emit_session_state s) = Inl contract_error"
proof -
  obtain pid where pid: "es_pipeline s = Some pid" using assms(2) by blast
  have sid: "sid \<in> set (es_order s)" by (rule cards_ok_in [OF assms(1,3)])
  have "collect (to_summary q) (es_order q) = Inl contract_error"
    if q: "es_steps q = es_steps s" "es_order q = es_order s" for q
  proof (rule collect_Inl)
    show "sid \<in> set (es_order q)" using sid q by simp
    show "to_summary q sid = Inl contract_error" using assms(3,4) q by (simp add: to_summary_def)
    fix z k assume "z \<in> set (es_order q)" "to_summary q z = Inl k"
    then show "k = contract_error"
      using cards_ok_get [OF assms(1), of z] q by (auto simp: to_summary_def split: if_splits)
  qed
  then show ?thesis
    using pid sid cards_named [OF assms(1)]
    by (auto simp: emit_session_state_def current_snapshot_def act_defs final_state_def now_def lifted_def
        split: option.split)
qed

text \<open>
  a tool that returns a failure whose code is not in the summary's shape loses its result:
  the card is marked failed and sent, and then the summary is refused; from then on no session
  state can be sent while the pipeline is open.
\<close>

theorem odd_code_blocks_session:
  assumes "cards_ok s" and "socket_only s"
    and "classify_tool_return (es_repr s) v = Some (Failed, code, message)"
    and "\<not> code_shape (py_strip code)" and "py_strip code \<noteq> []" and "py_strip message \<noteq> []"
  shows "\<exists>s'. emit_tool_call w name tool (returning v) s = (Inl contract_error, s') \<and>
    fst (emit_session_state s') = Inl contract_error"
proof -
  obtain sid x s1 where s1: "has_card sid x s1" "st_state x = Running" "es_repr s1 = es_repr s"
    "emit_tool_call w name tool (returning v) s =
       (let (r, s2) = dispatched_body w sid (returning v) s1
        in (r, s2\<lparr>es_current := es_current s, es_dispatched := es_dispatched s, es_parent := es_parent s\<rparr>))"
    using call_opened [OF assms(1,2)] by blast
  have named: "named code message = Inr (py_strip code, py_strip message)"
    using assms(5,6) by (simp add: named_def Let_def)
  obtain s2 t where s2: "mark_failed sid code message s1 = (Inr (), s2)"
    "has_card sid (failed_step (py_strip code) (py_strip message) t x) s2" "bindings s2 = bindings s1"
    using failed_socket [OF s1(1) named] by blast
  let ?y = "failed_step (py_strip code) (py_strip message) t x"
  have y: "dget (es_steps s2) sid = Some ?y" "\<not> summary_valid ?y" "cards_ok s2"
    using s2(2) assms(4) by (simp_all add: has_card_def summary_valid_def failed_step_def)
  let ?s' = "s2\<lparr>es_current := es_current s, es_dispatched := es_dispatched s, es_parent := es_parent s\<rparr>"
  have "to_summary s2 sid = Inl contract_error" using y by (simp add: to_summary_def)
  then have "dispatched_body w sid (returning v) s1 = (Inl contract_error, s2)"
    using assms(3) s1(3) s2(1)
    by (simp add: dispatched_body_def act_defs card_on_return_def record_terminal_def lifted_def)
  then have "emit_tool_call w name tool (returning v) s = (Inl contract_error, ?s')" using s1(4) by simp
  moreover have "fst (emit_session_state ?s') = Inl contract_error"
    by (rule session_refused [where sid = sid, OF _ _ _ y(2)])
       (use s2(2) in \<open>simp_all add: has_card_def cards_ok_frame [of ?s' s2] essence_def\<close>)
  ultimately show ?thesis by blast
qed

theorem odd_code_blocks_session_witness:
  "\<exists>s'. emit_tool_call no_layers ''Fetch'' ''fetch_dem''
     (returning (DictResult [(''status'', PStr ''error''), (''error_code'', PStr ''not-found''),
                             (''message'', PStr ''no tile'')])) sample_session = (Inl contract_error, s') \<and>
     fst (emit_session_state s') = Inl contract_error"
proof (rule odd_code_blocks_session [OF sample_session_ok])
  show "classify_tool_return (es_repr sample_session)
      (DictResult [(''status'', PStr ''error''), (''error_code'', PStr ''not-found''), (''message'', PStr ''no tile'')])
      = Some (Failed, ''not-found'', ''no tile'')"
    by (simp add: classify_tool_return_def pget_def dget_or_def py_lower_def lower_char_def char_code_def
        failed_dict_statuses_def List.member_iff py_or_def)
qed (simp_all add: py_strip_id is_space_def char_code_def code_shape_def is_upper_def is_digit_def)

end
