(* ===== verification/AliasTable.thy ===== *)
theory AliasTable
  imports PyNumbers
begin

text \<open>
  The alias tables of trid3nt_server/tools/tool_arg_normalizer.py: the argument names the
  model sends for a tool's own, tool by tool, the pairs every tool shares, and the names
  dropped without a warning.
\<close>

section \<open>Tool by tool\<close>

definition aliases_sfincs_flood :: "(string, string) dict" where
  "aliases_sfincs_flood =
    [(''place'', ''location_query''), (''location_name'', ''location_query''),
     (''location'', ''location_query'')]"

definition aliases_nws_alerts_conus :: "(string, string) dict" where
  "aliases_nws_alerts_conus =
    [(''state'', ''area''), (''state_code'', ''area''), (''state_name'', ''area''),
     (''location'', ''area''), (''region'', ''area'')]"

definition aliases_nws_event :: "(string, string) dict" where
  "aliases_nws_event =
    [(''state'', ''area''), (''state_code'', ''area''), (''state_name'', ''area''),
     (''location'', ''area''), (''region'', ''area''), (''fips'', ''area''),
     (''county_fips'', ''area'')]"

definition aliases_fema_nfhl_zones :: "(string, string) dict" where
  "aliases_fema_nfhl_zones =
    [(''bounding_box'', ''bbox''), (''extent'', ''bbox''), (''bounds'', ''bbox''),
     (''sfha'', ''sfha_only''), (''special_flood_hazard'', ''sfha_only''),
     (''sfha_filter'', ''sfha_only''), (''flood_hazard_only'', ''sfha_only''),
     (''zones'', ''zone_filter''), (''flood_zones'', ''zone_filter''),
     (''zone_codes'', ''zone_filter''), (''flood_zone_filter'', ''zone_filter''),
     (''zone_types'', ''zone_filter'')]"

definition aliases_hrrr_forecast :: "(string, string) dict" where
  "aliases_hrrr_forecast =
    [(''bounding_box'', ''bbox''), (''extent'', ''bbox''), (''bounds'', ''bbox''),
     (''vars'', ''variable''), (''fields'', ''variable''), (''variables'', ''variable''),
     (''field'', ''variable''), (''fcst_hr'', ''forecast_hour''), (''fhr'', ''forecast_hour''),
     (''hour'', ''forecast_hour''), (''lead_hour'', ''forecast_hour''),
     (''lead_time'', ''forecast_hour''), (''forecast_lead'', ''forecast_hour''),
     (''cycle_iso'', ''cycle''), (''run_time'', ''cycle''), (''init_time'', ''cycle''),
     (''cycle_time'', ''cycle''), (''model_run'', ''cycle'')]"

definition aliases_noaa_nwm_streamflow :: "(string, string) dict" where
  "aliases_noaa_nwm_streamflow =
    [(''bounding_box'', ''bbox''), (''extent'', ''bbox''), (''bounds'', ''bbox''),
     (''configuration'', ''product''), (''model_run'', ''product''), (''cfg'', ''product''),
     (''run_type'', ''product''), (''model_config'', ''product''),
     (''datetime'', ''valid_time''), (''date'', ''valid_time''), (''time'', ''valid_time''),
     (''timestamp'', ''valid_time''), (''valid_datetime'', ''valid_time''),
     (''fcst_hr'', ''forecast_hour''), (''fhr'', ''forecast_hour''),
     (''hour'', ''forecast_hour''), (''lead_hour'', ''forecast_hour'')]"

definition aliases_usace_levees :: "(string, string) dict" where
  "aliases_usace_levees =
    [(''bounding_box'', ''bbox''), (''extent'', ''bbox''), (''bounds'', ''bbox''),
     (''layer_type'', ''layer''), (''geometry_type'', ''layer''), (''levee_type'', ''layer''),
     (''feature_type'', ''layer''), (''dataset'', ''layer'')]"

definition aliases_usace_dams :: "(string, string) dict" where
  "aliases_usace_dams =
    [(''bounding_box'', ''bbox''), (''extent'', ''bbox''), (''bounds'', ''bbox''),
     (''region'', ''bbox''), (''area'', ''bbox''), (''hazard'', ''hazard_potential''),
     (''hazard_class'', ''hazard_potential''), (''hazard_classification'', ''hazard_potential''),
     (''min_height'', ''min_height_ft''), (''minimum_height'', ''min_height_ft''),
     (''min_dam_height'', ''min_height_ft''), (''min_height_feet'', ''min_height_ft''),
     (''height_min'', ''min_height_ft'')]"

definition aliases_usace_nsi :: "(string, string) dict" where
  "aliases_usace_nsi =
    [(''bounding_box'', ''bbox''), (''extent'', ''bbox''), (''bounds'', ''bbox''),
     (''region'', ''bbox''), (''area'', ''bbox'')]"

definition aliases_asos_metar :: "(string, string) dict" where
  "aliases_asos_metar =
    [(''bounding_box'', ''bbox''), (''extent'', ''bbox''), (''bounds'', ''bbox''),
     (''start_date'', ''start_time''), (''begin'', ''start_time''), (''start'', ''start_time''),
     (''from_time'', ''start_time''), (''datetime_start'', ''start_time''),
     (''time_start'', ''start_time''), (''end_date'', ''end_time''), (''end'', ''end_time''),
     (''stop'', ''end_time''), (''to_time'', ''end_time''), (''datetime_end'', ''end_time''),
     (''time_end'', ''end_time'')]"

definition aliases_gridmet :: "(string, string) dict" where
  "aliases_gridmet =
    [(''bounding_box'', ''bbox''), (''extent'', ''bbox''), (''bounds'', ''bbox''),
     (''vars'', ''variable''), (''field'', ''variable''), (''variables'', ''variable''),
     (''param'', ''variable''), (''metric'', ''variable''), (''start'', ''start_date''),
     (''begin'', ''start_date''), (''from_date'', ''start_date''),
     (''datetime_start'', ''start_date''), (''start_time'', ''start_date''),
     (''date_start'', ''start_date''), (''end'', ''end_date''), (''stop'', ''end_date''),
     (''to_date'', ''end_date''), (''datetime_end'', ''end_date''), (''end_time'', ''end_date''),
     (''date_end'', ''end_date'')]"

definition aliases_noaa_coops_tides :: "(string, string) dict" where
  "aliases_noaa_coops_tides =
    [(''bounding_box'', ''bbox''), (''extent'', ''bbox''), (''bounds'', ''bbox''),
     (''start'', ''start_date''), (''begin'', ''start_date''), (''from_date'', ''start_date''),
     (''start_time'', ''start_date''), (''datetime_start'', ''start_date''),
     (''date_start'', ''start_date''), (''end'', ''end_date''), (''stop'', ''end_date''),
     (''to_date'', ''end_date''), (''end_time'', ''end_date''), (''datetime_end'', ''end_date''),
     (''date_end'', ''end_date''), (''data_type'', ''product''),
     (''observation_type'', ''product''), (''tide_product'', ''product''),
     (''measurement'', ''product'')]"

definition aliases_noaa_slr_scenarios :: "(string, string) dict" where
  "aliases_noaa_slr_scenarios =
    [(''bounding_box'', ''bbox''), (''extent'', ''bbox''), (''bounds'', ''bbox''),
     (''scenario'', ''scenario_ft''), (''scenarios'', ''scenario_ft''),
     (''sea_level_rise'', ''scenario_ft''), (''slr'', ''scenario_ft''),
     (''slr_ft'', ''scenario_ft''), (''rise_ft'', ''scenario_ft''), (''feet'', ''scenario_ft'')]"

definition aliases_gtsm_tide_surge :: "(string, string) dict" where
  "aliases_gtsm_tide_surge =
    [(''bounding_box'', ''bbox''), (''extent'', ''bbox''), (''bounds'', ''bbox''),
     (''start'', ''start_date''), (''begin'', ''start_date''), (''from_date'', ''start_date''),
     (''start_time'', ''start_date''), (''datetime_start'', ''start_date''),
     (''end'', ''end_date''), (''stop'', ''end_date''), (''to_date'', ''end_date''),
     (''end_time'', ''end_date''), (''datetime_end'', ''end_date''), (''variable'', ''output''),
     (''product'', ''output''), (''data_type'', ''output''), (''output_type'', ''output''),
     (''field'', ''output'')]"

definition aliases_raws_weather :: "(string, string) dict" where
  "aliases_raws_weather =
    [(''bounding_box'', ''bbox''), (''extent'', ''bbox''), (''bounds'', ''bbox''),
     (''start_date'', ''start_time''), (''begin'', ''start_time''), (''start'', ''start_time''),
     (''from_time'', ''start_time''), (''datetime_start'', ''start_time''),
     (''time_start'', ''start_time''), (''end_date'', ''end_time''), (''end'', ''end_time''),
     (''stop'', ''end_time''), (''to_time'', ''end_time''), (''datetime_end'', ''end_time''),
     (''time_end'', ''end_time'')]"

definition aliases_nhdplus_nldi_navigate :: "(string, string) dict" where
  "aliases_nhdplus_nldi_navigate =
    [(''point'', ''seed_point''), (''location'', ''seed_point''),
     (''coordinate'', ''seed_point''), (''coordinates'', ''seed_point''),
     (''lat_lon'', ''seed_point''), (''latlon'', ''seed_point''), (''reach_id'', ''comid''),
     (''nhd_id'', ''comid''), (''feature_id'', ''comid''), (''nhdplus_id'', ''comid''),
     (''nhd_comid'', ''comid''), (''nav_direction'', ''direction''),
     (''navigation'', ''direction''), (''navigate'', ''direction''),
     (''upstream_downstream'', ''direction''), (''distance'', ''distance_km''),
     (''km'', ''distance_km''), (''length_km'', ''distance_km''),
     (''search_distance'', ''distance_km''), (''max_distance_km'', ''distance_km'')]"

definition aliases_statsgo_soils :: "(string, string) dict" where
  "aliases_statsgo_soils =
    [(''bounding_box'', ''bbox''), (''extent'', ''bbox''), (''bounds'', ''bbox''),
     (''attribute'', ''field''), (''variable'', ''field''), (''soil_property'', ''field''),
     (''property'', ''field''), (''soil_attribute'', ''field''), (''soil_field'', ''field''),
     (''timeout'', ''timeout_s''), (''timeout_seconds'', ''timeout_s''),
     (''http_timeout'', ''timeout_s''), (''request_timeout'', ''timeout_s'')]"

definition aliases_hrrr_smoke :: "(string, string) dict" where
  "aliases_hrrr_smoke =
    [(''bounding_box'', ''bbox''), (''extent'', ''bbox''), (''bounds'', ''bbox''),
     (''vars'', ''variable''), (''field'', ''variable''), (''variables'', ''variable''),
     (''smoke_variable'', ''variable''), (''fcst_hr'', ''forecast_hour''),
     (''fhr'', ''forecast_hour''), (''hour'', ''forecast_hour''),
     (''lead_hour'', ''forecast_hour''), (''lead_time'', ''forecast_hour''),
     (''cycle_iso'', ''cycle''), (''run_time'', ''cycle''), (''init_time'', ''cycle''),
     (''cycle_time'', ''cycle''), (''model_run'', ''cycle'')]"

definition aliases_3dep_extra :: "(string, string) dict" where
  "aliases_3dep_extra =
    [(''bounding_box'', ''bbox''), (''extent'', ''bbox''), (''bounds'', ''bbox''),
     (''res'', ''resolution''), (''cell_size'', ''resolution''),
     (''pixel_size'', ''resolution''), (''spatial_resolution'', ''resolution''),
     (''grid_resolution'', ''resolution''), (''tile_limit'', ''max_tiles''),
     (''max_tile_count'', ''max_tiles''), (''tiles'', ''max_tiles''),
     (''num_tiles'', ''max_tiles''), (''timeout'', ''timeout_s''),
     (''timeout_seconds'', ''timeout_s''), (''http_timeout'', ''timeout_s''),
     (''request_timeout'', ''timeout_s'')]"

definition aliases_usfs_canopy_fuels :: "(string, string) dict" where
  "aliases_usfs_canopy_fuels =
    [(''bounding_box'', ''bbox''), (''extent'', ''bbox''), (''bounds'', ''bbox''),
     (''variable'', ''layer''), (''fuel_layer'', ''layer''), (''product'', ''layer''),
     (''dataset'', ''layer''), (''layer_name'', ''layer''), (''fuel_type'', ''layer'')]"

definition tool_specific_aliases :: "(string, (string, string) dict) dict" where
  "tool_specific_aliases =
    [(''sfincs_flood'', aliases_sfincs_flood),
     (''fetch_nws_alerts_conus'', aliases_nws_alerts_conus),
     (''fetch_nws_event'', aliases_nws_event),
     (''fetch_fema_nfhl_zones'', aliases_fema_nfhl_zones),
     (''fetch_hrrr_forecast'', aliases_hrrr_forecast),
     (''fetch_noaa_nwm_streamflow'', aliases_noaa_nwm_streamflow),
     (''fetch_usace_levees'', aliases_usace_levees),
     (''fetch_usace_dams'', aliases_usace_dams),
     (''fetch_usace_nsi'', aliases_usace_nsi),
     (''fetch_asos_metar'', aliases_asos_metar),
     (''fetch_gridmet'', aliases_gridmet),
     (''fetch_noaa_coops_tides'', aliases_noaa_coops_tides),
     (''fetch_noaa_slr_scenarios'', aliases_noaa_slr_scenarios),
     (''fetch_gtsm_tide_surge'', aliases_gtsm_tide_surge),
     (''fetch_raws_weather'', aliases_raws_weather),
     (''fetch_nhdplus_nldi_navigate'', aliases_nhdplus_nldi_navigate),
     (''fetch_statsgo_soils'', aliases_statsgo_soils),
     (''fetch_hrrr_smoke'', aliases_hrrr_smoke),
     (''fetch_3dep_extra'', aliases_3dep_extra),
     (''fetch_usfs_canopy_fuels'', aliases_usfs_canopy_fuels)]"

section \<open>Shared by every tool\<close>

definition bidirectional_aliases :: "(string \<times> string) list" where
  "bidirectional_aliases =
    [(''return_period_years'', ''return_period_yr''),
     (''duration_hours'', ''duration_hr''),
     (''simulation_duration_hours'', ''simulation_duration_hr''),
     (''year_range'', ''years_range''),
     (''days_back'', ''days''),
     (''species_name'', ''scientific_name'')]"

definition build_alias_map :: "(string, string) dict" where
  "build_alias_map =
     fold (\<lambda>(canon, alias) m. dput canon alias (dput alias canon m)) bidirectional_aliases []"

definition silent_drop :: "string list" where
  "silent_drop =
    [''run_name'', ''scenario_id'', ''scenario_name'', ''description'', ''comment'',
     ''user_intent'', ''explanation'', ''reasoning'', ''purpose'', ''note'']"

end
