(* ===== verification/ArgNormalizer.thy ===== *)
theory ArgNormalizer
  imports AliasTable
begin

text \<open>
  trid3nt_server/tools/tool_arg_normalizer.py: the cleanup of a model's arguments at the
  dispatch seam, with \<open>as_bbox\<close> of trid3nt_server/inputs/extent.py and the parts of the
  standard library they use (\<open>float\<close> of a text, \<open>difflib.get_close_matches\<close>). A function is
  known by its signature; log lines are left out.
\<close>

section \<open>Signatures\<close>

datatype param_kind = OrdinaryParam | VarPositional | VarKeyword

datatype annotation = AnnLiteral "pyval list" | AnnUnion "annotation list" | AnnOther

record fn_param =
  fp_name :: string
  fp_kind :: param_kind
  fp_has_default :: bool
  fp_annotation :: "annotation option"

text \<open>A callable that \<open>inspect\<close> cannot read is \<open>None\<close>; hints that do not resolve are empty.\<close>

record fn_signature =
  fs_params :: "fn_param list"
  fs_hints :: "(string, annotation) dict"

definition accepted_params :: "fn_signature option \<Rightarrow> string list \<times> bool" where
  "accepted_params fn =
     (case fn of
        None \<Rightarrow> ([], True)
      | Some sig \<Rightarrow>
          (map fp_name (filter (\<lambda>p. fp_kind p = OrdinaryParam) (fs_params sig)),
           list_ex (\<lambda>p. fp_kind p = VarKeyword) (fs_params sig)))"

section \<open>Names\<close>

definition py_islower :: "string \<Rightarrow> bool" where
  "py_islower s \<longleftrightarrow> list_ex is_lower s \<and> \<not> list_ex is_upper s"

definition py_isupper :: "string \<Rightarrow> bool" where
  "py_isupper s \<longleftrightarrow> list_ex is_upper s \<and> \<not> list_ex is_lower s"

text \<open>An underscore before every capital but the first character.\<close>

definition split_camel :: "string \<Rightarrow> string" where
  "split_camel s =
     (case s of [] \<Rightarrow> [] | c # cs \<Rightarrow> c # concat (map (\<lambda>d. if is_upper d then [CHR ''_'', d] else [d]) cs))"

definition snake_case :: "string \<Rightarrow> string" where
  "snake_case name =
     (if CHR ''_'' \<in> set name \<or> py_islower name
      then (if py_isupper name then py_lower name else name)
      else py_lower (split_camel name))"

section \<open>Forcing strings\<close>

definition skip_spaces :: "string \<Rightarrow> string" where
  "skip_spaces s = dropWhile is_space s"

definition skip_dash :: "string \<Rightarrow> string" where
  "skip_dash s = (case s of [] \<Rightarrow> [] | c # cs \<Rightarrow> if c \<in> {CHR ''-'', CHR ''_''} then cs else s)"

text \<open>
  The first digits followed by a unit, \<open>(\d+)\s*[-_]?\s*(?:unit|unit)\<close>: a search that fails
  at the head of a run of digits fails in the whole run.
\<close>

function number_before :: "string list \<Rightarrow> string \<Rightarrow> string option" where
  "number_before units s =
     (case s of
        [] \<Rightarrow> None
      | c # cs \<Rightarrow>
          if is_digit c
          then (let ds = takeWhile is_digit s; rest = dropWhile is_digit s in
                if list_ex (\<lambda>u. starts_with u (skip_spaces (skip_dash (skip_spaces rest)))) units
                then Some ds else number_before units rest)
          else number_before units cs)"
  by pat_completeness auto
termination
  by (relation "measure (\<lambda>(units, s). length s)")
     (auto simp: le_imp_less_Suc length_dropWhile_le)

declare number_before.simps [simp del]

definition parse_forcing_string :: "string \<Rightarrow> (string \<times> int) list" where
  "parse_forcing_string s =
     (let lower = py_lower s;
          years = Option.bind (number_before [''yr'', ''year''] lower) int_of_digits;
          hours = Option.bind (number_before [''hr'', ''hour''] lower) int_of_digits
      in (case years of Some n \<Rightarrow> [(''return_period_years'', n)] | None \<Rightarrow> []) @
         (case hours of Some n \<Rightarrow> [(''duration_hours'', n)] | None \<Rightarrow> []))"

section \<open>Bounding boxes\<close>

fun fields_by :: "(char \<Rightarrow> bool) \<Rightarrow> string \<Rightarrow> string \<Rightarrow> string list" where
  "fields_by sep w [] = (if w = [] then [] else [rev w])"
| "fields_by sep w (c # s) =
     (if sep c then (if w = [] then fields_by sep [] s else rev w # fields_by sep [] s)
      else fields_by sep (c # w) s)"

definition unquote :: "string \<Rightarrow> string" where
  "unquote s =
     (if 2 \<le> length s \<and> hd s \<in> {CHR 0x22, CHR 0x27} \<and> last s = hd s
      then py_strip (butlast (tl s)) else s)"

fun all_some :: "'a option list \<Rightarrow> 'a list option" where
  "all_some [] = Some []"
| "all_some (None # xs) = None"
| "all_some (Some x # xs) = map_option ((#) x) (all_some xs)"

definition text_numbers :: "string \<Rightarrow> pyfloat list option" where
  "text_numbers text =
     (let s = unquote (unquote (py_strip text));
          s' = (if s \<noteq> [] \<and> hd s \<in> {CHR ''['', CHR ''(''} \<and> last s \<in> {CHR '']'', CHR '')''}
                then butlast (tl s) else s)
      in all_some (map float_of_text (fields_by (\<lambda>c. c = CHR '','' \<or> is_space c) [] (py_strip s'))))"

fun real_of :: "pyval \<Rightarrow> pyfloat option" where
  "real_of (PInt n) = Some (Fin (of_int n))"
| "real_of (PFloat f) = Some f"
| "real_of v = None"

definition box_of :: "pyfloat list \<Rightarrow> rat list option" where
  "box_of fs =
     (if length fs = 4 then all_some (map (\<lambda>f. case f of Fin q \<Rightarrow> Some q | _ \<Rightarrow> None) fs) else None)"

definition as_bbox :: "pyval \<Rightarrow> rat list option" where
  "as_bbox value =
     (case value of
        PStr s \<Rightarrow> Option.bind (text_numbers s) box_of
      | PList vs \<Rightarrow> Option.bind (all_some (map real_of vs)) box_of
      | PTuple vs \<Rightarrow> Option.bind (all_some (map real_of vs)) box_of
      | _ \<Rightarrow> None)"

definition box_value :: "rat list \<Rightarrow> pyval" where
  "box_value box = PList (map (\<lambda>q. PFloat (Fin q)) box)"

definition valid_aoi :: "pyval \<Rightarrow> rat list option" where
  "valid_aoi candidate =
     (case as_bbox candidate of
        Some [w, s, e, n] \<Rightarrow> if w < e \<and> s < n then Some [w, s, e, n] else None
      | _ \<Rightarrow> None)"

definition bbox_autofill_params :: "string list" where
  "bbox_autofill_params = [''bbox'', ''aoi_bbox'']"

definition autofill_param :: "pyval \<Rightarrow> pyval \<Rightarrow> (string, pyval) dict \<Rightarrow> fn_param \<Rightarrow>
    (string, pyval) dict \<Rightarrow> (string, pyval) dict" where
  "autofill_param active_aoi case_bbox params p out =
     (if \<not> List.member bbox_autofill_params (fp_name p) \<or> fp_kind p \<noteq> OrdinaryParam \<or>
         fp_has_default p \<or> pget params (fp_name p) \<noteq> PNone
      then out
      else (case (case valid_aoi active_aoi of Some b \<Rightarrow> Some b | None \<Rightarrow> valid_aoi case_bbox) of
              None \<Rightarrow> out
            | Some b \<Rightarrow> dput (fp_name p) (box_value b) out))"

definition autofill_missing_bbox ::
  "(string, pyval) dict \<Rightarrow> fn_signature option \<Rightarrow> pyval \<Rightarrow> pyval \<Rightarrow> (string, pyval) dict" where
  "autofill_missing_bbox params fn active_aoi case_bbox =
     (case fn of
        None \<Rightarrow> params
      | Some sig \<Rightarrow> fold (autofill_param active_aoi case_bbox params) (fs_params sig) params)"

section \<open>Enumerations\<close>

text \<open>
  \<open>difflib.SequenceMatcher\<close>, for texts under 200 characters (from there it ignores popular
  ones): the longest block common to two texts, the earliest in the first, then in the
  second; the blocks left and right of it in turn.
\<close>

fun block_len :: "string \<Rightarrow> string \<Rightarrow> nat" where
  "block_len (a # as) (b # bs) = (if a = b then Suc (block_len as bs) else 0)"
| "block_len as bs = 0"

definition block_sizes :: "string \<Rightarrow> string \<Rightarrow> (nat \<times> nat \<times> nat) list" where
  "block_sizes xs ys =
     concat (map (\<lambda>i. map (\<lambda>j. (i, j, block_len (drop i xs) (drop j ys))) [0..<length ys]) [0..<length xs])"

definition longest_match :: "string \<Rightarrow> string \<Rightarrow> nat \<times> nat \<times> nat" where
  "longest_match xs ys =
     foldl (\<lambda>best b. if snd (snd best) < snd (snd b) then b else best) (0, 0, 0) (block_sizes xs ys)"

lemma block_len_le: "block_len xs ys \<le> length xs"
  by (induction xs ys rule: block_len.induct) auto

lemma longest_match_fits:
  assumes "longest_match xs ys = (i, j, k)"
  shows "i + k \<le> length xs"
proof -
  define ok :: "nat \<times> nat \<times> nat \<Rightarrow> bool" where "ok = (\<lambda>(i, j, k). i + k \<le> length xs)"
  have all: "list_all ok (block_sizes xs ys)"
  proof -
    have "i + block_len (drop i xs) zs \<le> length xs" if "i < length xs" for i zs
      using block_len_le [of "drop i xs" zs] that by simp
    then show ?thesis by (auto simp: block_sizes_def list_all_iff ok_def)
  qed
  have "ok (foldl (\<lambda>best b. if snd (snd best) < snd (snd b) then b else best) b0 bs)"
    if "ok b0" "list_all ok bs" for b0 bs
    using that by (induction bs arbitrary: b0) auto
  from this [of "(0, 0, 0)", OF _ all] have "ok (longest_match xs ys)"
    by (simp add: longest_match_def ok_def)
  with assms show ?thesis by (simp add: ok_def)
qed

function matched_chars :: "string \<Rightarrow> string \<Rightarrow> nat" where
  "matched_chars xs ys =
     (let (i, j, k) = longest_match xs ys in
      if k = 0 then 0
      else matched_chars (take i xs) (take j ys) + k + matched_chars (drop (i + k) xs) (drop (j + k) ys))"
  by pat_completeness auto
termination
proof (relation "measure (\<lambda>(xs, ys). length xs)")
  fix xs ys b i bc j k
  assume "b = longest_match xs ys" "(i, bc) = b" "(j, k) = bc" "k \<noteq> 0"
  moreover from this longest_match_fits [of xs ys i j k] have "i + k \<le> length xs" by simp
  ultimately show "((take i xs, take j ys), (xs, ys)) \<in> measure (\<lambda>(xs, ys). length xs)"
    and "((drop (i + k) xs, drop (j + k) ys), (xs, ys)) \<in> measure (\<lambda>(xs, ys). length xs)"
    by auto
qed simp

declare matched_chars.simps [simp del]

definition sequence_ratio :: "string \<Rightarrow> string \<Rightarrow> rat" where
  "sequence_ratio a b =
     (if length a + length b = 0 then 1
      else 2 * of_nat (matched_chars a b) / of_nat (length a + length b))"

text \<open>\<open>get_close_matches(word, possibilities, n=1, cutoff)\<close>: the best, the last of equals by text.\<close>

definition best_close_match :: "string \<Rightarrow> string list \<Rightarrow> rat \<Rightarrow> string option" where
  "best_close_match word possibilities cutoff =
     (case filter (\<lambda>x. cutoff \<le> sequence_ratio x word) possibilities of
        [] \<Rightarrow> None
      | x # xs \<Rightarrow>
          Some (foldl (\<lambda>best y. if sequence_ratio best word < sequence_ratio y word \<or>
                                   (sequence_ratio best word = sequence_ratio y word \<and> best < y)
                                then y else best) x xs))"

definition enum_fuzzy_cutoff :: rat where
  "enum_fuzzy_cutoff = 4 / 5"

definition enum_fuzzy_enabled :: "string option \<Rightarrow> bool" where
  "enum_fuzzy_enabled raw =
     (\<not> List.member [''0'', ''off'', ''false'', ''no'']
        (py_lower (py_strip (case raw of None \<Rightarrow> '''' | Some t \<Rightarrow> t))))"

fun literal_values :: "annotation \<Rightarrow> string list"
  and first_literal :: "annotation list \<Rightarrow> string list" where
  "literal_values (AnnLiteral vals) =
     (if vals \<noteq> [] \<and> list_all is_str vals
      then map (\<lambda>v. case v of PStr s \<Rightarrow> s | _ \<Rightarrow> []) vals else [])"
| "literal_values (AnnUnion members) = first_literal members"
| "literal_values AnnOther = []"
| "first_literal [] = []"
| "first_literal (m # ms) = (if literal_values m \<noteq> [] then literal_values m else first_literal ms)"

definition literal_choices :: "fn_signature option \<Rightarrow> (string, string list) dict" where
  "literal_choices fn =
     (case fn of
        None \<Rightarrow> []
      | Some sig \<Rightarrow>
          fold (\<lambda>p out.
              (case (case dget (fs_hints sig) (fp_name p) of Some a \<Rightarrow> Some a | None \<Rightarrow> fp_annotation p) of
                 None \<Rightarrow> out
               | Some a \<Rightarrow> if literal_values a \<noteq> [] then dput (fp_name p) (literal_values a) out else out))
            (fs_params sig) [])"

definition enum_norm :: "string \<Rightarrow> string" where
  "enum_norm value =
     map (\<lambda>c. if c = CHR ''-'' \<or> c = CHR '' '' then CHR ''_'' else c) (py_lower (py_strip value))"

definition norm_map_of :: "string list \<Rightarrow> (string, string) dict" where
  "norm_map_of choices = fold (\<lambda>c m. dput (enum_norm c) c m) choices []"

definition corrected_choice :: "string list \<Rightarrow> string \<Rightarrow> string option" where
  "corrected_choice choices value =
     (let norm_map = norm_map_of choices; norm_val = enum_norm value in
      case dget norm_map norm_val of
        Some c \<Rightarrow> Some c
      | None \<Rightarrow> Option.bind (best_close_match norm_val (dkeys norm_map) enum_fuzzy_cutoff) (dget norm_map))"

definition correct_param ::
  "(string, pyval) dict \<Rightarrow> string \<times> string list \<Rightarrow> (string, pyval) dict \<Rightarrow> (string, pyval) dict" where
  "correct_param params nc out =
     (case pget params (fst nc) of
        PStr value \<Rightarrow>
          (if List.member (snd nc) value then out
           else (case corrected_choice (snd nc) value of
                   None \<Rightarrow> out
                 | Some c \<Rightarrow> if c = value then out else dput (fst nc) (PStr c) out))
      | _ \<Rightarrow> out)"

definition fuzzy_correct_enum_args ::
  "string option \<Rightarrow> (string, pyval) dict \<Rightarrow> fn_signature option \<Rightarrow> (string, pyval) dict" where
  "fuzzy_correct_enum_args env_flag params fn =
     (if params = [] \<or> \<not> enum_fuzzy_enabled env_flag then params
      else fold (correct_param params) (literal_choices fn) params)"

section \<open>normalize_args\<close>

text \<open>The name a key is renamed to, before it is matched with the signature.\<close>

definition rename_key ::
  "string list \<Rightarrow> (string, string) dict \<Rightarrow> (string, pyval) dict \<Rightarrow> (string, pyval) dict \<Rightarrow> string \<Rightarrow> string" where
  "rename_key accepted tool_aliases raw_args out key =
     (let snake = snake_case key;
          t1 = (if \<not> List.member accepted key \<and> snake \<noteq> key \<and>
                   (List.member accepted snake \<or> dhas tool_aliases snake \<or> dhas build_alias_map snake)
                then snake else key);
          t2 = (if \<not> List.member accepted t1
                then (case dget tool_aliases t1 of
                        Some mapped \<Rightarrow> if List.member accepted mapped then mapped else t1
                      | None \<Rightarrow> t1)
                else t1)
      in if \<not> List.member accepted t2
         then (case dget build_alias_map t2 of
                 Some cand \<Rightarrow> if cand \<noteq> [] \<and> List.member accepted cand \<and> \<not> dhas out cand \<and> \<not> dhas raw_args cand
                              then cand else t2
               | None \<Rightarrow> t2)
         else t2)"

definition absorb_arg ::
  "string list \<Rightarrow> bool \<Rightarrow> (string, string) dict \<Rightarrow> (string, pyval) dict \<Rightarrow> string \<times> pyval
     \<Rightarrow> (string, pyval) dict \<Rightarrow> (string, pyval) dict" where
  "absorb_arg accepted var_keyword tool_aliases raw_args kv out =
     (let target = rename_key accepted tool_aliases raw_args out (fst kv) in
      if List.member accepted target
      then (if dhas out target then out else dput target (snd kv) out)
      else if var_keyword then dput (fst kv) (snd kv) out
      else out)"

definition absorb_forcing :: "string list \<Rightarrow> (string, pyval) dict \<Rightarrow> (string, pyval) dict \<Rightarrow> (string, pyval) dict" where
  "absorb_forcing accepted raw_args out =
     (case (if py_truth (pget raw_args ''forcing'') then pget raw_args ''forcing''
            else pget raw_args ''rainfall_event'') of
        PStr forcing \<Rightarrow>
          (if List.member accepted ''return_period_years'' \<or> List.member accepted ''duration_hours''
           then fold (\<lambda>(k, n) o'. if List.member accepted k \<and> \<not> dhas o' k then dput k (PInt n) o' else o')
                  (parse_forcing_string forcing) out
           else out)
      | _ \<Rightarrow> out)"

fun is_number :: "pyval \<Rightarrow> bool" where
  "is_number (PInt n) = True"
| "is_number (PFloat f) = True"
| "is_number (PBool b) = True"
| "is_number v = False"

definition is_box_list :: "pyval \<Rightarrow> bool" where
  "is_box_list v =
     (case v of
        PList vs \<Rightarrow> length vs = 4 \<and> list_all is_number vs
      | PTuple vs \<Rightarrow> length vs = 4 \<and> list_all is_number vs
      | _ \<Rightarrow> False)"

definition coerce_bbox :: "string list \<Rightarrow> (string, pyval) dict \<Rightarrow> (string, pyval) dict" where
  "coerce_bbox accepted out =
     (case dget out ''bbox'' of
        None \<Rightarrow> out
      | Some v \<Rightarrow>
          (if List.member accepted ''bbox'' \<and> \<not> is_box_list v
           then (case as_bbox v of Some box \<Rightarrow> dput ''bbox'' (box_value box) out | None \<Rightarrow> out)
           else out))"

definition normalize_args ::
  "string option \<Rightarrow> string \<Rightarrow> (string, pyval) dict \<Rightarrow> fn_signature option \<Rightarrow> (string, pyval) dict" where
  "normalize_args env_flag tool_name raw_args fn =
     (if raw_args = [] then []
      else (let (accepted, var_keyword) = accepted_params fn;
                tool_aliases = dget_or tool_specific_aliases tool_name [];
                out = fold (absorb_arg accepted var_keyword tool_aliases raw_args) raw_args []
            in fuzzy_correct_enum_args env_flag
                 (coerce_bbox accepted (absorb_forcing accepted raw_args out)) fn))"

section \<open>What comes out\<close>

text \<open>
  A step that only writes keys of a set keeps the keys of a dictionary inside it.
\<close>

lemma dkeys_dput_subset: "set (dkeys (dput k v d)) = insert k (set (dkeys d))"
  using pydict.keys_get [of k d] by (auto simp: dput_keys)

lemma fold_keys_subset:
  assumes "\<And>x d. set (dkeys d) \<subseteq> K \<Longrightarrow> x \<in> set xs \<Longrightarrow> set (dkeys (f x d)) \<subseteq> K" "set (dkeys d) \<subseteq> K"
  shows "set (dkeys (fold f xs d)) \<subseteq> K"
  using assms by (induction xs arbitrary: d) auto

lemma absorb_keys:
  "set (dkeys out) \<subseteq> set acc \<Longrightarrow> set (dkeys (absorb_arg acc False al raw kv out)) \<subseteq> set acc"
  by (simp add: absorb_arg_def Let_def dkeys_dput_subset List.member_iff)

lemma forcing_keys:
  assumes "set (dkeys out) \<subseteq> set acc"
  shows "set (dkeys (absorb_forcing acc raw out)) \<subseteq> set acc"
proof -
  have "set (dkeys (fold (\<lambda>(k, n) o'. if List.member acc k \<and> \<not> dhas o' k then dput k (PInt n) o' else o') ps out))
      \<subseteq> set acc" for ps
    using assms by (intro fold_keys_subset) (auto simp: dkeys_dput_subset List.member_iff split: prod.splits if_splits)
  then show ?thesis using assms unfolding absorb_forcing_def by (simp only: split: pyval.split) simp
qed

lemma coerce_keys: "set (dkeys out) \<subseteq> set acc \<Longrightarrow> set (dkeys (coerce_bbox acc out)) \<subseteq> set acc"
  by (auto simp: coerce_bbox_def dkeys_dput_subset List.member_iff split: option.splits)

lemma correct_param_keys: "dkeys d = dkeys params \<Longrightarrow> dkeys (correct_param params nc d) = dkeys params"
  using pydict.keys_get [of "fst nc" params] pydict.keys_get [of "fst nc" d]
  by (auto simp: correct_param_def pget_def dget_or_def dput_keys split: pyval.splits option.splits)

lemma fuzzy_keys: "dkeys (fuzzy_correct_enum_args flag params fn) = dkeys params"
proof -
  have "dkeys (fold (correct_param params) xs d) = dkeys params" if "dkeys d = dkeys params" for xs d
    using that by (induction xs arbitrary: d) (simp_all add: correct_param_keys)
  then show ?thesis by (simp add: fuzzy_correct_enum_args_def)
qed


text \<open>A tool with a required box and a choice, for concrete instances.\<close>

definition sample_signature :: fn_signature where
  "sample_signature =
     \<lparr>fs_params =
        [\<lparr>fp_name = ''bbox'', fp_kind = OrdinaryParam, fp_has_default = False, fp_annotation = None\<rparr>,
         \<lparr>fp_name = ''variable'', fp_kind = OrdinaryParam, fp_has_default = True,
          fp_annotation = Some (AnnLiteral [PStr ''tmax'', PStr ''tmin''])\<rparr>],
      fs_hints = []\<rparr>"


lemma corrected_choice_in: "corrected_choice choices value = Some c \<Longrightarrow> c \<in> set choices"
proof -
  have vals: "dget (fold (\<lambda>c m. dput (enum_norm c) c m) cs m) k = Some c \<Longrightarrow>
      c \<in> set cs \<or> dget m k = Some c" for cs m k
  proof (induction cs arbitrary: m)
    case (Cons a cs)
    from Cons.IH [of "dput (enum_norm a) a m"] Cons.prems show ?case by (auto split: if_splits)
  qed simp
  then have "dget (norm_map_of choices) k = Some c \<Longrightarrow> c \<in> set choices" for k
    using vals [of choices "[]" k] by (simp add: norm_map_of_def)
  then show "corrected_choice choices value = Some c \<Longrightarrow> c \<in> set choices"
    by (auto simp: corrected_choice_def Let_def bind_eq_Some_conv split: option.splits)
qed

text \<open>What the correction does to one value.\<close>

definition corrected_value :: "string list \<Rightarrow> pyval \<Rightarrow> pyval option" where
  "corrected_value choices v =
     (case v of
        PStr value \<Rightarrow>
          (if List.member choices value then None
           else (case corrected_choice choices value of
                   None \<Rightarrow> None | Some c \<Rightarrow> if c = value then None else Some (PStr c)))
      | _ \<Rightarrow> None)"

lemma correct_param_get:
  "dget (correct_param params nc d) k =
     (if k = fst nc then (case corrected_value (snd nc) (pget params k) of None \<Rightarrow> dget d k | Some w \<Rightarrow> Some w)
      else dget d k)"
  by (auto simp: correct_param_def corrected_value_def split: pyval.splits option.splits)

lemma fold_correct_get:
  "dict_ok cs \<Longrightarrow> dget (fold (correct_param params) cs d) k =
     (case Option.bind (dget cs k) (\<lambda>choices. corrected_value choices (pget params k)) of
        None \<Rightarrow> dget d k | Some w \<Rightarrow> Some w)"
proof (induction cs arbitrary: d)
  case (Cons nc cs)
  obtain n ch where nc: "nc = (n, ch)" by (cases nc)
  have "dget cs n = None" using Cons.prems by (simp add: nc dget_None_iff)
  with Cons show ?case
    by (auto simp: nc correct_param_get split: option.split)
qed simp

lemma literal_choices_ok: "dict_ok (literal_choices fn)"
proof -
  have "dict_ok (fold (\<lambda>p out.
              (case (case dget h (fp_name p) of Some a \<Rightarrow> Some a | None \<Rightarrow> fp_annotation p) of
                 None \<Rightarrow> out
               | Some a \<Rightarrow> if literal_values a \<noteq> [] then dput (fp_name p) (literal_values a) out else out)) ps d)"
    if "dict_ok d" for h ps d
    using that by (induction ps arbitrary: d) (simp_all split: option.split)
  from this [of "[]"] show ?thesis by (cases fn) (simp_all add: literal_choices_def)
qed

text \<open>
  the correction of enumerations changes a value only to a declared choice of its
  parameter, and only where it is a string that is no choice; every other argument, and
  every key, stays.
\<close>

theorem enum_correction_in_choices:
  "dkeys (fuzzy_correct_enum_args flag params fn) = dkeys params \<and>
   (\<forall>k v. dget params k = Some v \<longrightarrow>
      dget (fuzzy_correct_enum_args flag params fn) k = Some v \<or>
      (\<exists>choices t c. dget (literal_choices fn) k = Some choices \<and> v = PStr t \<and> t \<notin> set choices \<and>
         c \<in> set choices \<and> dget (fuzzy_correct_enum_args flag params fn) k = Some (PStr c)))"
proof (intro conjI allI impI)
  show "dkeys (fuzzy_correct_enum_args flag params fn) = dkeys params" by (rule fuzzy_keys)
next
  fix k v
  assume k: "dget params k = Some v"
  have cv: "corrected_value ch x = Some w \<Longrightarrow>
      \<exists>t c. x = PStr t \<and> t \<notin> set ch \<and> c \<in> set ch \<and> w = PStr c" for ch x w
    by (auto simp: corrected_value_def List.member_iff dest: corrected_choice_in
        split: pyval.splits if_splits option.splits)
  have "pget params k = v" using k by (simp add: pget_def dget_or_def)
  with fold_correct_get [OF literal_choices_ok [of fn], of params params k] k
  show "dget (fuzzy_correct_enum_args flag params fn) k = Some v \<or>
      (\<exists>choices t c. dget (literal_choices fn) k = Some choices \<and> v = PStr t \<and> t \<notin> set choices \<and>
         c \<in> set choices \<and> dget (fuzzy_correct_enum_args flag params fn) k = Some (PStr c))"
    by (auto simp: fuzzy_correct_enum_args_def bind_eq_Some_conv split: option.splits dest!: cv)
qed

theorem enum_correction_in_choices_witness:
  "dget (fuzzy_correct_enum_args None [(''bbox'', PInt 3)] (Some sample_signature)) ''bbox'' = Some (PInt 3)"
  using enum_correction_in_choices [of None "[(''bbox'', PInt 3)]" "Some sample_signature",
      THEN conjunct2, rule_format, of "''bbox''" "PInt 3"] by simp

section \<open>Order and repetition\<close>

lemma no_choices [simp]: "literal_choices fn = [] \<Longrightarrow> fuzzy_correct_enum_args flag params fn = params"
  by (simp add: fuzzy_correct_enum_args_def)

lemma box_not_coerced:
  "dget out ''bbox'' = Some v \<Longrightarrow> is_box_list v \<Longrightarrow> coerce_bbox acc out = out"
  by (simp add: coerce_bbox_def)

lemma snake_underscored: "CHR ''_'' \<in> set s \<Longrightarrow> \<not> py_isupper s \<Longrightarrow> snake_case s = s"
  by (simp add: snake_case_def)

text \<open>
  which of an alias and the canonical name wins is their order in the call: an alias
  that comes first takes the place and the canonical argument is dropped.
\<close>

theorem alias_order_decides:
  assumes "accepted_params fn = (accepted, var_keyword)" "literal_choices fn = []"
    and "''bbox'' \<in> set accepted" "''bounding_box'' \<notin> set accepted"
    and "is_box_list a" "is_box_list b"
  shows "normalize_args flag ''fetch_gridmet'' [(''bounding_box'', a), (''bbox'', b)] fn = [(''bbox'', a)] \<and>
         normalize_args flag ''fetch_gridmet'' [(''bbox'', b), (''bounding_box'', a)] fn = [(''bbox'', b)]"
proof -
  have snake: "snake_case ''bounding_box'' = ''bounding_box''"
    by (rule snake_underscored) (simp_all add: py_isupper_def is_lower_def char_code_def)
  have table: "dget_or tool_specific_aliases ''fetch_gridmet'' [] = aliases_gridmet"
    "dget aliases_gridmet ''bounding_box'' = Some ''bbox''"
    by (simp_all add: tool_specific_aliases_def dget_or_def aliases_gridmet_def)
  have rename: "rename_key accepted aliases_gridmet raw out ''bounding_box'' = ''bbox''"
    "rename_key accepted aliases_gridmet raw out ''bbox'' = ''bbox''" for raw out
    using assms(3,4) by (simp_all add: rename_key_def snake table List.member_iff Let_def)
  have forcing: "absorb_forcing accepted [(''bounding_box'', x), (''bbox'', y)] out = out"
    "absorb_forcing accepted [(''bbox'', y), (''bounding_box'', x)] out = out" for x y out
    by (simp_all add: absorb_forcing_def pget_def dget_or_def)
  show ?thesis
    using assms by (simp add: normalize_args_def table absorb_arg_def rename forcing List.member_iff
        box_not_coerced dput_def dhas_def)
qed

definition box_signature :: fn_signature where
  "box_signature =
     \<lparr>fs_params = [\<lparr>fp_name = ''bbox'', fp_kind = OrdinaryParam, fp_has_default = False, fp_annotation = None\<rparr>],
      fs_hints = []\<rparr>"

theorem alias_order_decides_witness:
  "normalize_args None ''fetch_gridmet''
     [(''bounding_box'', PList [PInt 0, PInt 0, PInt 1, PInt 1]), (''bbox'', PList [PInt 2, PInt 2, PInt 3, PInt 3])]
     (Some box_signature) = [(''bbox'', PList [PInt 0, PInt 0, PInt 1, PInt 1])]"
  using alias_order_decides [of "Some box_signature" "[''bbox'']" False
      "PList [PInt 0, PInt 0, PInt 1, PInt 1]" "PList [PInt 2, PInt 2, PInt 3, PInt 3]" None]
  by (simp add: accepted_params_def literal_choices_def box_signature_def is_box_list_def)

text \<open>
  normalizing a second time can add arguments: the string of a misspelt forcing key is
  renamed by the first pass and read by the second.
\<close>

theorem normalize_twice_differs:
  assumes "accepted_params fn = (accepted, var_keyword)" "literal_choices fn = []"
    and "''forcing'' \<in> set accepted" "''return_period_years'' \<in> set accepted" "''Forcing'' \<notin> set accepted"
    and "dget_or tool_specific_aliases tool [] = []"
  shows "let once = normalize_args flag tool [(''Forcing'', PStr ''100yr'')] fn in
         once = [(''forcing'', PStr ''100yr'')] \<and>
         normalize_args flag tool once fn =
           [(''forcing'', PStr ''100yr''), (''return_period_years'', PInt 100)]"
proof -
  have f: "char_of (102 :: nat) = CHR ''f''" using char_of_char [of "CHR ''f''"] by simp
  have snake: "snake_case ''Forcing'' = ''forcing''" "snake_case ''forcing'' = ''forcing''"
    by (simp_all add: f snake_case_def py_islower_def py_isupper_def is_lower_def is_upper_def char_code_def
        split_camel_def py_lower_def lower_char_def)
  have rename: "rename_key accepted [] raw out ''Forcing'' = ''forcing''"
    "rename_key accepted [] raw out ''forcing'' = ''forcing''" for raw out
    using assms(3,5) by (simp_all add: rename_key_def snake List.member_iff Let_def)
  have "number_before [''hr'', ''hour''] ''100yr'' = None"
    by (simp add: number_before.simps is_digit_def char_code_def skip_spaces_def skip_dash_def is_space_def
        starts_with_def)
  moreover have "number_before [''yr'', ''year''] ''100yr'' = Some ''100''"
    by (simp add: number_before.simps is_digit_def char_code_def skip_spaces_def skip_dash_def is_space_def
        starts_with_def)
  moreover have "py_lower ''100yr'' = ''100yr''" by (simp add: py_lower_def lower_char_def char_code_def)
  moreover have "digits_value ''100'' = 100" by (simp add: digits_value_def digit_value_def char_code_def)
  ultimately have parsed: "parse_forcing_string ''100yr'' = [(''return_period_years'', 100)]"
    by (simp add: parse_forcing_string_def int_of_digits_def)
  have first: "absorb_forcing accepted [(''Forcing'', PStr ''100yr'')] out = out" for out
    by (simp add: absorb_forcing_def pget_def dget_or_def)
  have second: "absorb_forcing accepted [(''forcing'', PStr ''100yr'')] out =
      (if dhas out ''return_period_years'' then out else dput ''return_period_years'' (PInt 100) out)" for out
    using assms(4) by (simp add: absorb_forcing_def pget_def dget_or_def parsed List.member_iff)
  show ?thesis
    using assms by (simp add: Let_def normalize_args_def absorb_arg_def rename first second List.member_iff
        coerce_bbox_def dput_def dhas_def)
qed

definition storm_signature :: fn_signature where
  "storm_signature =
     \<lparr>fs_params =
        [\<lparr>fp_name = ''forcing'', fp_kind = OrdinaryParam, fp_has_default = True, fp_annotation = None\<rparr>,
         \<lparr>fp_name = ''return_period_years'', fp_kind = OrdinaryParam, fp_has_default = True, fp_annotation = None\<rparr>],
      fs_hints = []\<rparr>"

theorem normalize_twice_differs_witness:
  "normalize_args None ''run_flood''
     (normalize_args None ''run_flood'' [(''Forcing'', PStr ''100yr'')] (Some storm_signature))
     (Some storm_signature) = [(''forcing'', PStr ''100yr''), (''return_period_years'', PInt 100)]"
proof -
  have "accepted_params (Some storm_signature) = ([''forcing'', ''return_period_years''], False)"
    "literal_choices (Some storm_signature) = []"
    by (simp_all add: accepted_params_def literal_choices_def storm_signature_def)
  moreover have "dget_or tool_specific_aliases ''run_flood'' [] = []"
    by (simp add: tool_specific_aliases_def dget_or_def)
  ultimately have "let once = normalize_args None ''run_flood'' [(''Forcing'', PStr ''100yr'')] (Some storm_signature) in
         once = [(''forcing'', PStr ''100yr'')] \<and>
         normalize_args None ''run_flood'' once (Some storm_signature) =
           [(''forcing'', PStr ''100yr''), (''return_period_years'', PInt 100)]"
    by (intro normalize_twice_differs [of _ "[''forcing'', ''return_period_years'']" False]) simp_all
  then show ?thesis unfolding Let_def by (elim conjE)
qed

section \<open>Autofill\<close>

fun ordered_box :: "rat list \<Rightarrow> bool" where
  "ordered_box [w, s, e, n] \<longleftrightarrow> w < e \<and> s < n"
| "ordered_box b \<longleftrightarrow> False"

lemma valid_aoi_ordered: "valid_aoi v = Some b \<Longrightarrow> ordered_box b"
  by (auto simp: valid_aoi_def split: option.splits list.splits if_splits)

text \<open>
  autofill never overrides: an argument given a value keeps it, and what it adds is an
  ordered finite box, under the name of a required box parameter the call left out.
\<close>

theorem autofill_respects_arguments:
  "\<forall>k. dget (autofill_missing_bbox params fn aoi case_box) k = dget params k \<or>
      (k \<in> set bbox_autofill_params \<and> pget params k = PNone \<and>
       (\<exists>p \<in> set (case fn of None \<Rightarrow> [] | Some sig \<Rightarrow> fs_params sig). fp_name p = k \<and> \<not> fp_has_default p) \<and>
       (\<exists>b. dget (autofill_missing_bbox params fn aoi case_box) k = Some (box_value b) \<and> ordered_box b))"
proof
  fix k
  define ok where "ok ps d \<longleftrightarrow> dget d k = dget params k \<or>
      (k \<in> set bbox_autofill_params \<and> pget params k = PNone \<and>
       (\<exists>p \<in> set ps. fp_name p = k \<and> \<not> fp_has_default p) \<and>
       (\<exists>b. dget d k = Some (box_value b) \<and> ordered_box b))"
    for ps :: "fn_param list" and d
  have step: "ok ps (autofill_param aoi case_box params p d)" if "ok ps d" "p \<in> set ps" for ps p d
    using that valid_aoi_ordered
    by (auto simp: ok_def autofill_param_def List.member_iff split: option.splits)
  have "ok ps (fold (autofill_param aoi case_box params) qs d)" if "ok ps d" "set qs \<subseteq> set ps" for ps qs d
    using that by (induction qs arbitrary: d) (simp_all add: step)
  from this [of _ params] have "ok (case fn of None \<Rightarrow> [] | Some sig \<Rightarrow> fs_params sig)
      (autofill_missing_bbox params fn aoi case_box)"
    by (cases fn) (simp_all add: autofill_missing_bbox_def ok_def)
  then show "dget (autofill_missing_bbox params fn aoi case_box) k = dget params k \<or>
      (k \<in> set bbox_autofill_params \<and> pget params k = PNone \<and>
       (\<exists>p \<in> set (case fn of None \<Rightarrow> [] | Some sig \<Rightarrow> fs_params sig). fp_name p = k \<and> \<not> fp_has_default p) \<and>
       (\<exists>b. dget (autofill_missing_bbox params fn aoi case_box) k = Some (box_value b) \<and> ordered_box b))"
    by (simp add: ok_def)
qed

end
