(* ===== verification/ConfirmGates.thy ===== *)
theory ConfirmGates
  imports PendingReplies PipelineCards ArgNormalizer
begin

text \<open>
  The gates of trid3nt_server/inputs/gate that park a turn on a card until the user decides
  (confirm.py, errors.py, cards/), the contracts they exchange, and their order at the
  dispatch of a tool (server/dispatch/emitter.py). A gate is an action on the session: it
  returns whether to run and the arguments approved, or raises.
\<close>

section \<open>Contracts\<close>

type_synonym call_args = "(string, pyval) dict"

datatype decision = Proceed | CancelCard | NarrowScope

definition decision_text :: "decision \<Rightarrow> string" where
  "decision_text d = (case d of Proceed \<Rightarrow> ''proceed'' | CancelCard \<Rightarrow> ''cancel'' | NarrowScope \<Rightarrow> ''narrow_scope'')"

record confirmation =
  cf_warning :: ulid
  cf_decision :: decision
  cf_revised :: "call_args option"

definition confirmation_valid :: "confirmation \<Rightarrow> bool" where
  "confirmation_valid c =
     (if cf_decision c = NarrowScope then cf_revised c \<noteq> None else cf_revised c = None)"

text \<open>\<open>revised_args or {}\<close>.\<close>

definition revised_or_empty :: "confirmation \<Rightarrow> call_args" where
  "revised_or_empty c = (case cf_revised c of None \<Rightarrow> [] | Some d \<Rightarrow> d)"

record warning_card =
  wc_id :: ulid
  wc_tool :: string
  wc_args :: call_args
  wc_mb :: pyfloat
  wc_threshold :: pyfloat
  wc_recommendation :: string
  wc_options :: "decision list"

text \<open>Whether \<open>pydantic\<close> lets a NaN pass \<open>ge=0\<close> is the parameter \<open>nan_ok\<close>.\<close>

definition at_least_zero :: "bool \<Rightarrow> pyfloat \<Rightarrow> bool" where
  "at_least_zero nan_ok f = (if f = NaN then nan_ok else \<not> float_less f (Fin 0))"

definition warning_valid :: "bool \<Rightarrow> warning_card \<Rightarrow> bool" where
  "warning_valid nan_ok c \<longleftrightarrow>
     wc_tool c \<noteq> [] \<and> at_least_zero nan_ok (wc_mb c) \<and> at_least_zero nan_ok (wc_threshold c) \<and>
     length (wc_recommendation c) \<le> 512 \<and>
     1 \<le> length (wc_options c) \<and> length (wc_options c) \<le> 3 \<and> distinct (wc_options c)"

datatype gate_kind = SolverGate | FetchGate

record lever_spec =
  lv_name :: string
  lv_param :: string
  lv_unit :: string
  lv_rungs :: "pyfloat list option"
  lv_min :: "pyfloat option"
  lv_max :: "pyfloat option"
  lv_pin_on_proceed :: bool

definition lever_valid :: "lever_spec \<Rightarrow> bool" where
  "lever_valid l =
     (lv_name l \<noteq> [] \<and> lv_param l \<noteq> [] \<and>
      (if lv_rungs l \<noteq> None \<and> (lv_min l \<noteq> None \<or> lv_max l \<noteq> None) then False
       else (case (lv_min l, lv_max l) of (Some a, Some b) \<Rightarrow> \<not> float_less b a | _ \<Rightarrow> True)))"

record gate_spec =
  gs_kind :: gate_kind
  gs_estimate :: string
  gs_pin :: "string option"
  gs_levers :: "lever_spec list"

definition gate_spec_valid :: "gate_spec \<Rightarrow> bool" where
  "gate_spec_valid g =
     (gs_estimate g \<noteq> [] \<and> list_all lever_valid (gs_levers g) \<and>
      (if gs_levers g \<noteq> [] then gs_pin g \<noteq> None else True))"

text \<open>\<open>CardEstimate\<close>: a card, or none where no gate is needed, and what the pin provider reads.\<close>

record card_estimate =
  ce_card :: "warning_card option"
  ce_tail :: pyval

text \<open>
  The dotted name of a provider: its module and its attribute. The providers themselves belong
  to the engines and are parameters, by that name; a builder is given the ULID of its card.
\<close>

definition provider_reference :: "string \<Rightarrow> string \<times> string" where
  "provider_reference dotted =
     (case after_first '':'' dotted of
        Some attr \<Rightarrow> (takeWhile (\<lambda>c. c \<noteq> CHR '':'') dotted, attr)
      | None \<Rightarrow> (before_last CHR ''.'' dotted, after_last CHR ''.'' dotted))"

record gate_tool =
  gt_name :: string
  gt_signature :: "fn_signature option"
  gt_estimator :: "string option"
  gt_functions :: "string \<Rightarrow> (call_args \<Rightarrow> py_exn + pyval) option"
  gt_spec :: "gate_spec option"

record code_card =
  cc_id :: ulid
  cc_code :: string
  cc_rationale :: "string option"

definition code_cap :: nat where
  "code_cap = 64 * 1024"

definition code_card_valid :: "code_card \<Rightarrow> bool" where
  "code_card_valid c \<longleftrightarrow>
     1 \<le> length (cc_code c) \<and> length (cc_code c) \<le> code_cap \<and>
     (case cc_rationale c of None \<Rightarrow> True | Some r \<Rightarrow> length r \<le> 512)"

section \<open>The session\<close>

datatype gate_frame =
    WarningFrame warning_card
  | CodeFrame code_card
  | ErrorFrame string string
  | ProcessingFrame ulid string string

text \<open>A row of \<open>payload_warning_audit_log\<close>, its two time stamps left out.\<close>

record audit_row =
  au_id :: ulid
  au_tool :: string
  au_mb :: pyfloat
  au_threshold :: pyfloat
  au_options :: "decision list"
  au_decision :: "string option"

record processing_response =
  pr_ok :: bool
  pr_result :: "call_args option"
  pr_error :: "string option"
  pr_stdout :: string

record gate_session =
  gw_confirmations :: "(ulid, confirmation) replies"
  gw_processing :: "(ulid, processing_response) replies"
  gw_sent :: "gate_frame list"
  gw_audit :: "audit_row list"
  gw_memory :: "(string \<times> string, call_args \<times> ulid) dict"
  gw_emitter :: emitter

type_synonym 'a gating = "(gate_session, py_exn, 'a) act"

text \<open>
  What a gate runs in: the session it belongs to, the registered tools, the settings, the
  environment, what \<open>pydantic\<close> and \<open>ULID.from_str\<close> accept; and, for each card, what other coroutines do to the registry while it is open
  and how the wait ends.
\<close>

record gate_env =
  ge_session :: string
  ge_tools :: "(string, gate_tool) dict"
  ge_environ :: "string \<Rightarrow> string option"
  ge_cap :: "rat option"
  ge_code_timeout :: rat
  ge_processing_timeout :: rat
  ge_nan_ok :: bool
  ge_ulid_ok :: "string \<Rightarrow> bool"
  ge_fixed :: "nat \<Rightarrow> pyfloat \<Rightarrow> string"
  ge_float :: "pyfloat \<Rightarrow> string"
  ge_estimate :: "string \<Rightarrow> string \<Rightarrow> ulid \<Rightarrow> call_args \<Rightarrow> py_exn + card_estimate"
  ge_pin :: "string \<Rightarrow> decision \<Rightarrow> call_args \<Rightarrow> call_args \<Rightarrow> pyval \<Rightarrow> py_exn + call_args option"
  ge_during :: "ulid \<Rightarrow> (ulid, confirmation) reply_op list"
  ge_end :: "ulid \<Rightarrow> wait_end"
  ge_ran :: "ulid \<Rightarrow> (ulid, processing_response) reply_op list"
  ge_ran_end :: "ulid \<Rightarrow> wait_end"
  ge_active_aoi :: pyval
  ge_case_bbox :: pyval
  ge_reusable :: "string \<Rightarrow> call_args \<Rightarrow> bool"
  ge_layers :: layer_world

definition on_emitter :: "'a emitting \<Rightarrow> 'a gating" where
  "on_emitter m w = (let (r, s) = m (gw_emitter w) in (r, w\<lparr>gw_emitter := s\<rparr>))"

definition send_gate_frame :: "gate_frame \<Rightarrow> unit gating" where
  "send_gate_frame f = updating (\<lambda>w. w\<lparr>gw_sent := gw_sent w @ [f]\<rparr>)"

definition ulid_text :: "gate_session \<Rightarrow> ulid \<Rightarrow> string" where
  "ulid_text w u = es_ulid_text (gw_emitter w) u"

definition repr_text :: "gate_session \<Rightarrow> string \<Rightarrow> string" where
  "repr_text w t = es_repr (gw_emitter w) (PStr t)"

section \<open>errors.py\<close>

definition user_declined :: exn_class where
  "user_declined = Derived ''UserDeclinedError'' ExcRuntimeError"

definition declined_error :: "string \<Rightarrow> string \<Rightarrow> string \<Rightarrow> string \<Rightarrow> call_args \<Rightarrow> py_exn" where
  "declined_error name code message note_text extra =
     \<lparr>exc_class = Derived name user_declined, exc_text = message,
      exc_attrs = [(''declined'', PBool True), (''retryable'', PBool False), (''error_code'', PStr code),
                   (''decline_note'', PStr note_text)] @ extra\<rparr>"

definition gate_timeout_class :: exn_class where
  "gate_timeout_class = Derived ''GateConfirmationTimeoutError'' ExcRuntimeError"

definition gate_timeout :: "gate_env \<Rightarrow> string \<Rightarrow> string \<Rightarrow> rat \<Rightarrow> py_exn" where
  "gate_timeout E shown subject timeout_s =
     \<lparr>exc_class = gate_timeout_class,
      exc_text = ''the '' @ shown @ '' for '' @ subject @ '' went unanswered for '' @ ge_fixed E 0 (Fin timeout_s) @
        ''s, so the call did not run. Nobody responded before the deadline and the user made no choice either way. '' @
        ''Tell them the card expired with no answer and ask whether to try again.'',
      exc_attrs = [(''error_code'', PStr ''CONFIRMATION_TIMEOUT''), (''retryable'', PBool False),
                   (''card'', PStr shown), (''subject'', PStr subject), (''timeout_s'', PFloat (Fin timeout_s))]\<rparr>"

definition payload_cancelled :: "gate_session \<Rightarrow> string \<Rightarrow> py_exn" where
  "payload_cancelled w tool =
     declined_error ''PayloadWarningCancelledError'' ''PAYLOAD_WARNING_CANCELLED''
       (''tool '' @ repr_text w tool @ '' dispatch cancelled via payload-warning gate (the user chose 'cancel')'')
       (''The user declined the payload-size warning card for '' @ tool @
        '', which asked whether to fetch a payload this large. The tool did not run.'')
       [(''tool_name'', PStr tool)]"

definition code_cancelled :: "string \<Rightarrow> string \<Rightarrow> py_exn" where
  "code_cancelled shown_id id_text =
     declined_error ''CodeExecConfirmationCancelledError'' ''CODE_EXEC_CANCELLED''
       (''run_pyqgis '' @ shown_id @ '' cancelled at the confirm gate (the user chose 'cancel'); the code did not run'')
       (''The user declined the code-approval card for run_pyqgis, which asked permission to run the '' @
        ''proposed snippet in their QGIS session. The code did not run.'')
       [(''code_exec_id'', PStr id_text)]"

definition solver_cancelled :: "string \<Rightarrow> py_exn" where
  "solver_cancelled tool =
     declined_error ''SolverConfirmationCancelledError'' ''SOLVER_CONFIRMATION_CANCELLED''
       (tool @ '' declined at the parameter-confirmation gate (the user chose 'cancel'); the solver did not run'')
       (''The user declined the parameter-confirmation card for '' @ tool @
        '', which asked whether to start the run with the parameters it showed. The run did not start.'')
       [(''tool_name'', PStr tool)]"

section \<open>Waiting for a card\<close>

definition local_gate_timeout :: rat where
  "local_gate_timeout = 24 * 3600"

definition gate_wait_timeout :: "gate_env \<Rightarrow> rat" where
  "gate_wait_timeout E = (case ge_cap E of Some c \<Rightarrow> min local_gate_timeout c | None \<Rightarrow> local_gate_timeout)"

text \<open>\<open>_PENDING_CONFIRMATIONS.park\<close> with a send that never raises.\<close>

definition park_card :: "gate_env \<Rightarrow> ulid \<Rightarrow> gate_frame \<Rightarrow> confirmation gating" where
  "park_card E wid frame w =
     (let (out, r) = park (ge_session E) wid None (ge_during E wid) (ge_end E wid) (gw_confirmations w)
      in (out, w\<lparr>gw_confirmations := r, gw_sent := gw_sent w @ [frame]\<rparr>))"

text \<open>The wait, and what is done of a card nobody answered; any other failure goes on.\<close>

definition wait_card ::
  "gate_env \<Rightarrow> ulid \<Rightarrow> gate_frame \<Rightarrow> confirmation gating \<Rightarrow> confirmation gating" where
  "wait_card E wid frame expired =
     on_error (park_card E wid frame) (\<lambda>e. if isinstance e [ExcTimeoutError] then expired else raising e)"

text \<open>
  The inbound handler of \<open>tool-payload-confirmation\<close>: a payload the contract refuses is reported
  and goes no further; whether the reply was taken is the result.
\<close>

definition on_confirmation :: "string \<Rightarrow> string \<Rightarrow> confirmation \<Rightarrow> bool gating" where
  "on_confirmation session why c =
     (if \<not> confirmation_valid c
      then then_do (send_gate_frame (ErrorFrame ''TOOL_PARAMS_INVALID'' (''tool-payload-confirmation invalid: '' @ why)))
             (\<lambda>_. returning False)
      else (\<lambda>w. let (taken, r) = resolve session (cf_warning c) c (gw_confirmations w)
                in (Inr taken, w\<lparr>gw_confirmations := r\<rparr>)))"

section \<open>The confirm engine\<close>

definition merged_args :: "call_args \<Rightarrow> call_args \<Rightarrow> call_args" where
  "merged_args params delta = fold (\<lambda>(k, v) d. dput k v d) delta params"

definition declined_frame :: "gate_session \<Rightarrow> string \<Rightarrow> decision \<Rightarrow> gate_frame" where
  "declined_frame w tool d =
     ErrorFrame ''SOLVER_CONFIRMATION_CANCELLED''
       (tool @ '' declined by user (decision='' @ repr_text w (decision_text d) @ ''); the solver did not run'')"

definition decline :: "string \<Rightarrow> decision \<Rightarrow> call_args \<Rightarrow> (bool \<times> call_args) gating" where
  "decline tool d params = depending (\<lambda>w. then_do (send_gate_frame (declined_frame w tool d)) (\<lambda>_. returning (False, params)))"

text \<open>What follows an answer.\<close>

definition decided ::
  "gate_env \<Rightarrow> string \<Rightarrow> call_args \<Rightarrow> gate_spec \<Rightarrow> pyval \<Rightarrow> confirmation \<Rightarrow> (bool \<times> call_args) gating" where
  "decided E tool params spec tail c =
     (if cf_decision c = CancelCard then decline tool (cf_decision c) params
      else (case gs_pin spec of
              Some pin \<Rightarrow>
                (case ge_pin E pin (cf_decision c) (revised_or_empty c) params tail of
                   Inl e \<Rightarrow> raising e
                 | Inr None \<Rightarrow> decline tool (cf_decision c) params
                 | Inr (Some delta) \<Rightarrow> returning (True, merged_args params delta))
            | None \<Rightarrow>
                if cf_decision c = NarrowScope then decline tool (cf_decision c) params
                else returning (True, if gs_kind spec = SolverGate then dput ''confirmed'' (PBool True) params else params)))"

definition confirm_expired :: "gate_env \<Rightarrow> string \<Rightarrow> confirmation gating" where
  "confirm_expired E tool =
     then_do (send_gate_frame (ErrorFrame ''CONFIRMATION_TIMEOUT''
                (tool @ '' parameter-confirmation gate timed out; the solver did not run'')))
       (\<lambda>_. raising (gate_timeout E ''parameter-confirmation card'' tool (gate_wait_timeout E)))"

text \<open>
  \<open>_gate_on_confirm\<close>; the second result is the id of the card it sent, the \<open>_warning_id_out\<close> box.
  The id the builder may put on its card is drawn first.
\<close>

definition gate_on_confirm ::
  "gate_env \<Rightarrow> string \<Rightarrow> call_args \<Rightarrow> gate_spec \<Rightarrow> ((bool \<times> call_args) \<times> ulid option) gating" where
  "gate_on_confirm E tool params spec =
     then_do (on_emitter new_ulid) (\<lambda>fresh.
       case ge_estimate E (gs_estimate spec) tool fresh params of
         Inl e \<Rightarrow> if isinstance e [ExcException] then returning ((True, params), None) else raising e
       | Inr est \<Rightarrow>
           (case ce_card est of
              None \<Rightarrow> returning ((True, params), None)
            | Some shown \<Rightarrow>
                then_do (wait_card E (wc_id shown) (WarningFrame shown) (confirm_expired E tool)) (\<lambda>c.
                then_do (decided E tool params spec (ce_tail est) c) (\<lambda>r.
                returning (r, Some (wc_id shown))))))"

definition gate_spec_for :: "gate_env \<Rightarrow> string \<Rightarrow> gate_spec option" where
  "gate_spec_for E tool = Option.bind (dget (ge_tools E) tool) gt_spec"

definition confirm_tools_by_kind :: "gate_env \<Rightarrow> gate_kind \<Rightarrow> string list" where
  "confirm_tools_by_kind E k =
     map fst (filter (\<lambda>(n, t). case gt_spec t of None \<Rightarrow> False | Some g \<Rightarrow> gs_kind g = k) (ge_tools E))"

definition gate_on_solver_confirm :: "gate_env \<Rightarrow> string \<Rightarrow> call_args \<Rightarrow> ((bool \<times> call_args) \<times> ulid option) gating" where
  "gate_on_solver_confirm E tool params =
     (case gate_spec_for E tool of
        None \<Rightarrow> returning ((True, params), None)
      | Some spec \<Rightarrow> gate_on_confirm E tool params spec)"

section \<open>The memory of a turn\<close>

fun floats_of :: "pyval list \<Rightarrow> bool + pyfloat list" where
  "floats_of [] = Inr []"
| "floats_of (v # vs) =
     (case float_of_value v of
        Inl b \<Rightarrow> Inl b
      | Inr f \<Rightarrow> (case floats_of vs of Inl b \<Rightarrow> Inl b | Inr fs \<Rightarrow> Inr (f # fs)))"

definition sorted_style :: "(pyfloat \<Rightarrow> string) \<Rightarrow> json_style" where
  "sorted_style ft = \<lparr>item_sep = '', '', key_sep = '': '', sort_keys = True, float_text = ft\<rparr>"

definition four_values :: "pyval \<Rightarrow> pyval list option" where
  "four_values v =
     (case v of
        PList vs \<Rightarrow> if length vs = 4 then Some vs else None
      | PTuple vs \<Rightarrow> if length vs = 4 then Some vs else None
      | _ \<Rightarrow> None)"

text \<open>\<open>_gate_memory_key\<close>: a number too large for a float raises.\<close>

definition gate_memory_key ::
  "(pyfloat \<Rightarrow> string) \<Rightarrow> (pyval \<Rightarrow> string) \<Rightarrow> string \<Rightarrow> call_args \<Rightarrow> py_exn + string \<times> string" where
  "gate_memory_key ft rep tool params =
     (let whole = (tool, json_text (sorted_style ft) (PDict params)) in
      case four_values (pget params ''bbox'') of
        None \<Rightarrow> Inr whole
      | Some vs \<Rightarrow>
          (case floats_of vs of
             Inl overflow \<Rightarrow>
               if overflow then Inl (plain_exn (Derived ''OverflowError'' (Derived ''ArithmeticError'' ExcException))
                                       ''int too large to convert to float'')
               else Inr whole
           | Inr fs \<Rightarrow> Inr (tool, rep (PTuple (map (\<lambda>f. PFloat (round_6 f)) fs)))))"

text \<open>What the gate changed of the arguments: the overrides that are remembered.\<close>

definition gate_overrides :: "call_args \<Rightarrow> call_args \<Rightarrow> call_args" where
  "gate_overrides pre approved =
     filter (\<lambda>(k, v). case dget pre k of None \<Rightarrow> True | Some u \<Rightarrow> \<not> py_eq u v) approved"

definition remember :: "string \<times> string \<Rightarrow> call_args \<Rightarrow> ulid option \<Rightarrow> unit gating" where
  "remember key overrides shown =
     (case shown of
        None \<Rightarrow> returning ()
      | Some wid \<Rightarrow> updating (\<lambda>w. w\<lparr>gw_memory := dput key (overrides, wid) (gw_memory w)\<rparr>))"

definition gate_with_turn_memory :: "gate_env \<Rightarrow> string \<Rightarrow> call_args \<Rightarrow> (bool \<times> call_args) gating" where
  "gate_with_turn_memory E tool params = depending (\<lambda>w.
     case gate_memory_key (ge_float E) (es_repr (gw_emitter w)) tool params of
       Inl e \<Rightarrow> raising e
     | Inr key \<Rightarrow>
         (case dget (gw_memory w) key of
            Some (overrides, wid) \<Rightarrow> returning (True, merged_args params overrides)
          | None \<Rightarrow>
              then_do (gate_on_solver_confirm E tool params) (\<lambda>((run, approved), shown).
              if \<not> run then returning (False, approved)
              else then_do (remember key (gate_overrides params approved) shown) (\<lambda>_. returning (True, approved)))))"

section \<open>The payload-size gate\<close>

definition threshold_setting :: "gate_env \<Rightarrow> string \<Rightarrow> pyfloat \<Rightarrow> pyfloat" where
  "threshold_setting E name dflt =
     (case ge_environ E name of
        None \<Rightarrow> dflt
      | Some raw \<Rightarrow> (case float_of_text raw of None \<Rightarrow> dflt | Some f \<Rightarrow> f))"

definition warning_threshold_mb :: "gate_env \<Rightarrow> pyfloat" where
  "warning_threshold_mb E = threshold_setting E ''TRID3NT_PAYLOAD_WARNING_MB'' (Fin 25)"

definition hard_cap_mb :: "gate_env \<Rightarrow> pyfloat" where
  "hard_cap_mb E = threshold_setting E ''TRID3NT_PAYLOAD_HARDCAP_MB'' (Fin 250)"

text \<open>\<open>_resolve_payload_estimator\<close>: a callable of the tool's module, by name.\<close>

definition payload_estimator :: "gate_env \<Rightarrow> string \<Rightarrow> string \<Rightarrow> (call_args \<Rightarrow> py_exn + pyval) option" where
  "payload_estimator E tool name = Option.bind (dget (ge_tools E) tool) (\<lambda>t. gt_functions t name)"

text \<open>\<open>float(estimator(**params))\<close>: \<open>None\<close> where it faults.\<close>

definition estimated_payload :: "(call_args \<Rightarrow> py_exn + pyval) \<Rightarrow> call_args \<Rightarrow> py_exn + pyfloat option" where
  "estimated_payload fn params =
     (case fn params of
        Inl e \<Rightarrow> if isinstance e [ExcException] then Inr None else Inl e
      | Inr v \<Rightarrow> (case float_of_value v of Inl b \<Rightarrow> Inr None | Inr f \<Rightarrow> Inr (Some f)))"

definition payload_recommendation :: "gate_env \<Rightarrow> pyfloat \<Rightarrow> bool \<Rightarrow> string" where
  "payload_recommendation E mb over =
     ''Estimated payload '' @ ge_fixed E 1 mb @ '' MB exceeds the '' @
     (if over then ''hard cap'' else ''warning threshold'') @ '' ('' @
     ge_fixed E 0 (if over then hard_cap_mb E else warning_threshold_mb E) @
     '' MB). Consider narrowing bbox or other scope parameters.''"

definition with_detail ::
  "(pyval \<Rightarrow> string) \<Rightarrow> (call_args \<Rightarrow> py_exn + pyval) option \<Rightarrow> call_args \<Rightarrow> string \<Rightarrow> py_exn + string" where
  "with_detail rep fn params text =
     (case fn of
        None \<Rightarrow> Inr text
      | Some f \<Rightarrow>
          (case f params of
             Inl e \<Rightarrow> if isinstance e [ExcException] then Inr text else Inl e
           | Inr v \<Rightarrow> Inr (if py_truth v then take 512 (text @ '' '' @ py_str rep v) else text)))"

definition payload_options :: "bool \<Rightarrow> decision list" where
  "payload_options over = (if over then [CancelCard, NarrowScope] else [Proceed, CancelCard, NarrowScope])"

definition settle_audit :: "ulid \<Rightarrow> string \<Rightarrow> unit gating" where
  "settle_audit wid text =
     updating (\<lambda>w. w\<lparr>gw_audit := map (\<lambda>a. if au_id a = wid then a\<lparr>au_decision := Some text\<rparr> else a) (gw_audit w)\<rparr>)"

definition payload_expired :: "gate_env \<Rightarrow> string \<Rightarrow> ulid \<Rightarrow> confirmation gating" where
  "payload_expired E tool wid =
     then_do (settle_audit wid ''timeout'') (\<lambda>_. depending (\<lambda>w.
     then_do (send_gate_frame (ErrorFrame ''CONFIRMATION_TIMEOUT''
                (''tool '' @ repr_text w tool @ '' payload-warning gate timed out''))) (\<lambda>_.
     raising (gate_timeout E ''payload-size warning card'' tool (gate_wait_timeout E)))))"

definition payload_decided ::
  "gate_env \<Rightarrow> string \<Rightarrow> call_args \<Rightarrow> pyfloat \<Rightarrow> bool \<Rightarrow> confirmation \<Rightarrow> (bool \<times> call_args) gating" where
  "payload_decided E tool params mb over c =
     (case cf_decision c of
        CancelCard \<Rightarrow> depending (\<lambda>w.
          then_do (send_gate_frame (ErrorFrame ''PAYLOAD_WARNING_CANCELLED''
                     (''tool '' @ repr_text w tool @ '' cancelled by user at payload-warning gate (estimated '' @
                      ge_fixed E 1 mb @ '' MB)''))) (\<lambda>_. returning (False, params)))
      | Proceed \<Rightarrow>
          if over then depending (\<lambda>w.
            then_do (send_gate_frame (ErrorFrame ''TOOL_PARAMS_INVALID''
                       (''tool '' @ repr_text w tool @ '' exceeds hard cap ('' @ ge_fixed E 1 mb @ '' > '' @
                        ge_fixed E 0 (hard_cap_mb E) @ '' MB); 'proceed' is not an allowed response'')))
              (\<lambda>_. returning (False, params)))
          else returning (True, params)
      | NarrowScope \<Rightarrow> returning (True, revised_or_empty c))"

definition payload_card :: "gate_env \<Rightarrow> string \<Rightarrow> call_args \<Rightarrow> pyfloat \<Rightarrow> bool \<Rightarrow> string \<Rightarrow> ulid \<Rightarrow> warning_card" where
  "payload_card E tool params mb over text wid =
     \<lparr>wc_id = wid, wc_tool = tool, wc_args = params, wc_mb = mb,
      wc_threshold = (if over then hard_cap_mb E else warning_threshold_mb E),
      wc_recommendation = text, wc_options = payload_options over\<rparr>"

text \<open>The card is logged, sent and waited for; then the answer is logged and acted on.\<close>

definition offer_payload :: "gate_env \<Rightarrow> string \<Rightarrow> call_args \<Rightarrow> bool \<Rightarrow> warning_card \<Rightarrow> (bool \<times> call_args) gating" where
  "offer_payload E tool params over shown =
     then_do (updating (\<lambda>w. w\<lparr>gw_audit := gw_audit w @
                [\<lparr>au_id = wc_id shown, au_tool = tool, au_mb = wc_mb shown, au_threshold = wc_threshold shown,
                  au_options = wc_options shown, au_decision = None\<rparr>]\<rparr>)) (\<lambda>_.
     then_do (wait_card E (wc_id shown) (WarningFrame shown) (payload_expired E tool (wc_id shown))) (\<lambda>c.
     then_do (settle_audit (wc_id shown) (decision_text (cf_decision c))) (\<lambda>_.
     payload_decided E tool params (wc_mb shown) over c)))"

definition ask_payload ::
  "gate_env \<Rightarrow> string \<Rightarrow> string \<Rightarrow> call_args \<Rightarrow> pyfloat \<Rightarrow> (bool \<times> call_args) gating" where
  "ask_payload E tool estimator params mb = depending (\<lambda>w.
     let over = float_less (hard_cap_mb E) mb in
     case with_detail (es_repr (gw_emitter w)) (payload_estimator E tool (estimator @ ''_detail'')) params
            (payload_recommendation E mb over) of
       Inl e \<Rightarrow> raising e
     | Inr text \<Rightarrow>
         then_do (on_emitter new_ulid) (\<lambda>wid.
         let shown = payload_card E tool params mb over text wid in
         if \<not> warning_valid (ge_nan_ok E) shown then raising contract_error
         else offer_payload E tool params over shown))"

definition maybe_gate_on_payload_warning :: "gate_env \<Rightarrow> string \<Rightarrow> call_args \<Rightarrow> (bool \<times> call_args) gating" where
  "maybe_gate_on_payload_warning E tool params =
     (case dget (ge_tools E) tool of
        None \<Rightarrow> returning (True, params)
      | Some t \<Rightarrow>
          (case gt_estimator t of
             None \<Rightarrow> returning (True, params)
           | Some name \<Rightarrow>
               if name = [] then returning (True, params)
               else (case payload_estimator E tool name of
                  None \<Rightarrow> returning (True, params)
                | Some fn \<Rightarrow>
                    (case estimated_payload fn params of
                       Inl e \<Rightarrow> raising e
                     | Inr None \<Rightarrow> returning (True, params)
                     | Inr (Some mb) \<Rightarrow>
                         if float_less mb (warning_threshold_mb E) then returning (True, params)
                         else ask_payload E tool name params mb))))"

section \<open>The code gate\<close>

definition code_expired :: "gate_env \<Rightarrow> ulid \<Rightarrow> confirmation gating" where
  "code_expired E cid = depending (\<lambda>w.
     let waited = ge_fixed E 0 (Fin (ge_code_timeout E)) in
     then_do (send_gate_frame (ErrorFrame ''CONFIRMATION_TIMEOUT''
                (''run_pyqgis '' @ repr_text w (ulid_text w cid) @ '' approval card was not answered within '' @
                 waited @ ''s; the code did not run''))) (\<lambda>_.
     raising (gate_timeout E ''code-approval card'' (''run_pyqgis '' @ ulid_text w cid) (ge_code_timeout E))))"

definition code_decided :: "call_args \<Rightarrow> ulid \<Rightarrow> confirmation \<Rightarrow> (bool \<times> call_args) gating" where
  "code_decided params cid c = depending (\<lambda>w.
     if cf_decision c \<noteq> Proceed
     then then_do (send_gate_frame (ErrorFrame ''CODE_EXEC_CANCELLED''
            (''run_pyqgis '' @ repr_text w (ulid_text w cid) @ '' declined by user (decision='' @
             repr_text w (decision_text (cf_decision c)) @ ''); the code did not run''))) (\<lambda>_.
          returning (False, dput ''code_exec_id'' (PStr (ulid_text w cid)) params))
     else returning (True, dput ''code_exec_id'' (PStr (ulid_text w cid)) (dput ''confirmed'' (PBool True) params)))"

definition gate_on_code_exec :: "gate_env \<Rightarrow> call_args \<Rightarrow> (bool \<times> call_args) gating" where
  "gate_on_code_exec E params =
     (case pget params ''code'' of
        PStr code \<Rightarrow>
          if py_strip code = [] then returning (True, params)
          else then_do (on_emitter new_ulid) (\<lambda>cid.
            let shown = \<lparr>cc_id = cid, cc_code = code,
                  cc_rationale = (case pget params ''rationale'' of PStr r \<Rightarrow> Some (take 512 r) | _ \<Rightarrow> None)\<rparr>
            in if \<not> code_card_valid shown then raising contract_error
               else then_do (wait_card E cid (CodeFrame shown) (code_expired E cid)) (code_decided params cid))
      | _ \<Rightarrow> returning (True, params))"

section \<open>What runs in the session\<close>

definition session_error :: "string \<Rightarrow> string \<Rightarrow> string \<Rightarrow> py_exn" where
  "session_error name code message =
     \<lparr>exc_class = Derived name (Derived ''SessionProcessingError'' ExcRuntimeError), exc_text = message,
      exc_attrs = [(''error_code'', PStr code), (''retryable'', PBool False)]\<rparr>"

definition processing_failed :: "string \<Rightarrow> py_exn" where
  "processing_failed message = session_error ''SessionProcessingFailedError'' ''SESSION_PROCESSING_FAILED'' message"

definition session_unanswered :: "gate_env \<Rightarrow> ulid \<Rightarrow> processing_response gating" where
  "session_unanswered E rid = depending (\<lambda>w. raising
     (session_error ''SessionProcessingTimeoutError'' ''SESSION_PROCESSING_TIMEOUT''
        (''the QGIS session did not answer code request '' @ repr_text w (ulid_text w rid) @ '' within '' @
         ge_fixed E 0 (Fin (ge_processing_timeout E)) @ ''s; nothing ran to completion'')))"

text \<open>
  \<open>run_in_session\<close> of a code request, with an emitter bound whose send never raises: the request
  is validated, sent, and its response waited for.
\<close>

definition run_code_in_session :: "gate_env \<Rightarrow> string \<Rightarrow> pyval \<Rightarrow> processing_response gating" where
  "run_code_in_session E code exec_id =
     then_do (on_emitter new_ulid) (\<lambda>rid.
     case exec_id of
       PStr cx \<Rightarrow>
         (if code = [] \<or> \<not> ge_ulid_ok E cx then raising contract_error
          else then_do (on_error (\<lambda>w.
            let (out, r) = park (ge_session E) rid None (ge_ran E rid) (ge_ran_end E rid) (gw_processing w)
            in (out, w\<lparr>gw_processing := r, gw_sent := gw_sent w @ [ProcessingFrame rid code cx]\<rparr>))
            (\<lambda>e. if isinstance e [ExcTimeoutError] then session_unanswered E rid else raising e)) (\<lambda>response.
          if pr_ok response then returning response
          else depending (\<lambda>w. raising (processing_failed (text_or (pr_error response)
                 (''the QGIS session reported an error on code request '' @ repr_text w (ulid_text w rid) @
                  '' without a message''))))))
     | _ \<Rightarrow> raising contract_error)"

definition confirmation_required :: "(pyval \<Rightarrow> string) \<Rightarrow> pyval \<Rightarrow> py_exn" where
  "confirmation_required rep exec_id =
     \<lparr>exc_class = Derived ''CodeExecConfirmationRequired'' ExcRuntimeError,
      exc_text = ''run_pyqgis requires user confirmation before running: the server emits a code-exec-request card '' @
        ''and awaits approval, then re-dispatches with confirmed=True. This call had confirmed=False'' @
        (if py_truth exec_id then '' (code_exec_id='' @ py_str rep exec_id @ '')'' else []) @ ''.'',
      exc_attrs = [(''error_code'', PStr ''CODE_EXEC_CONFIRMATION_REQUIRED''), (''retryable'', PBool False),
                   (''code_exec_id'', exec_id)]\<rparr>"

text \<open>\<open>code_exec_id or new_ulid()\<close>.\<close>

definition execution_id :: "call_args \<Rightarrow> pyval gating" where
  "execution_id params =
     (let given = pget params ''code_exec_id'' in
      if py_truth given then returning given
      else then_do (on_emitter new_ulid) (\<lambda>fresh. reading (\<lambda>w. PStr (ulid_text w fresh))))"

text \<open>The body of \<open>run_pyqgis\<close>, called with the arguments the dispatch approved.\<close>

definition run_pyqgis :: "gate_env \<Rightarrow> call_args \<Rightarrow> pyval gating" where
  "run_pyqgis E params =
     (if \<not> py_truth (pget params ''confirmed'')
      then depending (\<lambda>w. raising (confirmation_required (es_repr (gw_emitter w)) (pget params ''code_exec_id'')))
      else (case pget params ''code'' of
         PStr code \<Rightarrow>
           if py_strip code = [] then raising (processing_failed ''code must be a non-empty Python snippet'')
           else then_do (execution_id params) (\<lambda>cx.
                then_do (run_code_in_session E code cx) (\<lambda>response.
                returning (PDict [(''status'', PStr ''ok''),
                  (''result'', case pr_result response of None \<Rightarrow> PNone | Some d \<Rightarrow> pget d ''value''),
                  (''stdout'', PStr (pr_stdout response)), (''code_exec_id'', cx)])))
       | _ \<Rightarrow> raising (processing_failed ''code must be a non-empty Python snippet'')))"

section \<open>The gates of a dispatch\<close>

text \<open>
  \<open>_through_gate\<close>: a refusal still gets a card, minted and ended through the emitter, and is
  raised again even where the emitter returned.
\<close>

definition refuse :: "gate_env \<Rightarrow> string \<Rightarrow> string \<Rightarrow> py_exn \<Rightarrow> call_args gating" where
  "refuse E name tool e =
     then_do (on_emitter (emit_tool_call (ge_layers E) name tool (raising e))) (\<lambda>_. raising e)"

definition through_gate ::
  "gate_env \<Rightarrow> string \<Rightarrow> string \<Rightarrow> (bool \<times> call_args) gating \<Rightarrow> (gate_session \<Rightarrow> call_args \<Rightarrow> py_exn) \<Rightarrow> call_args gating" where
  "through_gate E name tool gate declined w =
     (case gate w of
        (Inl e, w') \<Rightarrow> if isinstance e [gate_timeout_class] then refuse E name tool e w' else (Inl e, w')
      | (Inr (run, effective), w') \<Rightarrow>
          if run then (Inr effective, w') else refuse E name tool (declined w' effective) w')"

definition reuse_controls :: "string list" where
  "reuse_controls = [''force_refetch'', ''refetch'', ''force'']"

definition dpops :: "string list \<Rightarrow> call_args \<Rightarrow> call_args" where
  "dpops ks d = fold dpop ks d"

definition env_flag_on :: "gate_env \<Rightarrow> string \<Rightarrow> bool \<Rightarrow> bool" where
  "env_flag_on E name dflt =
     (let raw = py_lower (py_strip (case ge_environ E name of None \<Rightarrow> [] | Some t \<Rightarrow> t)) in
      if List.member [''0'', ''off'', ''false'', ''no''] raw then False
      else if List.member [''1'', ''on'', ''true'', ''yes''] raw then True
      else dflt)"

definition tool_not_found :: "gate_session \<Rightarrow> gate_env \<Rightarrow> string \<Rightarrow> py_exn" where
  "tool_not_found w E tool =
     \<lparr>exc_class = Derived ''ToolNotFoundError'' ExcRuntimeError,
      exc_text = ''tool '' @ repr_text w tool @ '' not in TOOL_REGISTRY; valid tools (first 20): '' @
        es_repr (gw_emitter w) (PList (map PStr (take 20 (dkeys (ge_tools E))))),
      exc_attrs = [(''error_code'', PStr ''TOOL_NOT_FOUND''), (''retryable'', PBool False)]\<rparr>"

text \<open>The code gate of \<open>run_pyqgis\<close>, its two flags stripped first.\<close>

definition code_stage :: "gate_env \<Rightarrow> string \<Rightarrow> string \<Rightarrow> call_args \<Rightarrow> call_args gating" where
  "code_stage E name tool params =
     (if tool \<noteq> ''run_pyqgis'' then returning params
      else (let stripped = dpops [''confirmed'', ''code_exec_id''] params in
        through_gate E name tool (gate_on_code_exec E stripped) (\<lambda>w refused.
          let given = (case dget refused ''code_exec_id'' of None \<Rightarrow> PStr ''unknown'' | Some v \<Rightarrow> v) in
          code_cancelled (es_repr (gw_emitter w) given) (py_str (es_repr (gw_emitter w)) given))))"

text \<open>
  The arguments after the kwarg sweep and the bbox fill, and whether a layer of the Case is
  handed back instead of a fetch.
\<close>

definition swept_args :: "gate_env \<Rightarrow> gate_tool \<Rightarrow> string \<Rightarrow> call_args \<Rightarrow> call_args" where
  "swept_args E t tool params =
     autofill_missing_bbox (normalize_args (ge_environ E ''TRID3NT_ENUM_FUZZY'') tool params (gt_signature t))
       (gt_signature t) (ge_active_aoi E) (ge_case_bbox E)"

definition reuses_layer :: "gate_env \<Rightarrow> string \<Rightarrow> call_args \<Rightarrow> bool" where
  "reuses_layer E tool params =
     (\<not> list_ex (\<lambda>k. py_truth (pget params k)) reuse_controls \<and>
      env_flag_on E ''TRID3NT_FETCH_REUSE'' True \<and> ge_reusable E tool (dpops reuse_controls params))"

definition solver_stage :: "gate_env \<Rightarrow> string \<Rightarrow> string \<Rightarrow> bool \<Rightarrow> call_args \<Rightarrow> call_args gating" where
  "solver_stage E name tool reused params =
     (case gate_spec_for E tool of
        None \<Rightarrow> returning params
      | Some spec \<Rightarrow>
          if reused then returning params
          else through_gate E name tool
                 (gate_with_turn_memory E tool (if gs_kind spec = SolverGate then dpop ''confirmed'' params else params))
                 (\<lambda>w approved. solver_cancelled tool))"

text \<open>The call of a tool up to its handles: the arguments it is given, or the refusal raised.\<close>

definition dispatch_gates :: "gate_env \<Rightarrow> string \<Rightarrow> call_args \<Rightarrow> (bool \<times> call_args) gating" where
  "dispatch_gates E tool args =
     (case dget (ge_tools E) tool of
        None \<Rightarrow> depending (\<lambda>w. raising (tool_not_found w E tool))
      | Some t \<Rightarrow>
          then_do (through_gate E (gt_name t) tool (maybe_gate_on_payload_warning E tool (dpop ''case_id'' args))
                     (\<lambda>w approved. payload_cancelled w tool)) (\<lambda>p1.
          then_do (code_stage E (gt_name t) tool p1) (\<lambda>p2.
          let p3 = swept_args E t tool p2; reused = reuses_layer E tool p3 in
          then_do (solver_stage E (gt_name t) tool reused (dpops reuse_controls p3)) (\<lambda>p4.
          returning (reused, p4)))))"

section \<open>A gate opens only for its owner\<close>

definition raises :: "('s, 'e, 'a) act \<Rightarrow> bool" where
  "raises m \<longleftrightarrow> (\<forall>s. \<exists>e. fst (m s) = Inl e)"

lemma raisesD: "raises m \<Longrightarrow> m s \<noteq> (Inr a, s')"
  by (metis fst_conv raises_def sum.distinct(1))

lemma raises_raising [intro, simp]: "raises (raising e)"
  by (simp add: raises_def raising_def)

lemma raises_then_do [intro]: "(\<And>a. raises (f a)) \<Longrightarrow> raises (then_do m f)"
  by (fastforce simp: raises_def then_do_def split: prod.splits sum.splits)

lemma raises_depending [intro]: "(\<And>s. raises (f s)) \<Longrightarrow> raises (depending f)"
  by (simp add: raises_def depending_def)

lemma expired_raise [simp]:
  "raises (confirm_expired E tool)" "raises (payload_expired E tool wid)" "raises (code_expired E cid)"
  by (auto simp: confirm_expired_def payload_expired_def code_expired_def Let_def)

lemma refuse_raises: "raises (refuse E name tool e)"
  by (auto simp: refuse_def)

lemma then_do_Inr:
  "then_do m f s = (Inr b, s') \<longleftrightarrow> (\<exists>a s1. m s = (Inr a, s1) \<and> f a s1 = (Inr b, s'))"
  by (auto simp: then_do_def split: prod.splits sum.splits)

lemma act_Inr:
  "returning a s = (Inr b, s') \<longleftrightarrow> b = a \<and> s' = s"
  "raising e s \<noteq> (Inr b, s')"
  "updating f s = (Inr u, s') \<longleftrightarrow> s' = f s"
  "depending g s = (Inr b, s') \<longleftrightarrow> g s s = (Inr b, s')"
  by (auto simp: act_defs)

lemmas gate_returns = then_do_Inr act_Inr

lemma new_id_frame:
  assumes "on_emitter new_ulid w = (Inr u, w')"
  shows "gw_confirmations w' = gw_confirmations w" "gw_sent w' = gw_sent w" "gw_memory w' = gw_memory w"
    "gw_processing w' = gw_processing w" "u = es_next_id (gw_emitter w)"
    "gw_emitter w' = (gw_emitter w)\<lparr>es_next_id := Suc (es_next_id (gw_emitter w))\<rparr>"
  using assms by (auto simp: on_emitter_def new_ulid_def)

text \<open>A card that was answered was answered by the owner of the session, and was sent.\<close>

lemma card_answered:
  assumes "wait_card E wid frame expired w = (Inr c, w')" and "replies_ok (gw_confirmations w)" and "raises expired"
  shows "Resolve (ge_session E) wid c \<in> set (ge_during E wid)"
    and "gw_sent w' = gw_sent w @ [frame]" and "gw_memory w' = gw_memory w" and "gw_emitter w' = gw_emitter w"
    and "gw_processing w' = gw_processing w"
proof -
  from assms(1,3) have p: "park_card E wid frame w = (Inr c, w')"
    by (auto simp: wait_card_def on_error_def raising_def raisesD split: prod.splits sum.splits if_splits)
  from p obtain r where "park (ge_session E) wid None (ge_during E wid) (ge_end E wid) (gw_confirmations w) = (Inr c, r)"
    by (auto simp: park_card_def split: prod.splits)
  with assms(2) show "Resolve (ge_session E) wid c \<in> set (ge_during E wid)"
    by (rule parked_answer)
  from p show "gw_sent w' = gw_sent w @ [frame]" "gw_memory w' = gw_memory w" "gw_emitter w' = gw_emitter w"
    "gw_processing w' = gw_processing w"
    by (auto simp: park_card_def split: prod.splits)
qed

text \<open>
  The contract of a gate: it lets a call through untouched where it is free, and otherwise only
  on an answer of the owner that grants the arguments it returns.
\<close>

definition answered_for :: "gate_env \<Rightarrow> (confirmation \<Rightarrow> bool) \<Rightarrow> bool" where
  "answered_for E P \<longleftrightarrow> (\<exists>wid c. Resolve (ge_session E) wid c \<in> set (ge_during E wid) \<and> P c)"

locale consent_gate =
  fixes E :: gate_env
    and gate :: "call_args \<Rightarrow> (bool \<times> call_args) gating"
    and free :: "gate_session \<Rightarrow> call_args \<Rightarrow> call_args \<Rightarrow> bool"
    and grants :: "call_args \<Rightarrow> confirmation \<Rightarrow> call_args \<Rightarrow> bool"
  assumes gate_opens:
    "replies_ok (gw_confirmations w) \<Longrightarrow> gate params w = (Inr (True, p), w') \<Longrightarrow>
     free w params p \<or> answered_for E (\<lambda>c. grants params c p)"
begin

lemma passage:
  assumes "replies_ok (gw_confirmations w)" and "through_gate E name tool (gate params) declined w = (Inr p, w')"
  shows "free w params p \<or> answered_for E (\<lambda>c. grants params c p)"
proof -
  from assms(2) have "gate params w = (Inr (True, p), w')"
    by (auto simp: through_gate_def raisesD [OF refuse_raises] split: prod.splits sum.splits if_splits)
  with assms(1) show ?thesis by (rule gate_opens)
qed

lemma passage_closed:
  assumes "replies_ok (gw_confirmations w)" and "through_gate E name tool (gate params) declined w = (Inr p, w')"
    and "\<And>c. \<not> grants params c p"
  shows "free w params p"
  using passage [OF assms(1,2)] assms(3) by (simp add: answered_for_def)

end

definition no_code :: "call_args \<Rightarrow> bool" where
  "no_code params = (case pget params ''code'' of PStr code \<Rightarrow> py_strip code = [] | _ \<Rightarrow> True)"

definition with_approval :: "string \<Rightarrow> call_args \<Rightarrow> call_args" where
  "with_approval id_text params = dput ''code_exec_id'' (PStr id_text) (dput ''confirmed'' (PBool True) params)"

lemma no_code_free: "no_code params \<Longrightarrow> gate_on_code_exec E params = returning (True, params)"
  by (auto simp: no_code_def gate_on_code_exec_def split: pyval.splits)

lemma code_gate_opened:
  assumes "replies_ok (gw_confirmations w)" and "gate_on_code_exec E params w = (Inr (True, p), w')"
    and "\<not> no_code params"
  obtains cid c shown where "Resolve (ge_session E) cid c \<in> set (ge_during E cid)" "cf_decision c = Proceed"
    "gw_sent w' = gw_sent w @ [CodeFrame shown]" "cc_id shown = cid" "pget params ''code'' = PStr (cc_code shown)"
    "p = with_approval (ulid_text w cid) params" "es_ulid_text (gw_emitter w') = es_ulid_text (gw_emitter w)"
    "gw_processing w' = gw_processing w"
proof -
  from assms(3) obtain code where code: "pget params ''code'' = PStr code" "py_strip code \<noteq> []"
    by (auto simp: no_code_def split: pyval.splits)
  from assms(2) code obtain cid w1 c w2 where 1: "on_emitter new_ulid w = (Inr cid, w1)"
    and 2: "wait_card E cid (CodeFrame \<lparr>cc_id = cid, cc_code = code,
              cc_rationale = (case pget params ''rationale'' of PStr r \<Rightarrow> Some (take 512 r) | _ \<Rightarrow> None)\<rparr>)
              (code_expired E cid) w1 = (Inr c, w2)"
    and 3: "code_decided params cid c w2 = (Inr (True, p), w')"
    by (auto simp: gate_on_code_exec_def Let_def gate_returns split: if_splits)
  note f = new_id_frame [OF 1]
  have ok: "replies_ok (gw_confirmations w1)" using assms(1) f(1) by simp
  note a = card_answered [OF 2 ok expired_raise(3)]
  from 3 have d: "cf_decision c = Proceed" "p = with_approval (ulid_text w2 cid) params" "w' = w2"
    by (auto simp: code_decided_def gate_returns with_approval_def split: if_splits)
  show thesis
    by (rule that [OF a(1) d(1) a(2) [unfolded f(2), folded d(3)]]) (use a f d code in \<open>simp_all add: ulid_text_def\<close>)
qed

interpretation code_gate: consent_gate E "gate_on_code_exec E"
  "\<lambda>w params p. no_code params \<and> p = params"
  "\<lambda>params c p. cf_decision c = Proceed \<and> (\<exists>t. p = with_approval t params)" for E
proof unfold_locales
  fix w params p w'
  assume ok: "replies_ok (gw_confirmations w)" and g: "gate_on_code_exec E params w = (Inr (True, p), w')"
  show "(no_code params \<and> p = params) \<or>
        answered_for E (\<lambda>c. cf_decision c = Proceed \<and> (\<exists>t. p = with_approval t params))"
  proof (cases "no_code params")
    case True
    with g show ?thesis by (simp add: no_code_free act_Inr)
  next
    case False
    from code_gate_opened [OF ok g False] show ?thesis
      unfolding answered_for_def by metis
  qed
qed

text \<open>The payload gate is free where no estimator measures the call or it measures less than the threshold.\<close>

definition payload_over :: "gate_env \<Rightarrow> string \<Rightarrow> call_args \<Rightarrow> (string \<times> pyfloat) option" where
  "payload_over E tool params =
     Option.bind (dget (ge_tools E) tool) (\<lambda>t. Option.bind (gt_estimator t) (\<lambda>name.
       if name = [] then None
       else Option.bind (payload_estimator E tool name) (\<lambda>fn.
         case estimated_payload fn params of
           Inr (Some mb) \<Rightarrow> if float_less mb (warning_threshold_mb E) then None else Some (name, mb)
         | _ \<Rightarrow> None)))"

lemma payload_free:
  assumes "payload_over E tool params = None" and "maybe_gate_on_payload_warning E tool params w = (Inr r, w')"
  shows "r = (True, params) \<and> w' = w"
  using assms
  by (auto simp: payload_over_def maybe_gate_on_payload_warning_def act_Inr
      split: option.splits sum.splits if_splits Option.bind_splits)

lemma payload_asks:
  "payload_over E tool params = Some (name, mb) \<Longrightarrow>
   maybe_gate_on_payload_warning E tool params = ask_payload E tool name params mb"
  by (auto simp: payload_over_def maybe_gate_on_payload_warning_def
      split: option.splits sum.splits if_splits Option.bind_splits)

definition payload_grants :: "gate_env \<Rightarrow> pyfloat \<Rightarrow> call_args \<Rightarrow> confirmation \<Rightarrow> call_args \<Rightarrow> bool" where
  "payload_grants E mb params c p =
     (case cf_decision c of
        Proceed \<Rightarrow> \<not> float_less (hard_cap_mb E) mb \<and> p = params
      | CancelCard \<Rightarrow> False
      | NarrowScope \<Rightarrow> p = revised_or_empty c)"

lemma offer_opened:
  assumes "replies_ok (gw_confirmations w)" and "offer_payload E tool params over shown w = (Inr (True, p), w')"
    and "over = float_less (hard_cap_mb E) mb" and "wc_mb shown = mb"
  shows "\<exists>c. Resolve (ge_session E) (wc_id shown) c \<in> set (ge_during E (wc_id shown)) \<and> payload_grants E mb params c p"
proof -
  from assms(2) obtain c w2 where 1: "wait_card E (wc_id shown) (WarningFrame shown) (payload_expired E tool (wc_id shown))
       (w\<lparr>gw_audit := gw_audit w @ [\<lparr>au_id = wc_id shown, au_tool = tool, au_mb = wc_mb shown,
          au_threshold = wc_threshold shown, au_options = wc_options shown, au_decision = None\<rparr>]\<rparr>) = (Inr c, w2)"
    and 2: "payload_decided E tool params (wc_mb shown) over c
       (w2\<lparr>gw_audit := map (\<lambda>a. if au_id a = wc_id shown then a\<lparr>au_decision := Some (decision_text (cf_decision c))\<rparr> else a)
          (gw_audit w2)\<rparr>) = (Inr (True, p), w')"
    unfolding offer_payload_def settle_audit_def gate_returns by blast
  from 2 assms(3,4) have "payload_grants E mb params c p"
    by (auto simp: payload_decided_def payload_grants_def gate_returns split: decision.splits if_splits)
  moreover have "Resolve (ge_session E) (wc_id shown) c \<in> set (ge_during E (wc_id shown))"
    by (rule card_answered(1) [OF 1]) (use assms(1) in simp_all)
  ultimately show ?thesis by blast
qed

lemma payload_gate_opened:
  assumes "replies_ok (gw_confirmations w)" and "ask_payload E tool name params mb w = (Inr (True, p), w')"
  shows "\<exists>wid c. Resolve (ge_session E) wid c \<in> set (ge_during E wid) \<and> payload_grants E mb params c p"
proof -
  from assms(2) obtain wid w1 sentence where 1: "on_emitter new_ulid w = (Inr wid, w1)"
    and 2: "offer_payload E tool params (float_less (hard_cap_mb E) mb)
       (payload_card E tool params mb (float_less (hard_cap_mb E) mb) sentence wid) w1 = (Inr (True, p), w')"
    by (auto simp: ask_payload_def Let_def gate_returns split: sum.splits if_splits)
  have "replies_ok (gw_confirmations w1)" using assms(1) new_id_frame [OF 1] by simp
  from offer_opened [OF this 2 refl] show ?thesis by (auto simp: payload_card_def)
qed

interpretation payload_gate: consent_gate E "maybe_gate_on_payload_warning E tool"
  "\<lambda>w params p. payload_over E tool params = None \<and> p = params"
  "\<lambda>params c p. case payload_over E tool params of None \<Rightarrow> False | Some (name, mb) \<Rightarrow> payload_grants E mb params c p"
  for E tool
proof unfold_locales
  fix w params p w'
  assume ok: "replies_ok (gw_confirmations w)" and g: "maybe_gate_on_payload_warning E tool params w = (Inr (True, p), w')"
  show "(payload_over E tool params = None \<and> p = params) \<or>
        answered_for E (\<lambda>c. case payload_over E tool params of None \<Rightarrow> False
                            | Some (name, mb) \<Rightarrow> payload_grants E mb params c p)"
  proof (cases "payload_over E tool params")
    case None
    with payload_free [OF None g] show ?thesis by simp
  next
    case (Some q)
    then obtain name mb where q: "payload_over E tool params = Some (name, mb)" by (cases q) simp
    with payload_gate_opened [OF ok, of E tool name params mb p w'] g show ?thesis
      by (simp add: payload_asks answered_for_def)
  qed
qed

text \<open>The confirm engine, and the memory of the turn in front of it.\<close>

definition spec_grants :: "gate_env \<Rightarrow> gate_spec \<Rightarrow> call_args \<Rightarrow> pyval \<Rightarrow> confirmation \<Rightarrow> call_args \<Rightarrow> bool" where
  "spec_grants E spec params tail c p =
     (cf_decision c \<noteq> CancelCard \<and>
      (case gs_pin spec of
         Some pin \<Rightarrow>
           (case ge_pin E pin (cf_decision c) (revised_or_empty c) params tail of
              Inr (Some delta) \<Rightarrow> p = merged_args params delta | _ \<Rightarrow> False)
       | None \<Rightarrow> cf_decision c = Proceed \<and>
                 p = (if gs_kind spec = SolverGate then dput ''confirmed'' (PBool True) params else params)))"

definition tool_grants :: "gate_env \<Rightarrow> string \<Rightarrow> call_args \<Rightarrow> confirmation \<Rightarrow> call_args \<Rightarrow> bool" where
  "tool_grants E tool params c p =
     (case gate_spec_for E tool of None \<Rightarrow> False | Some spec \<Rightarrow> \<exists>tail. spec_grants E spec params tail c p)"

definition recalled :: "gate_env \<Rightarrow> gate_session \<Rightarrow> string \<Rightarrow> call_args \<Rightarrow> (call_args \<times> ulid) option" where
  "recalled E w tool params =
     (case gate_memory_key (ge_float E) (es_repr (gw_emitter w)) tool params of
        Inl e \<Rightarrow> None | Inr key \<Rightarrow> dget (gw_memory w) key)"

lemma decline_returns: "decline tool d params w = (Inr (b, p), w') \<Longrightarrow> \<not> b"
  by (simp add: decline_def gate_returns)

lemma decline_not [simp]: "decline tool d params w \<noteq> (Inr (True, p), w')"
  using decline_returns by blast

lemma decided_grants:
  "decided E tool params spec tail c w = (Inr (True, p), w') \<Longrightarrow> spec_grants E spec params tail c p \<and> w' = w"
  by (auto simp: decided_def spec_grants_def gate_returns split: if_splits option.splits sum.splits decision.splits)
     (metis (full_types) decision.exhaust)+

lemma confirm_opened:
  assumes "replies_ok (gw_confirmations w)" and "gate_on_confirm E tool params spec w = (Inr ((True, p), shown), w')"
  shows "case shown of
           None \<Rightarrow> p = params \<and> gw_sent w' = gw_sent w
         | Some wid \<Rightarrow> \<exists>tail c. Resolve (ge_session E) wid c \<in> set (ge_during E wid) \<and> spec_grants E spec params tail c p"
    and "gw_memory w' = gw_memory w" and "es_repr (gw_emitter w') = es_repr (gw_emitter w)"
proof -
  from assms(2) obtain fresh w1 where 1: "on_emitter new_ulid w = (Inr fresh, w1)"
    and 2: "(case ge_estimate E (gs_estimate spec) tool fresh params of
         Inl e \<Rightarrow> if isinstance e [ExcException] then returning ((True, params), None) else raising e
       | Inr est \<Rightarrow>
           (case ce_card est of
              None \<Rightarrow> returning ((True, params), None)
            | Some card' \<Rightarrow>
                then_do (wait_card E (wc_id card') (WarningFrame card') (confirm_expired E tool)) (\<lambda>c.
                then_do (decided E tool params spec (ce_tail est) c) (\<lambda>r.
                returning (r, Some (wc_id card')))))) w1 = (Inr ((True, p), shown), w')"
    by (auto simp: gate_on_confirm_def gate_returns)
  note f = new_id_frame [OF 1]
  have ok: "replies_ok (gw_confirmations w1)" using assms(1) f(1) by simp
  consider (free) "shown = None" "p = params" "w' = w1"
    | (asked) est :: card_estimate and card' c w2 where "shown = Some (wc_id card')"
        "wait_card E (wc_id card') (WarningFrame card') (confirm_expired E tool) w1 = (Inr c, w2)"
        "decided E tool params spec (ce_tail est) c w2 = (Inr (True, p), w')"
  proof (cases "ge_estimate E (gs_estimate spec) tool fresh params")
    case (Inl e)
    with 2 show thesis by (intro free) (auto simp: gate_returns split: if_splits)
  next
    case (Inr est)
    show thesis
    proof (cases "ce_card est")
      case None
      with 2 Inr show thesis by (intro free) (auto simp: gate_returns)
    next
      case (Some card')
      with 2 Inr obtain c w2 where "wait_card E (wc_id card') (WarningFrame card') (confirm_expired E tool) w1 = (Inr c, w2)"
        "decided E tool params spec (ce_tail est) c w2 = (Inr (True, p), w')" "shown = Some (wc_id card')"
        by (auto simp: gate_returns)
      then show thesis by (intro asked)
    qed
  qed
  then have "(case shown of
           None \<Rightarrow> p = params \<and> gw_sent w' = gw_sent w
         | Some wid \<Rightarrow> \<exists>tail c. Resolve (ge_session E) wid c \<in> set (ge_during E wid) \<and> spec_grants E spec params tail c p)
       \<and> gw_memory w' = gw_memory w \<and> es_repr (gw_emitter w') = es_repr (gw_emitter w)"
  proof cases
    case free
    with f show ?thesis by simp
  next
    case asked
    from decided_grants [OF asked(3)] card_answered [OF asked(2) ok expired_raise(1)] asked(1) f show ?thesis
      by auto
  qed
  then show "case shown of
           None \<Rightarrow> p = params \<and> gw_sent w' = gw_sent w
         | Some wid \<Rightarrow> \<exists>tail c. Resolve (ge_session E) wid c \<in> set (ge_during E wid) \<and> spec_grants E spec params tail c p"
    "gw_memory w' = gw_memory w" "es_repr (gw_emitter w') = es_repr (gw_emitter w)" by blast+
qed

lemma solver_confirm_opened:
  assumes "replies_ok (gw_confirmations w)" and "gate_on_solver_confirm E tool params w = (Inr ((True, p), shown), w')"
  shows "(shown = None \<and> p = params) \<or>
         (shown \<noteq> None \<and> answered_for E (\<lambda>c. tool_grants E tool params c p))"
    and "gw_memory w' = gw_memory w" and "es_repr (gw_emitter w') = es_repr (gw_emitter w)"
proof -
  have "((shown = None \<and> p = params) \<or> (shown \<noteq> None \<and> answered_for E (\<lambda>c. tool_grants E tool params c p))) \<and>
        gw_memory w' = gw_memory w \<and> es_repr (gw_emitter w') = es_repr (gw_emitter w)"
  proof (cases "gate_spec_for E tool")
    case None
    with assms(2) show ?thesis by (auto simp: gate_on_solver_confirm_def gate_returns)
  next
    case (Some spec)
    with assms(2) have "gate_on_confirm E tool params spec w = (Inr ((True, p), shown), w')"
      by (simp add: gate_on_solver_confirm_def)
    from confirm_opened [OF assms(1) this] Some show ?thesis
      by (cases shown) (auto simp: answered_for_def tool_grants_def)
  qed
  then show "(shown = None \<and> p = params) \<or> (shown \<noteq> None \<and> answered_for E (\<lambda>c. tool_grants E tool params c p))"
    "gw_memory w' = gw_memory w" "es_repr (gw_emitter w') = es_repr (gw_emitter w)" by blast+
qed

interpretation solver_gate: consent_gate E "gate_with_turn_memory E tool"
  "\<lambda>w params p. case recalled E w tool params of Some (overrides, wid) \<Rightarrow> p = merged_args params overrides | None \<Rightarrow> p = params"
  "tool_grants E tool" for E tool
proof unfold_locales
  fix w params p w'
  assume ok: "replies_ok (gw_confirmations w)" and g: "gate_with_turn_memory E tool params w = (Inr (True, p), w')"
  from g obtain key where key: "gate_memory_key (ge_float E) (es_repr (gw_emitter w)) tool params = Inr key"
    by (auto simp: gate_with_turn_memory_def gate_returns split: sum.splits)
  show "(case recalled E w tool params of Some (overrides, wid) \<Rightarrow> p = merged_args params overrides | None \<Rightarrow> p = params) \<or>
        answered_for E (\<lambda>c. tool_grants E tool params c p)"
  proof (cases "dget (gw_memory w) key")
    case (Some q)
    with g key show ?thesis
      by (auto simp: gate_with_turn_memory_def recalled_def gate_returns split: prod.splits)
  next
    case None
    with g key obtain shown w1 where "gate_on_solver_confirm E tool params w = (Inr ((True, p), shown), w1)"
      by (auto simp: gate_with_turn_memory_def gate_returns split: prod.splits if_splits)
    from solver_confirm_opened(1) [OF ok this] None key show ?thesis
      by (auto simp: recalled_def)
  qed
qed

section \<open>The code that runs\<close>

definition plain_param :: "string \<Rightarrow> bool \<Rightarrow> fn_param" where
  "plain_param name has_default =
     \<lparr>fp_name = name, fp_kind = OrdinaryParam, fp_has_default = has_default, fp_annotation = Some AnnOther\<rparr>"

definition run_pyqgis_signature :: fn_signature where
  "run_pyqgis_signature =
     \<lparr>fs_params = [plain_param ''code'' False, plain_param ''rationale'' True, plain_param ''confirmed'' True,
        plain_param ''code_exec_id'' True,
        \<lparr>fp_name = ''_extra_ignored'', fp_kind = VarKeyword, fp_has_default = False, fp_annotation = Some AnnOther\<rparr>],
      fs_hints = [(''code'', AnnOther), (''rationale'', AnnOther), (''confirmed'', AnnOther),
        (''code_exec_id'', AnnOther), (''_extra_ignored'', AnnOther)]\<rparr>"

definition run_pyqgis_tool :: gate_tool where
  "run_pyqgis_tool =
     \<lparr>gt_name = ''run_pyqgis'', gt_signature = Some run_pyqgis_signature, gt_estimator = None,
      gt_functions = (\<lambda>_. None), gt_spec = None\<rparr>"

definition run_pyqgis_names :: "string list" where
  "run_pyqgis_names = [''code'', ''rationale'', ''confirmed'', ''code_exec_id'']"

lemma run_pyqgis_accepts: "accepted_params (Some run_pyqgis_signature) = (run_pyqgis_names, True)"
  by (simp add: accepted_params_def run_pyqgis_signature_def run_pyqgis_names_def plain_param_def)

lemma run_pyqgis_choices: "literal_choices (Some run_pyqgis_signature) = []"
  by code_simp

lemma no_bbox_filled: "autofill_missing_bbox params (Some run_pyqgis_signature) a b = params"
  by (simp add: autofill_missing_bbox_def run_pyqgis_signature_def plain_param_def autofill_param_def
      bbox_autofill_params_def)

lemma accepted_absorbed:
  assumes "fst kv \<in> set acc" and "\<not> dhas out (fst kv)"
  shows "absorb_arg acc var_kw aliases raw kv out = out @ [kv]"
  using assms by (simp add: absorb_arg_def rename_key_def Let_def dput_new dhas_def)

lemma all_absorbed:
  "list_all (\<lambda>k. k \<in> set acc) (dkeys args) \<Longrightarrow> dict_ok (out @ args) \<Longrightarrow>
   fold (absorb_arg acc var_kw aliases raw) args out = out @ args"
proof (induction args arbitrary: out)
  case (Cons kv args)
  have "\<not> dhas out (fst kv)" using Cons.prems(2) by (auto simp: dict_ok_def dhas_def dget_def map_of_eq_None_iff)
  with Cons show ?case by (simp add: accepted_absorbed dkeys_def)
qed simp

lemma exact_names_kept:
  assumes "list_all (\<lambda>k. k \<in> set run_pyqgis_names) (dkeys args)" and "dict_ok args"
  shows "normalize_args flag tool args (Some run_pyqgis_signature) = args"
proof -
  have none: "dget args k = None" if "k \<notin> set run_pyqgis_names" for k
    using assms(1) that by (fastforce simp: dkeys_def list_all_iff dget_None_iff)
  have "fold (absorb_arg run_pyqgis_names True aliases args) args [] = args" for aliases
    using all_absorbed [of run_pyqgis_names args "[]"] assms by simp
  moreover have "absorb_forcing run_pyqgis_names args args = args"
    by (simp add: absorb_forcing_def run_pyqgis_names_def split: pyval.split)
  moreover have "coerce_bbox run_pyqgis_names args = args"
    by (simp add: coerce_bbox_def none run_pyqgis_names_def)
  ultimately show ?thesis
    by (simp add: normalize_args_def run_pyqgis_accepts run_pyqgis_choices)
qed

lemma dpops_unused: "list_all (\<lambda>k. k \<notin> set (dkeys d)) ks \<Longrightarrow> dpops ks d = d"
  by (induction ks) (auto simp: dpops_def dpop_def dkeys_def image_iff delete_idem)

lemma execution_id_frame:
  assumes "execution_id params w = (Inr cx, w')"
  shows "gw_sent w' = gw_sent w"
  using assms
  by (auto simp: execution_id_def Let_def gate_returns reading_def dest: new_id_frame split: if_splits)

text \<open>What \<open>run_pyqgis\<close> sends, where it sends anything, is the code argument of a confirmed call.\<close>

lemma run_in_session_sends:
  "gw_sent (snd (run_code_in_session E code cx w)) = gw_sent w \<or>
   (\<exists>rid t. gw_sent (snd (run_code_in_session E code cx w)) = gw_sent w @ [ProcessingFrame rid code t])"
  by (auto simp: run_code_in_session_def session_unanswered_def act_defs on_emitter_def new_ulid_def
      split: pyval.split prod.split sum.split)

lemma run_pyqgis_sends:
  assumes "gw_sent (snd (run_pyqgis E params w)) \<noteq> gw_sent w"
  obtains code rid cx where "py_truth (pget params ''confirmed'')" "pget params ''code'' = PStr code"
    "gw_sent (snd (run_pyqgis E params w)) = gw_sent w @ [ProcessingFrame rid code cx]"
proof -
  from assms have c: "py_truth (pget params ''confirmed'')"
    by (auto simp: run_pyqgis_def act_defs split: if_splits)
  with assms obtain code where code: "pget params ''code'' = PStr code" "py_strip code \<noteq> []"
    by (auto simp: run_pyqgis_def act_defs split: pyval.splits if_splits)
  obtain cx w1 where 1: "execution_id params w = (Inr cx, w1)"
    by (cases "py_truth (pget params ''code_exec_id'')")
       (auto simp: execution_id_def Let_def act_defs on_emitter_def new_ulid_def)
  have "gw_sent (snd (run_pyqgis E params w)) = gw_sent (snd (run_code_in_session E code cx w1))"
    using c code 1 by (simp add: run_pyqgis_def then_do_def returning_def split: prod.split sum.split)
  with run_in_session_sends [of E code cx w1] execution_id_frame [OF 1] assms that [OF c code(1)]
  show thesis by metis
qed

text \<open>
  A call of \<open>run_pyqgis\<close> reaches its body through the code gate and the sweep alone: it has no
  estimator and no gate spec.
\<close>

lemma pyqgis_payload: "dget (ge_tools E) ''run_pyqgis'' = Some run_pyqgis_tool \<Longrightarrow>
    maybe_gate_on_payload_warning E ''run_pyqgis'' params = returning (True, params)"
  by (simp add: maybe_gate_on_payload_warning_def run_pyqgis_tool_def)

lemma pyqgis_solver: "dget (ge_tools E) ''run_pyqgis'' = Some run_pyqgis_tool \<Longrightarrow>
    solver_stage E name ''run_pyqgis'' reused params = returning params"
  by (simp add: solver_stage_def gate_spec_for_def run_pyqgis_tool_def)

lemma through_free: "through_gate E name tool (returning (True, params)) declined = returning params"
  by (rule ext) (simp add: through_gate_def returning_def)

definition pyqgis_args :: "gate_env \<Rightarrow> call_args \<Rightarrow> call_args" where
  "pyqgis_args E params =
     dpops reuse_controls (normalize_args (ge_environ E ''TRID3NT_ENUM_FUZZY'') ''run_pyqgis'' params (Some run_pyqgis_signature))"

lemma pyqgis_dispatch:
  assumes "dget (ge_tools E) ''run_pyqgis'' = Some run_pyqgis_tool"
  shows "dispatch_gates E ''run_pyqgis'' args =
    then_do (code_stage E ''run_pyqgis'' ''run_pyqgis'' (dpop ''case_id'' args)) (\<lambda>p.
      returning (reuses_layer E ''run_pyqgis'' (swept_args E run_pyqgis_tool ''run_pyqgis'' p), pyqgis_args E p))"
proof (rule ext)
  fix w
  have "gt_name run_pyqgis_tool = ''run_pyqgis''" by (simp add: run_pyqgis_tool_def)
  moreover have "swept_args E run_pyqgis_tool ''run_pyqgis'' p =
      normalize_args (ge_environ E ''TRID3NT_ENUM_FUZZY'') ''run_pyqgis'' p (Some run_pyqgis_signature)" for p
    by (simp add: swept_args_def run_pyqgis_tool_def no_bbox_filled)
  ultimately show "dispatch_gates E ''run_pyqgis'' args w =
    then_do (code_stage E ''run_pyqgis'' ''run_pyqgis'' (dpop ''case_id'' args)) (\<lambda>p.
      returning (reuses_layer E ''run_pyqgis'' (swept_args E run_pyqgis_tool ''run_pyqgis'' p), pyqgis_args E p)) w"
    using assms
    by (simp add: dispatch_gates_def pyqgis_payload through_free pyqgis_solver Let_def then_do_def returning_def
        pyqgis_args_def split: prod.split sum.split)
qed

definition stripped :: "call_args \<Rightarrow> call_args" where
  "stripped args = dpops [''confirmed'', ''code_exec_id''] (dpop ''case_id'' args)"

lemma pyqgis_opened:
  assumes "dget (ge_tools E) ''run_pyqgis'' = Some run_pyqgis_tool" and "replies_ok (gw_confirmations w)"
    and "dispatch_gates E ''run_pyqgis'' args w = (Inr (reused, p), w')"
  obtains (free) "no_code (stripped args)" "p = pyqgis_args E (stripped args)" "w' = w"
  | (approved) cid c shown where "Resolve (ge_session E) cid c \<in> set (ge_during E cid)" "cf_decision c = Proceed"
      "gw_sent w' = gw_sent w @ [CodeFrame shown]" "cc_id shown = cid"
      "pget (stripped args) ''code'' = PStr (cc_code shown)"
      "p = pyqgis_args E (with_approval (ulid_text w cid) (stripped args))"
proof -
  from assms(1,3) obtain q where q: "gate_on_code_exec E (stripped args) w = (Inr (True, q), w')"
    and p: "p = pyqgis_args E q"
    by (auto simp: pyqgis_dispatch code_stage_def Let_def stripped_def gate_returns through_gate_def
        raisesD [OF refuse_raises] split: prod.splits sum.splits if_splits)
  show thesis
  proof (cases "no_code (stripped args)")
    case True
    with q p show thesis by (intro free) (simp_all add: no_code_free act_Inr)
  next
    case False
    from code_gate_opened [OF assms(2) q False] p approved show thesis by metis
  qed
qed

lemma pget_dpop: "pget (dpop k d) j = (if j = k then PNone else pget d j)"
  by (simp add: pget_def)

lemma pget_dput: "pget (dput k v d) j = (if j = k then v else pget d j)"
  by (simp add: pget_def)

lemma set_dkeys: "set (dkeys d) = {k. dget d k \<noteq> None}"
  by (rule pydict.set_keys)

text \<open>
  C32: where the model names the arguments as the tool does, what the user's session is given to
  run is the very text of the card that the owner of the session answered with proceed.
\<close>

theorem code_runs_only_approved:
  assumes "dget (ge_tools E) ''run_pyqgis'' = Some run_pyqgis_tool" and "replies_ok (gw_confirmations w)"
    and "list_all (\<lambda>k. k \<in> set run_pyqgis_names) (dkeys args)" and "dict_ok args"
    and "dispatch_gates E ''run_pyqgis'' args w = (Inr (reused, p), w1)"
    and "run_pyqgis E p w1 = (r, w2)" and "gw_sent w2 \<noteq> gw_sent w1"
  shows "\<exists>c shown rid cx. Resolve (ge_session E) (cc_id shown) c \<in> set (ge_during E (cc_id shown)) \<and>
           cf_decision c = Proceed \<and> gw_sent w1 = gw_sent w @ [CodeFrame shown] \<and>
           pget args ''code'' = PStr (cc_code shown) \<and>
           gw_sent w2 = gw_sent w1 @ [ProcessingFrame rid (cc_code shown) cx]"
proof -
  from assms(6,7) obtain code rid cx where run: "py_truth (pget p ''confirmed'')" "pget p ''code'' = PStr code"
    "gw_sent w2 = gw_sent w1 @ [ProcessingFrame rid code cx]"
    using run_pyqgis_sends [of E p w1] by (metis snd_conv)
  have keep: "pyqgis_args E d = d" if "set (dkeys d) \<subseteq> set run_pyqgis_names" and "dict_ok d" for d
  proof -
    have "dpops reuse_controls d = d"
      using that(1) by (intro dpops_unused) (auto simp: reuse_controls_def run_pyqgis_names_def)
    with that show ?thesis by (simp add: pyqgis_args_def exact_names_kept list_all_iff subset_iff)
  qed
  have s: "set (dkeys (stripped args)) \<subseteq> set run_pyqgis_names" "dict_ok (stripped args)"
    using assms(3,4) by (auto simp: stripped_def dpops_def list_all_iff set_dkeys split: if_splits)
  from assms(1,2,5) show ?thesis
  proof (cases rule: pyqgis_opened)
    case free
    with run(1) keep [OF s] show ?thesis by (simp add: stripped_def dpops_def pget_dpop)
  next
    case (approved cid c shown)
    let ?d = "with_approval (ulid_text w cid) (stripped args)"
    have "set (dkeys ?d) \<subseteq> set run_pyqgis_names" "dict_ok ?d"
      using s by (auto simp: with_approval_def set_dkeys run_pyqgis_names_def subset_iff)
    then have "p = ?d" using approved(6) keep by simp
    with run(2) approved(5) have "code = cc_code shown" "pget args ''code'' = PStr code"
      by (simp_all add: with_approval_def stripped_def dpops_def pget_dpop pget_dput)
    with approved run(3) show ?thesis by blast
  qed
qed

text \<open>An environment and a session to run the gates in.\<close>

definition sample_env :: "(ulid \<Rightarrow> (ulid, confirmation) reply_op list) \<Rightarrow> gate_env" where
  "sample_env during =
     \<lparr>ge_session = ''S'', ge_tools = [(''run_pyqgis'', run_pyqgis_tool)], ge_environ = (\<lambda>_. None), ge_cap = None,
      ge_code_timeout = 300, ge_processing_timeout = 600, ge_nan_ok = False, ge_ulid_ok = (\<lambda>_. True),
      ge_fixed = (\<lambda>_ _. []), ge_float = (\<lambda>_. []), ge_estimate = (\<lambda>_ _ _ _. Inr \<lparr>ce_card = None, ce_tail = PNone\<rparr>),
      ge_pin = (\<lambda>_ _ _ _ _. Inr None), ge_during = during, ge_end = (\<lambda>_. Deadline), ge_ran = (\<lambda>_. []),
      ge_ran_end = (\<lambda>_. Deadline), ge_active_aoi = PNone, ge_case_bbox = PNone, ge_reusable = (\<lambda>_ _. False),
      ge_layers = no_layers\<rparr>"

definition fresh_session :: gate_session where
  "fresh_session =
     \<lparr>gw_confirmations = no_replies, gw_processing = no_replies, gw_sent = [], gw_audit = [], gw_memory = [],
      gw_emitter = sample_session\<rparr>"

definition proceed_reply :: "ulid \<Rightarrow> (ulid, confirmation) reply_op list" where
  "proceed_reply wid =
     [Resolve ''T'' wid \<lparr>cf_warning = wid, cf_decision = Proceed, cf_revised = None\<rparr>,
      Resolve ''S'' wid \<lparr>cf_warning = wid, cf_decision = Proceed, cf_revised = None\<rparr>]"

text \<open>
  C33: and where it does not: a call that spells its two arguments \<open>Code\<close> and \<open>Confirmed\<close> shows
  no card and waits for nobody, and the snippet is sent to the user's session.
\<close>

theorem respelt_call_skips_approval:
  assumes "dget (ge_tools E) ''run_pyqgis'' = Some run_pyqgis_tool"
    and "py_strip code \<noteq> []" and "\<forall>u. ge_ulid_ok E (ulid_text w u)"
  shows "\<exists>reused p rid cx.
    dispatch_gates E ''run_pyqgis'' [(''Code'', PStr code), (''Confirmed'', PBool True)] w = (Inr (reused, p), w) \<and>
    gw_sent (snd (run_pyqgis E p w)) = gw_sent w @ [ProcessingFrame rid code cx]"
proof -
  let ?args = "[(''Code'', PStr code), (''Confirmed'', PBool True)]"
  let ?p = "[(''code'', PStr code), (''confirmed'', PBool True)]"
  have names: "snake_case ''Code'' = ''code''" "snake_case ''Confirmed'' = ''confirmed''" by code_simp+
  have "stripped ?args = ?args" by (simp add: stripped_def dpops_def dpop_def)
  moreover have "no_code ?args" by (simp add: no_code_def pget_def dget_or_def)
  moreover have "normalize_args flag tool ?args (Some run_pyqgis_signature) = ?p" for flag tool
    by (simp add: normalize_args_def run_pyqgis_accepts run_pyqgis_choices absorb_arg_def rename_key_def names
        run_pyqgis_names_def absorb_forcing_def coerce_bbox_def pget_def dget_or_def Let_def dhas_def dput_def)
  moreover have "dpops reuse_controls ?p = ?p" by (simp add: dpops_def reuse_controls_def dpop_def)
  ultimately have "dispatch_gates E ''run_pyqgis'' ?args w =
      (Inr (reuses_layer E ''run_pyqgis'' (swept_args E run_pyqgis_tool ''run_pyqgis'' ?args), ?p), w)"
    using assms(1)
    by (simp add: pyqgis_dispatch code_stage_def Let_def stripped_def no_code_free through_free pyqgis_args_def
        then_do_def returning_def)
  moreover have "code \<noteq> []" using assms(2) by (auto simp: py_strip_def)
  then have "\<exists>rid cx. gw_sent (snd (run_pyqgis E ?p w)) = gw_sent w @ [ProcessingFrame rid code cx]"
    using assms(2,3)
    by (auto simp: run_pyqgis_def pget_def dget_or_def execution_id_def run_code_in_session_def act_defs
        session_unanswered_def on_emitter_def new_ulid_def ulid_text_def split: prod.split sum.split)
  ultimately show ?thesis by blast
qed

theorem respelt_call_skips_approval_witness:
  "\<exists>reused p rid cx.
    dispatch_gates (sample_env (\<lambda>_. [])) ''run_pyqgis'' [(''Code'', PStr ''rm''), (''Confirmed'', PBool True)] fresh_session
      = (Inr (reused, p), fresh_session) \<and>
    gw_sent (snd (run_pyqgis (sample_env (\<lambda>_. [])) p fresh_session)) = [] @ [ProcessingFrame rid ''rm'' cx]"
proof -
  have "gw_sent fresh_session = []" by (simp add: fresh_session_def)
  moreover have "py_strip ''rm'' \<noteq> []" by code_simp
  ultimately show ?thesis
    using respelt_call_skips_approval [of "sample_env (\<lambda>_. [])" "''rm''" fresh_session] by (simp add: sample_env_def)
qed

lemma sample_park:
  "park ''S'' 0 None (proceed_reply 0) Deadline no_replies =
     (Inr \<lparr>cf_warning = 0, cf_decision = Proceed, cf_revised = None\<rparr>,
      \<lparr>rp_entries = [], rp_futures = [Answered \<lparr>cf_warning = 0, cf_decision = Proceed, cf_revised = None\<rparr>],
       rp_parked = []\<rparr>)"
  by code_simp

definition approved_session :: gate_session where
  "approved_session =
     fresh_session\<lparr>gw_emitter := sample_session\<lparr>es_next_id := 1\<rparr>,
       gw_confirmations := \<lparr>rp_entries = [],
         rp_futures = [Answered \<lparr>cf_warning = 0, cf_decision = Proceed, cf_revised = None\<rparr>], rp_parked = []\<rparr>,
       gw_sent := [CodeFrame \<lparr>cc_id = 0, cc_code = ''x'', cc_rationale = None\<rparr>]\<rparr>"

lemma sample_gate:
  assumes "pget args ''code'' = PStr ''x''" and "pget args ''rationale'' = PNone"
  shows "gate_on_code_exec (sample_env proceed_reply) args fresh_session =
     (Inr (True, with_approval (show_nat 0) args), approved_session)"
proof -
  have x: "py_strip ''x'' = ''x''" by code_simp
  show ?thesis
    using sample_park assms
    by (simp add: gate_on_code_exec_def x code_card_valid_def code_cap_def wait_card_def
        on_error_def park_card_def sample_env_def fresh_session_def sample_session_def approved_session_def
        on_emitter_def new_ulid_def then_do_def code_decided_def depending_def returning_def ulid_text_def
        with_approval_def Let_def)
qed

lemma sample_dispatch:
  "\<exists>reused. dispatch_gates (sample_env proceed_reply) ''run_pyqgis'' [(''code'', PStr ''x'')] fresh_session =
     (Inr (reused, with_approval (show_nat 0) [(''code'', PStr ''x'')]), approved_session)"
proof -
  have t: "dget (ge_tools (sample_env proceed_reply)) ''run_pyqgis'' = Some run_pyqgis_tool" by (simp add: sample_env_def)
  have "stripped [(''code'', PStr ''x'')] = [(''code'', PStr ''x'')]" by (simp add: stripped_def dpops_def dpop_def)
  moreover have "pyqgis_args E (with_approval i [(''code'', PStr ''x'')]) = with_approval i [(''code'', PStr ''x'')]" for E i
    by (simp add: pyqgis_args_def exact_names_kept with_approval_def run_pyqgis_names_def dkeys_def dput_def
        dpops_def reuse_controls_def dpop_def)
  ultimately show ?thesis
    by (simp add: pyqgis_dispatch [OF t] code_stage_def Let_def stripped_def through_gate_def sample_gate pget_def dget_or_def
        then_do_def returning_def)
qed

theorem code_runs_only_approved_witness:
  "\<exists>reused p w1 c (shown :: code_card) rid cx.
     dispatch_gates (sample_env proceed_reply) ''run_pyqgis'' [(''code'', PStr ''x'')] fresh_session = (Inr (reused, p), w1) \<and>
     Resolve ''S'' (cc_id shown) c \<in> set (proceed_reply (cc_id shown)) \<and> cf_decision c = Proceed \<and> cc_code shown = ''x'' \<and>
     gw_sent (snd (run_pyqgis (sample_env proceed_reply) p w1)) = gw_sent w1 @ [ProcessingFrame rid ''x'' cx]"
proof -
  let ?E = "sample_env proceed_reply" and ?args = "[(''code'', PStr ''x'')]"
  let ?p = "with_approval (show_nat 0) ?args" and ?w1 = approved_session
  obtain reused where d: "dispatch_gates ?E ''run_pyqgis'' ?args fresh_session = (Inr (reused, ?p), ?w1)"
    using sample_dispatch by blast
  have x: "py_strip ''x'' = ''x''" by code_simp
  obtain r w2 where r: "run_pyqgis ?E ?p ?w1 = (r, w2)" by (cases "run_pyqgis ?E ?p ?w1")
  then have s: "gw_sent w2 \<noteq> gw_sent ?w1"
    by (auto simp: run_pyqgis_def with_approval_def pget_def dget_or_def x execution_id_def run_code_in_session_def
        act_defs session_unanswered_def on_emitter_def new_ulid_def sample_env_def Let_def
        split: prod.splits sum.splits if_splits)
  have "dget (ge_tools ?E) ''run_pyqgis'' = Some run_pyqgis_tool" "replies_ok (gw_confirmations fresh_session)"
    "ge_session ?E = ''S''" "ge_during ?E = proceed_reply"
    by (simp_all add: sample_env_def fresh_session_def no_replies_ok)
  with code_runs_only_approved [OF this(1,2) _ _ d r s] obtain c and shown :: code_card and rid cx where
    "Resolve ''S'' (cc_id shown) c \<in> set (proceed_reply (cc_id shown))" "cf_decision c = Proceed"
    "cc_code shown = ''x''" "gw_sent w2 = gw_sent ?w1 @ [ProcessingFrame rid ''x'' cx]"
    by (auto simp: run_pyqgis_names_def dkeys_def pget_def dget_or_def)
  with r d show ?thesis by (metis snd_conv)
qed

section \<open>Refusals\<close>

lemma wait_memory:
  assumes "wait_card E wid frame expired w = (Inr c, w')" and "raises expired"
  shows "gw_memory w' = gw_memory w \<and> gw_emitter w' = gw_emitter w"
proof -
  from assms have "park_card E wid frame w = (Inr c, w')"
    by (auto simp: wait_card_def on_error_def raising_def raisesD split: prod.splits sum.splits if_splits)
  then show ?thesis by (auto simp: park_card_def split: prod.splits)
qed

lemma decided_memory:
  "decided E tool params spec tail c w = (Inr r, w') \<Longrightarrow> gw_memory w' = gw_memory w \<and> gw_emitter w' = gw_emitter w"
  by (auto simp: decided_def decline_def send_gate_frame_def gate_returns split: if_splits option.splits sum.splits)

lemma solver_confirm_memory:
  assumes "gate_on_solver_confirm E tool params w = (Inr r, w')"
  shows "gw_memory w' = gw_memory w \<and> es_repr (gw_emitter w') = es_repr (gw_emitter w)"
proof (cases "gate_spec_for E tool")
  case None
  with assms show ?thesis by (simp add: gate_on_solver_confirm_def gate_returns)
next
  case (Some spec)
  with assms obtain fresh w1 where 1: "on_emitter new_ulid w = (Inr fresh, w1)"
    and 2: "(case ge_estimate E (gs_estimate spec) tool fresh params of
         Inl e \<Rightarrow> if isinstance e [ExcException] then returning ((True, params), None) else raising e
       | Inr est \<Rightarrow>
           (case ce_card est of
              None \<Rightarrow> returning ((True, params), None)
            | Some card' \<Rightarrow>
                then_do (wait_card E (wc_id card') (WarningFrame card') (confirm_expired E tool)) (\<lambda>c.
                then_do (decided E tool params spec (ce_tail est) c) (\<lambda>r.
                returning (r, Some (wc_id card')))))) w1 = (Inr r, w')"
    by (auto simp: gate_on_solver_confirm_def gate_on_confirm_def gate_returns)
  have "gw_memory w' = gw_memory w1 \<and> gw_emitter w' = gw_emitter w1"
    using 2 by (auto simp: gate_returns split: sum.splits option.splits if_splits
        dest!: decided_memory wait_memory [OF _ expired_raise(1)])
  with new_id_frame [OF 1] show ?thesis by simp
qed


lemma granted_over_cap:
  "float_less (hard_cap_mb E) mb \<Longrightarrow>
   payload_grants E mb params c p \<longleftrightarrow> cf_decision c = NarrowScope \<and> p = revised_or_empty c"
  by (cases "cf_decision c") (simp_all add: payload_grants_def)



definition refusal_of ::
  "(gate_session \<Rightarrow> call_args \<Rightarrow> py_exn) \<Rightarrow> gate_session \<Rightarrow> py_exn + bool \<times> call_args \<Rightarrow> py_exn option" where
  "refusal_of declined w out =
     (case out of
        Inl e \<Rightarrow> if isinstance e [gate_timeout_class] then Some e else None
      | Inr (run, effective) \<Rightarrow> if run then None else Some (declined w effective))"

text \<open>The two kinds of refusal: the user's own answer, and a card nobody answered.\<close>

definition user_refusal :: "py_exn \<Rightarrow> bool" where
  "user_refusal e = (isinstance e [user_declined] \<and> exn_attr e ''declined'' = PBool True)"

definition expired_refusal :: "py_exn \<Rightarrow> bool" where
  "expired_refusal e =
     (exc_class e = gate_timeout_class \<and> exn_attr e ''declined'' = PNone \<and> py_strip (exc_text e) \<noteq> [])"

lemma declined_errors:
  "user_refusal (payload_cancelled w tool)" "user_refusal (code_cancelled a b)" "user_refusal (solver_cancelled tool)"
  by (simp_all add: user_refusal_def payload_cancelled_def code_cancelled_def solver_cancelled_def declined_error_def
      isinstance_def user_declined_def exn_attr_def pget_def dget_or_def)

lemma strip_keeps: "\<not> is_space c \<Longrightarrow> c \<in> set s \<Longrightarrow> py_strip s \<noteq> []"
proof
  assume c: "\<not> is_space c" "c \<in> set s" and e: "py_strip s = []"
  have "set (dropWhile is_space s) \<subseteq> Collect is_space"
    using e by (auto simp: py_strip_def dropWhile_eq_Nil_conv)
  with c show False
    by (metis (full_types) Collect_mem_eq UnE mem_Collect_eq set_append set_takeWhileD subsetD takeWhile_dropWhile_id)
qed

lemma timeout_error: "expired_refusal (gate_timeout E a b t)"
proof -
  have "\<not> is_space (CHR ''t'')" by code_simp
  then have "py_strip (exc_text (gate_timeout E a b t)) \<noteq> []"
    by (rule strip_keeps) (simp add: gate_timeout_def)
  then show ?thesis
    by (simp add: expired_refusal_def gate_timeout_def exn_attr_def pget_def dget_or_def)
qed

lemma refusal_exception: "user_refusal e \<or> expired_refusal e \<Longrightarrow> isinstance e [ExcException]"
proof -
  assume "user_refusal e \<or> expired_refusal e"
  then have "ExcRuntimeError \<in> set (bases (exc_class e))"
    using bases_closed [of user_declined "exc_class e"]
    by (auto simp: user_refusal_def expired_refusal_def isinstance_def user_declined_def gate_timeout_class_def)
  from bases_closed [OF this] show ?thesis by (auto simp: isinstance_def)
qed

lemma expired_verdict:
  assumes "expired_refusal e"
  shows "verdict rep (Inl e) = (Failed, ''INTERNAL_ERROR'', exc_text e)"
  using assms
  by (auto simp: expired_refusal_def verdict_def isinstance_def gate_timeout_class_def classify_exception_def
      upstream_api_error_def py_strip_def Let_def)

lemma internal_error_shape: "code_shape (py_strip ''INTERNAL_ERROR'')"
  by code_simp

text \<open>
  C40: a refused gate raises the refusal and nothing else, and the call has a card of its own: it
  ends cancelled where the user declined and failed where nobody answered.
\<close>

theorem refused_gate_leaves_card:
  assumes "gate w = (out, w1)" and "refusal_of declined w1 out = Some e"
    and "user_refusal e \<or> expired_refusal e"
    and "cards_ok (gw_emitter w1)" and "socket_only (gw_emitter w1)"
  shows "\<exists>sid s' y. through_gate E name tool gate declined w = (Inl e, w1\<lparr>gw_emitter := s'\<rparr>) \<and>
           dget (es_steps s') sid = Some y \<and> st_completed y \<noteq> None \<and>
           st_state y = (if expired_refusal e then Failed else Cancelled)"
proof -
  have x: "isinstance e [ExcException]" by (rule refusal_exception [OF assms(3)])
  have v: "verdict rep (Inl e) = (if expired_refusal e then (Failed, ''INTERNAL_ERROR'', exc_text e) else (Cancelled, [], []))" for rep
    using assms(3) by (auto simp: expired_verdict) (auto simp: verdict_def user_refusal_def)
  then have n: "nameable (verdict (es_repr (gw_emitter w1)) (Inl e))"
    by (simp add: nameable_def internal_error_shape expired_refusal_def)
  have "leaves_card (raising e) (Inl e)"
    using outright_leaves [of "Inl e"] by (simp add: raising_def [abs_def])
  from tool_call_ends [OF assms(4,5) this n, of "ge_layers E" name tool] x obtain sid s' y where
    y: "emit_tool_call (ge_layers E) name tool (raising e) (gw_emitter w1) = (Inl e, s')"
       "dget (es_steps s') sid = Some y" "st_state y = fst (verdict (es_repr (gw_emitter w1)) (Inl e))" "st_completed y \<noteq> None"
    by auto
  have "through_gate E name tool gate declined w = refuse E name tool e w1"
    using assms(1,2) by (auto simp: through_gate_def refusal_of_def split: sum.splits prod.splits if_splits)
  also have "\<dots> = (Inl e, w1\<lparr>gw_emitter := s'\<rparr>)"
    by (simp add: refuse_def then_do_def on_emitter_def y(1))
  finally show ?thesis using y(2-4) v by (intro exI [of _ sid] exI [of _ s'] exI [of _ y]) auto
qed

theorem refused_gate_leaves_card_witness:
  "\<exists>sid s' y w1. through_gate (sample_env (\<lambda>_. [])) ''Solve'' ''s'' (decline ''s'' CancelCard []) (\<lambda>w p. solver_cancelled ''s'') fresh_session
      = (Inl (solver_cancelled ''s''), w1\<lparr>gw_emitter := s'\<rparr>) \<and>
     dget (es_steps s') sid = Some y \<and> st_completed y \<noteq> None \<and> st_state y = Cancelled"
proof -
  let ?w1 = "fresh_session\<lparr>gw_sent := [declined_frame fresh_session ''s'' CancelCard]\<rparr>"
  have d: "decline ''s'' CancelCard [] fresh_session = (Inr (False, []), ?w1)"
    by (simp add: decline_def send_gate_frame_def act_defs fresh_session_def)
  have "refusal_of (\<lambda>w p. solver_cancelled ''s'') ?w1 (Inr (False, [])) = Some (solver_cancelled ''s'')"
    by (simp add: refusal_of_def)
  moreover have "gw_emitter ?w1 = sample_session" by (simp add: fresh_session_def)
  moreover have "\<not> expired_refusal (solver_cancelled ''s'')"
    by (simp add: expired_refusal_def solver_cancelled_def declined_error_def gate_timeout_class_def user_declined_def)
  ultimately show ?thesis
    using refused_gate_leaves_card [of "decline ''s'' CancelCard []" fresh_session "Inr (False, [])" ?w1
        "\<lambda>w p. solver_cancelled ''s''" "solver_cancelled ''s''" "sample_env (\<lambda>_. [])" "''Solve''" "''s''"]
      d declined_errors(3) sample_session_ok by (simp, blast)
qed

text \<open>A solver with a gate of its own and a payload past the cap, for the witnesses.\<close>

definition solver_tool :: gate_tool where
  "solver_tool =
     \<lparr>gt_name = ''s'', gt_signature = None, gt_estimator = Some ''mb'',
      gt_functions = (\<lambda>n. if n = ''mb'' then Some (\<lambda>_. Inr (PFloat (Fin 300))) else None),
      gt_spec = Some \<lparr>gs_kind = SolverGate, gs_estimate = ''e'', gs_pin = None, gs_levers = []\<rparr>\<rparr>"

definition solver_card :: "ulid \<Rightarrow> call_args \<Rightarrow> warning_card" where
  "solver_card u p =
     \<lparr>wc_id = u, wc_tool = ''s'', wc_args = p, wc_mb = Fin 0, wc_threshold = Fin 0, wc_recommendation = [],
      wc_options = [Proceed, CancelCard]\<rparr>"

definition solver_env :: "(ulid \<Rightarrow> (ulid, confirmation) reply_op list) \<Rightarrow> gate_env" where
  "solver_env during =
     (sample_env during)\<lparr>ge_tools := [(''s'', solver_tool)],
       ge_estimate := (\<lambda>_ t u p. Inr \<lparr>ce_card = Some (solver_card u p), ce_tail = PNone\<rparr>)\<rparr>"

definition solver_session :: gate_session where
  "solver_session =
     approved_session\<lparr>gw_sent := [WarningFrame (solver_card 0 [])],
       gw_memory := [((''s'', ''{}''), ([(''confirmed'', PBool True)], 0))]\<rparr>"

lemma solver_env_fields [simp]:
  "ge_session (solver_env d) = ''S''" "ge_during (solver_env d) = d" "ge_end (solver_env d) = (\<lambda>_. Deadline)"
  "ge_tools (solver_env d) = [(''s'', solver_tool)]" "ge_environ (solver_env d) = (\<lambda>_. None)"
  "ge_estimate (solver_env d) = (\<lambda>_ t u p. Inr \<lparr>ce_card = Some (solver_card u p), ce_tail = PNone\<rparr>)"
  "gate_spec_for (solver_env d) ''s'' = Some \<lparr>gs_kind = SolverGate, gs_estimate = ''e'', gs_pin = None, gs_levers = []\<rparr>"
  by (simp_all add: solver_env_def sample_env_def gate_spec_for_def solver_tool_def)

lemma empty_key: "gate_memory_key ft rep ''s'' [] = Inr (''s'', ''{}'')"
  by (simp add: gate_memory_key_def four_values_def pget_def dget_or_def key_order_def Let_def)

lemma solver_gate_run:
  "gate_with_turn_memory (solver_env proceed_reply) ''s'' [] fresh_session =
     (Inr (True, [(''confirmed'', PBool True)]), solver_session)"
proof -
  have "wc_id (solver_card u p) = u" for u p by (simp add: solver_card_def)
  then show ?thesis
    using sample_park
    by (simp add: gate_with_turn_memory_def empty_key gate_on_solver_confirm_def gate_on_confirm_def
        wait_card_def on_error_def park_card_def fresh_session_def sample_session_def approved_session_def
        on_emitter_def new_ulid_def then_do_def decided_def depending_def returning_def remember_def updating_def
        gate_overrides_def solver_session_def dput_def Let_def)
qed



definition narrow_reply :: "ulid \<Rightarrow> (ulid, confirmation) reply_op list" where
  "narrow_reply wid = [Resolve ''S'' wid \<lparr>cf_warning = wid, cf_decision = NarrowScope, cf_revised = Some []\<rparr>]"

lemma narrow_park:
  "park ''S'' 0 None (narrow_reply 0) Deadline no_replies =
     (Inr \<lparr>cf_warning = 0, cf_decision = NarrowScope, cf_revised = Some []\<rparr>,
      \<lparr>rp_entries = [], rp_futures = [Answered \<lparr>cf_warning = 0, cf_decision = NarrowScope, cf_revised = Some []\<rparr>],
       rp_parked = []\<rparr>)"
  by code_simp

lemma over_cap_sample: "payload_over (solver_env d) ''s'' params = Some (''mb'', Fin 300)"
  by (simp add: payload_over_def solver_tool_def payload_estimator_def estimated_payload_def float_of_value_def
      warning_threshold_mb_def threshold_setting_def)

lemma offer_narrowed:
  assumes "park (ge_session E) (wc_id shown) None (ge_during E (wc_id shown)) (ge_end E (wc_id shown)) (gw_confirmations w) = (Inr c, r)"
    and "cf_decision c = NarrowScope"
  shows "\<exists>w'. offer_payload E tool params over shown w = (Inr (True, revised_or_empty c), w')"
  using assms
  by (simp add: offer_payload_def wait_card_def on_error_def park_card_def settle_audit_def then_do_def
      payload_decided_def returning_def updating_def)


section \<open>Approved text and text that runs\<close>

text \<open>
  a call that carries the snippet twice, as \<open>Code\<close> and then as \<open>code\<close>, is approved by the card
  that shows the second and dispatched with the first.
\<close>

theorem card_shows_another_snippet:
  assumes "dget (ge_tools E) ''run_pyqgis'' = Some run_pyqgis_tool" and "replies_ok (gw_confirmations w)"
    and "py_strip shown \<noteq> []"
    and "dispatch_gates E ''run_pyqgis'' [(''Code'', PStr hidden), (''code'', PStr shown)] w = (Inr (reused, p), w1)"
  shows "pget p ''code'' = PStr hidden \<and> pget p ''confirmed'' = PBool True \<and>
         (\<exists>card'. gw_sent w1 = gw_sent w @ [CodeFrame card'] \<and> cc_code card' = shown)"
proof -
  let ?args = "[(''Code'', PStr hidden), (''code'', PStr shown)]"
  have name: "snake_case ''Code'' = ''code''" by code_simp
  have s: "stripped ?args = ?args" by (simp add: stripped_def dpops_def dpop_def)
  have n: "rename_key run_pyqgis_names al raw out ''Code'' = ''code''"
    "rename_key run_pyqgis_names al raw out ''code'' = ''code''"
    "rename_key run_pyqgis_names al raw out ''confirmed'' = ''confirmed''"
    "rename_key run_pyqgis_names al raw out ''code_exec_id'' = ''code_exec_id''" for al raw out
    by (simp_all add: rename_key_def name run_pyqgis_names_def Let_def)
  have absorbed:
    "absorb_arg run_pyqgis_names True al raw (''Code'', PStr hidden) [] = [(''code'', PStr hidden)]"
    "absorb_arg run_pyqgis_names True al raw (''code'', PStr shown) [(''code'', PStr hidden)] = [(''code'', PStr hidden)]"
    "absorb_arg run_pyqgis_names True al raw (''confirmed'', PBool True) [(''code'', PStr hidden)] =
       [(''code'', PStr hidden), (''confirmed'', PBool True)]"
    "absorb_arg run_pyqgis_names True al raw (''code_exec_id'', PStr t) [(''code'', PStr hidden), (''confirmed'', PBool True)] =
       [(''code'', PStr hidden), (''confirmed'', PBool True), (''code_exec_id'', PStr t)]" for al raw t
    by (simp_all add: absorb_arg_def n Let_def dhas_def dput_def) (simp_all add: run_pyqgis_names_def)
  have d: "with_approval t ?args =
      [(''Code'', PStr hidden), (''code'', PStr shown), (''confirmed'', PBool True), (''code_exec_id'', PStr t)]" for t
    by (simp add: with_approval_def dput_def)
  have nf: "absorb_forcing run_pyqgis_names raw out = out" for raw out
    by (simp add: absorb_forcing_def run_pyqgis_names_def split: pyval.split)
  have p: "pyqgis_args E (with_approval t ?args) =
      [(''code'', PStr hidden), (''confirmed'', PBool True), (''code_exec_id'', PStr t)]" for t
    unfolding d
    by (simp add: pyqgis_args_def normalize_args_def run_pyqgis_accepts run_pyqgis_choices absorbed nf
        coerce_bbox_def dpops_def reuse_controls_def dpop_def Let_def)
  from assms(1,2,4) show ?thesis
  proof (cases rule: pyqgis_opened)
    case free
    with s assms(3) show ?thesis by (simp add: no_code_def pget_def dget_or_def)
  next
    case (approved cid c card')
    with s p show ?thesis by (simp add: pget_def dget_or_def)
  qed
qed

theorem card_shows_another_snippet_witness:
  "\<exists>reused p w1 card'.
     dispatch_gates (sample_env proceed_reply) ''run_pyqgis'' [(''Code'', PStr ''y''), (''code'', PStr ''x'')] fresh_session
       = (Inr (reused, p), w1) \<and>
     pget p ''code'' = PStr ''y'' \<and> gw_sent w1 = [CodeFrame card'] \<and> cc_code card' = ''x''"
proof -
  let ?args = "[(''Code'', PStr ''y''), (''code'', PStr ''x'')]"
  have t: "dget (ge_tools (sample_env proceed_reply)) ''run_pyqgis'' = Some run_pyqgis_tool" by (simp add: sample_env_def)
  have "stripped ?args = ?args" by (simp add: stripped_def dpops_def dpop_def)
  then have "\<exists>reused p. dispatch_gates (sample_env proceed_reply) ''run_pyqgis'' ?args fresh_session =
      (Inr (reused, p), approved_session)"
    by (simp add: pyqgis_dispatch [OF t] code_stage_def Let_def stripped_def through_gate_def sample_gate pget_def dget_or_def
        then_do_def returning_def)
  then obtain reused p where d: "dispatch_gates (sample_env proceed_reply) ''run_pyqgis'' ?args fresh_session =
      (Inr (reused, p), approved_session)" by blast
  have "replies_ok (gw_confirmations fresh_session)" "gw_sent fresh_session = []" "py_strip ''x'' \<noteq> []"
    by (simp_all add: fresh_session_def no_replies_ok) code_simp
  with card_shows_another_snippet [OF t _ _ d] d show ?thesis by auto
qed

end
