(* ===== verification/TurnMessages.thy ===== *)
theory TurnMessages
  imports JsonText
begin

text \<open>
  The message IR of contracts/trid3nt_contracts/message.py: a turn is a list of messages,
  a message a role and its parts, a part a text, a tool call or a tool response.
\<close>

record tool_call =
  call_name :: string
  call_args :: "(string \<times> pyval) list"
  call_id :: "string option"

record tool_response =
  resp_name :: string
  resp_result :: "(string \<times> pyval) list"
  resp_id :: "string option"

record part =
  part_text :: "string option"
  part_call :: "tool_call option"
  part_response :: "tool_response option"

datatype role = UserRole | ModelRole

record message =
  msg_role :: role
  msg_parts :: "part list"

definition text_part :: "string \<Rightarrow> part" where
  "text_part t = \<lparr>part_text = Some t, part_call = None, part_response = None\<rparr>"

definition response_part :: "tool_response \<Rightarrow> part" where
  "response_part r = \<lparr>part_text = None, part_call = None, part_response = Some r\<rparr>"

definition call_part :: "tool_call \<Rightarrow> part" where
  "call_part c = \<lparr>part_text = None, part_call = Some c, part_response = None\<rparr>"

text \<open>\<open>Message.user_text\<close>, \<open>Message.call\<close> and \<open>Message.response\<close>.\<close>

definition user_text_message :: "string \<Rightarrow> message" where
  "user_text_message t = \<lparr>msg_role = UserRole, msg_parts = [text_part t]\<rparr>"

definition model_text_message :: "string \<Rightarrow> message" where
  "model_text_message t = \<lparr>msg_role = ModelRole, msg_parts = [text_part t]\<rparr>"

definition call_message :: "string \<Rightarrow> (string \<times> pyval) list option \<Rightarrow> string option \<Rightarrow> message" where
  "call_message name args cid =
     \<lparr>msg_role = ModelRole,
      msg_parts = [call_part \<lparr>call_name = name,
        call_args = (case args of None \<Rightarrow> [] | Some a \<Rightarrow> a), call_id = cid\<rparr>]\<rparr>"

definition response_message :: "string \<Rightarrow> (string \<times> pyval) list option \<Rightarrow> string option \<Rightarrow> message" where
  "response_message name res cid =
     \<lparr>msg_role = UserRole,
      msg_parts = [response_part \<lparr>resp_name = name,
        resp_result = (case res of None \<Rightarrow> [] | Some r \<Rightarrow> r), resp_id = cid\<rparr>]\<rparr>"

text \<open>The contract of a part, stated by its docstring: at most one of the three is set.\<close>

definition part_ok :: "part \<Rightarrow> bool" where
  "part_ok p \<longleftrightarrow>
     (part_text p \<noteq> None \<longrightarrow> part_call p = None \<and> part_response p = None) \<and>
     (part_call p \<noteq> None \<longrightarrow> part_response p = None)"

definition message_ok :: "message \<Rightarrow> bool" where
  "message_ok m \<longleftrightarrow> (\<forall>p \<in> set (msg_parts m). part_ok p)"

lemma part_ok_builders [simp]:
  "part_ok (text_part t)" "part_ok (response_part r)" "part_ok (call_part c)"
  by (simp_all add: part_ok_def text_part_def response_part_def call_part_def)

lemma message_ok_builders [simp]:
  "message_ok (user_text_message t)" "message_ok (model_text_message t)" "message_ok (call_message n a i)"
  "message_ok (response_message n r i)"
  by (simp_all add: message_ok_def user_text_message_def model_text_message_def call_message_def response_message_def)

end
