(* ===== verification/Compaction.thy ===== *)
theory Compaction
  imports TurnMessages
begin

text \<open>
  The client-side history budget of trid3nt_server/model/guards/context_budget.py: the
  token estimate, the compaction ladder (drop, harden, cap, fold, cap the tail) and the
  decision of one model round, plan_turn.
\<close>

section \<open>Limits and estimates\<close>

definition openai_max_tokens_default :: int where
  "openai_max_tokens_default = 4096"

definition safety_tokens_default :: int where
  "safety_tokens_default = 1024"

definition proactive_target_ratio :: rat where
  "proactive_target_ratio = 3 / 4"

definition reactive_target_ratio :: rat where
  "reactive_target_ratio = 3 / 5"

definition tool_result_harden_chars :: nat where
  "tool_result_harden_chars = 200"

definition narration_row_harden_chars :: nat where
  "narration_row_harden_chars = 2000"

definition contents_normalize_char_cap :: nat where
  "contents_normalize_char_cap = 8000"

definition openai_max_output_tokens :: int where
  "openai_max_output_tokens = openai_max_tokens_default"

definition reserve_output_tokens :: int where
  "reserve_output_tokens = openai_max_output_tokens"

definition compute_budget_tokens :: "int \<Rightarrow> int" where
  "compute_budget_tokens num_ctx = max (num_ctx - reserve_output_tokens - safety_tokens_default) 256"

text \<open>\<open>math.ceil(len(text) / CHARS_PER_TOKEN)\<close> with four characters per token.\<close>

definition estimate_tokens :: "string \<Rightarrow> int" where
  "estimate_tokens t = (int (length t) + 3) div 4"

text \<open>
  A row is measured by the JSON text of \<open>model_dump\<close>, a method of the pydantic package: it
  is the parameter \<open>row_dump\<close>, with \<open>Inl\<close> the \<open>str()\<close> text used where it raises.
\<close>

record text_env =
  row_dump :: "message \<Rightarrow> string + pyval"
  num_text :: "pyfloat \<Rightarrow> string"

definition content_text_repr :: "text_env \<Rightarrow> message \<Rightarrow> string" where
  "content_text_repr env c =
     (case row_dump env c of Inl t \<Rightarrow> t | Inr v \<Rightarrow> json_text (plain_style (num_text env)) v)"

definition estimate_tokens_for_contents :: "text_env \<Rightarrow> message list \<Rightarrow> int" where
  "estimate_tokens_for_contents env cs = sum_list (map (\<lambda>c. estimate_tokens (content_text_repr env c)) cs)"

definition estimate_tokens_for_messages :: "text_env \<Rightarrow> pyval list \<Rightarrow> int" where
  "estimate_tokens_for_messages env ms =
     (if ms = [] then 0 else estimate_tokens (json_text (plain_style (num_text env)) (PList ms)))"

definition estimate_tokens_for_tools :: "text_env \<Rightarrow> pyval list option \<Rightarrow> int" where
  "estimate_tokens_for_tools env tools =
     (case tools of
        None \<Rightarrow> 0
      | Some ts \<Rightarrow> if ts = [] then 0
                   else estimate_tokens (json_text (plain_style (num_text env)) (PList ts)))"

section \<open>The row operations of the ladder\<close>

definition protected_tail_len :: "message list \<Rightarrow> nat" where
  "protected_tail_len contents = min 2 (length contents)"

definition is_droppable_row :: "message \<Rightarrow> bool" where
  "is_droppable_row c \<longleftrightarrow>
     list_all (\<lambda>p. part_call p = None \<and> part_response p = None) (msg_parts c)"

definition harden_function_response_part :: "text_env \<Rightarrow> nat \<Rightarrow> part \<Rightarrow> part \<times> bool" where
  "harden_function_response_part env max_chars p =
     (case part_response p of
        None \<Rightarrow> (p, False)
      | Some fr \<Rightarrow>
          (let serialized = json_text (plain_style (num_text env)) (PDict (resp_result fr)) in
           if length serialized \<le> max_chars then (p, False)
           else (response_part \<lparr>resp_name = resp_name fr,
                   resp_result = [(''summary'', PStr (take max_chars serialized)),
                                  (''truncated'', PBool True)],
                   resp_id = resp_id fr\<rparr>, True)))"

definition truncation_mark :: string where
  "truncation_mark = '' ...[truncated]''"

definition cap_text_part :: "nat \<Rightarrow> part \<Rightarrow> part \<times> bool" where
  "cap_text_part max_chars p =
     (case part_text p of
        None \<Rightarrow> (p, False)
      | Some t \<Rightarrow> if max_chars < length t
                  then (text_part (take max_chars t @ truncation_mark), True) else (p, False))"

text \<open>
  \<open>_harden_content\<close> and \<open>_cap_text_parts\<close> have one loop: rewrite the parts, and keep the
  row's own object where no part changed.
\<close>

definition rewrite_parts :: "(part \<Rightarrow> part \<times> bool) \<Rightarrow> message \<Rightarrow> message \<times> bool" where
  "rewrite_parts f c =
     (let new = map f (msg_parts c) in
      if list_ex snd new
      then (\<lparr>msg_role = msg_role c, msg_parts = map fst new\<rparr>, True) else (c, False))"

definition harden_content :: "text_env \<Rightarrow> nat \<Rightarrow> message \<Rightarrow> message \<times> bool" where
  "harden_content env max_chars = rewrite_parts (harden_function_response_part env max_chars)"

definition cap_text_parts :: "nat \<Rightarrow> message \<Rightarrow> message \<times> bool" where
  "cap_text_parts max_chars = rewrite_parts (cap_text_part max_chars)"

definition normalize_contents_row_sizes :: "nat \<Rightarrow> message list \<Rightarrow> message list" where
  "normalize_contents_row_sizes max_chars contents =
     map (\<lambda>c. let (capped, changed) = cap_text_parts max_chars c in if changed then capped else c) contents"

text \<open>\<open>" ".join(t.strip().split())\<close>.\<close>

fun words_of :: "string \<Rightarrow> string \<Rightarrow> string list" where
  "words_of w [] = (if w = [] then [] else [rev w])"
| "words_of w (c # s) =
     (if is_space c then (if w = [] then words_of [] s else rev w # words_of [] s)
      else words_of (c # w) s)"

definition squeeze :: "string \<Rightarrow> string" where
  "squeeze t = join '' '' (words_of [] (py_strip t))"

definition digest_part :: "role \<Rightarrow> part \<Rightarrow> string option" where
  "digest_part r p = first_some
     [case part_call p of
        None \<Rightarrow> None
      | Some c \<Rightarrow> if call_name c = [] then None else Some (''called '' @ call_name c),
      case part_response p of
        None \<Rightarrow> None
      | Some fr \<Rightarrow> if resp_name fr = [] then None else Some (resp_name fr @ '' completed''),
      case part_text p of
        None \<Rightarrow> None
      | Some t \<Rightarrow>
          (let snippet = take 80 (squeeze t) in
           if t = [] \<or> snippet = [] then None
           else Some ((if r = UserRole then ''asked'' else ''answered'') @ '': '' @ snippet))]"

definition digest_line_for_content :: "message \<Rightarrow> string option" where
  "digest_line_for_content c = first_some (map (digest_part (msg_role c)) (msg_parts c))"

definition build_digest_row :: "message list \<Rightarrow> message" where
  "build_digest_row contents =
     (let lines = List.map_filter digest_line_for_content contents;
          body = (if lines = [] then ''(no further detail)''
                  else join [CHR 0x0A] (map (\<lambda>ln. ''- '' @ ln) lines))
      in user_text_message (''Earlier in this case: '' @ body))"

section \<open>The ladder\<close>

text \<open>Rows are over the target together with the tail that stays.\<close>

definition over_target :: "text_env \<Rightarrow> int \<Rightarrow> message list \<Rightarrow> message list \<Rightarrow> bool" where
  "over_target env target protected working \<longleftrightarrow>
     target < estimate_tokens_for_contents env working + estimate_tokens_for_contents env protected"

text \<open>Step (a): drop the oldest droppable row until the target is met or none is left.\<close>

function drop_rows :: "(message list \<Rightarrow> bool) \<Rightarrow> message list \<Rightarrow> nat \<Rightarrow> message list \<times> nat" where
  "drop_rows over working dropped =
     (if over working
      then (case find_index is_droppable_row working of
              None \<Rightarrow> (working, dropped)
            | Some idx \<Rightarrow> drop_rows over (take idx working @ drop (Suc idx) working) (Suc dropped))
      else (working, dropped))"
  by pat_completeness auto
termination
  by (relation "measure (\<lambda>(over, working, dropped). length working)")
     (auto dest!: find_index_less)

declare drop_rows.simps [simp del]

text \<open>
  Step (b), both passes: rewrite the rows oldest first, stopping before the next row once
  the target is met. The rows done are passed in order.
\<close>

fun shrink_rows ::
  "(message \<Rightarrow> message \<times> bool) \<Rightarrow> (message list \<Rightarrow> bool) \<Rightarrow> message list \<Rightarrow> message list \<Rightarrow> nat
     \<Rightarrow> message list \<times> nat" where
  "shrink_rows f over done [] hardened = (done, hardened)"
| "shrink_rows f over done (c # todo) hardened =
     (if \<not> over (done @ c # todo) then (done @ c # todo, hardened)
      else (let (new, changed) = f c in
            shrink_rows f over (done @ [if changed then new else c]) todo
              (if changed then Suc hardened else hardened)))"

text \<open>Step (d): cap the protected rows, stopping after the row that meets the target.\<close>

fun cap_rows ::
  "(message \<Rightarrow> message \<times> bool) \<Rightarrow> (message list \<Rightarrow> bool) \<Rightarrow> message list \<Rightarrow> message list \<Rightarrow> nat
     \<Rightarrow> message list \<times> nat" where
  "cap_rows f over done [] hardened = (done, hardened)"
| "cap_rows f over done (c # todo) hardened =
     (let (new, changed) = f c;
          c' = (if changed then new else c);
          hardened' = (if changed then Suc hardened else hardened)
      in if \<not> over (done @ c' # todo) then (done @ c' # todo, hardened')
         else cap_rows f over (done @ [c']) todo hardened')"

record compaction_result =
  res_contents :: "message list"
  res_changed :: bool
  res_dropped :: nat
  res_hardened :: nat
  res_folded :: bool
  res_before_tokens :: int
  res_after_tokens :: int

text \<open>\<open>max(int(budget_tokens * target_ratio), 1)\<close>; \<open>int\<close> truncates towards zero.\<close>

definition trunc_rat :: "rat \<Rightarrow> int" where
  "trunc_rat r = (if r < 0 then - \<lfloor>- r\<rfloor> else \<lfloor>r\<rfloor>)"

definition compaction_target :: "int \<Rightarrow> rat \<Rightarrow> int" where
  "compaction_target budget_tokens target_ratio = max (trunc_rat (of_int budget_tokens * target_ratio)) 1"

text \<open>
  The steps of the ladder after the early return, over the working rows and the protected
  tail: (working, protected, dropped, hardened, folded).
\<close>

definition run_ladder ::
  "text_env \<Rightarrow> int \<Rightarrow> nat \<Rightarrow> nat \<Rightarrow> message list \<Rightarrow> message list
     \<Rightarrow> message list \<times> message list \<times> nat \<times> nat \<times> bool" where
  "run_ladder env target harden_chars narration_chars working protected =
     (let over = over_target env target protected;
          (w1, dropped) = drop_rows over working 0;
          (w2, h2) = (if w1 \<noteq> [] \<and> over w1
                      then shrink_rows (harden_content env harden_chars) over [] w1 0 else (w1, 0));
          (w3, h3) = (if w2 \<noteq> [] \<and> over w2
                      then shrink_rows (cap_text_parts narration_chars) over [] w2 h2 else (w2, h2));
          folded = (w3 \<noteq> [] \<and> over w3);
          w4 = (if folded then [build_digest_row w3] else w3);
          (p5, h5) = (if over w4
                      then cap_rows (cap_text_parts narration_chars)
                             (\<lambda>p. over_target env target p w4) [] protected h3
                      else (protected, h3))
      in (w4, p5, dropped, h5, folded))"

definition compact_contents ::
  "text_env \<Rightarrow> message list \<Rightarrow> int \<Rightarrow> rat \<Rightarrow> nat option \<Rightarrow> nat option \<Rightarrow> compaction_result" where
  "compact_contents env contents0 budget_tokens target_ratio harden_opt narration_opt =
     (let harden_chars = (case harden_opt of None \<Rightarrow> tool_result_harden_chars | Some n \<Rightarrow> n);
          narration_chars = (case narration_opt of None \<Rightarrow> narration_row_harden_chars | Some n \<Rightarrow> n);
          target = compaction_target budget_tokens target_ratio;
          contents = normalize_contents_row_sizes contents_normalize_char_cap contents0;
          protect_n = protected_tail_len contents;
          protected = drop (length contents - protect_n) contents;
          working = take (length contents - protect_n) contents;
          before_tokens = estimate_tokens_for_contents env contents
      in if \<not> over_target env target protected working
         then \<lparr>res_contents = working @ protected, res_changed = False, res_dropped = 0,
               res_hardened = 0, res_folded = False, res_before_tokens = before_tokens,
               res_after_tokens = before_tokens\<rparr>
         else (let (w, p, dropped, hardened, folded) =
                     run_ladder env target harden_chars narration_chars working protected
               in \<lparr>res_contents = w @ p,
                   res_changed = (0 < dropped \<or> 0 < hardened \<or> folded),
                   res_dropped = dropped, res_hardened = hardened, res_folded = folded,
                   res_before_tokens = before_tokens,
                   res_after_tokens =
                     estimate_tokens_for_contents env w + estimate_tokens_for_contents env p\<rparr>))"

section \<open>plan_turn\<close>

text \<open>
  \<open>ContextWindow\<close> of the model round; \<open>tokens\<close> is what \<open>plan_turn\<close> reads of it.
\<close>

datatype window_source =
    OllamaShow | OpenrouterModels | AnthropicModels | NameSuffix | EnvPin | ConservativeDefault

record context_window =
  win_tokens :: int
  win_source :: window_source
  win_provider :: string
  win_model :: string

datatype phase = Proactive | Reactive

record turn_plan =
  tp_contents :: "message list"
  tp_compacted :: bool
  tp_before_tokens :: int
  tp_after_tokens :: int
  tp_window :: context_window
  tp_est_tokens :: int

definition plan_turn ::
  "text_env \<Rightarrow> message list \<Rightarrow> context_window \<Rightarrow> int \<Rightarrow> int \<Rightarrow> int option \<Rightarrow> rat option \<Rightarrow> int option
     \<Rightarrow> phase \<Rightarrow> turn_plan" where
  "plan_turn env contents window tool_tokens system_tokens wire_tokens ratio_opt output_reserve ph =
     (let target_ratio = (case ratio_opt of
             None \<Rightarrow> if ph \<noteq> Proactive then reactive_target_ratio else proactive_target_ratio
           | Some r \<Rightarrow> r);
          reserve = (case output_reserve of None \<Rightarrow> reserve_output_tokens | Some r \<Rightarrow> r);
          budget = max (win_tokens window - reserve - safety_tokens_default) 256;
          content_budget0 = max (budget - tool_tokens - system_tokens) 256;
          est_tokens = (case wire_tokens of
              Some w \<Rightarrow> w
            | None \<Rightarrow> estimate_tokens_for_contents env contents + tool_tokens + system_tokens);
          content_budget = (if ph \<noteq> Proactive
              then max (min content_budget0 (estimate_tokens_for_contents env contents)) 256
              else content_budget0)
      in if ph = Proactive \<and> est_tokens \<le> budget
         then \<lparr>tp_contents = contents, tp_compacted = False, tp_before_tokens = est_tokens,
               tp_after_tokens = est_tokens, tp_window = window, tp_est_tokens = est_tokens\<rparr>
         else (let result = compact_contents env contents content_budget target_ratio None None
               in \<lparr>tp_contents = res_contents result,
                   tp_compacted = (res_changed result \<or> ph \<noteq> Proactive),
                   tp_before_tokens = res_before_tokens result,
                   tp_after_tokens = res_after_tokens result,
                   tp_window = window, tp_est_tokens = est_tokens\<rparr>))"

section \<open>What a rewritten row keeps\<close>

text \<open>
  The skeleton of a row: its role, and of each part whether it is a text, the call, and
  the name and id of the response. It is what pairs calls with their responses.
\<close>

definition part_skeleton ::
  "part \<Rightarrow> bool \<times> tool_call option \<times> (string \<times> string option) option" where
  "part_skeleton p =
     (part_text p \<noteq> None, part_call p, map_option (\<lambda>r. (resp_name r, resp_id r)) (part_response p))"

definition skeleton ::
  "message \<Rightarrow> role \<times> (bool \<times> tool_call option \<times> (string \<times> string option) option) list" where
  "skeleton c = (msg_role c, map part_skeleton (msg_parts c))"

definition tool_row :: "message \<Rightarrow> bool" where
  "tool_row c \<longleftrightarrow> \<not> is_droppable_row c"

lemma tool_row_skeleton: "skeleton c = skeleton d \<Longrightarrow> tool_row c = tool_row d"
proof -
  have "tool_row c \<longleftrightarrow> (\<exists>s \<in> set (snd (skeleton c)). fst (snd s) \<noteq> None \<or> snd (snd s) \<noteq> None)" for c
    by (auto simp: tool_row_def is_droppable_row_def skeleton_def part_skeleton_def list_all_iff)
  then show "skeleton c = skeleton d \<Longrightarrow> tool_row c = tool_row d" by simp
qed

locale row_rewriter =
  fixes f :: "message \<Rightarrow> message \<times> bool"
    and ok :: "message \<Rightarrow> bool"
    and view :: "message \<Rightarrow> 'v"
  assumes view_kept: "ok c \<Longrightarrow> view (fst (f c)) = view c"
    and ok_kept: "ok c \<Longrightarrow> ok (fst (f c))"
    and unchanged: "\<not> snd (f c) \<Longrightarrow> fst (f c) = c"
begin

lemma shrink_Cons:
  "shrink_rows f over done (c # todo) k =
     (if over (done @ c # todo)
      then shrink_rows f over (done @ [fst (f c)]) todo (if snd (f c) then Suc k else k)
      else (done @ c # todo, k))"
  using unchanged [of c] by (cases "f c") auto

lemma cap_Cons:
  "cap_rows f over done (c # todo) k =
     (if over (done @ fst (f c) # todo)
      then cap_rows f over (done @ [fst (f c)]) todo (if snd (f c) then Suc k else k)
      else (done @ fst (f c) # todo, if snd (f c) then Suc k else k))"
  using unchanged [of c] by (cases "f c") (auto simp: Let_def)

lemmas steps = shrink_Cons cap_Cons shrink_rows.simps(1) cap_rows.simps(1)

lemma shrink_views:
  "list_all ok (done @ todo) \<Longrightarrow>
     map view (fst (shrink_rows f over done todo k)) = map view (done @ todo) \<and>
     list_all ok (fst (shrink_rows f over done todo k))"
  by (induction todo arbitrary: "done" k) (simp_all add: steps view_kept ok_kept del: shrink_rows.simps(2))

lemma cap_views:
  "list_all ok (done @ todo) \<Longrightarrow>
     map view (fst (cap_rows f over done todo k)) = map view (done @ todo) \<and>
     list_all ok (fst (cap_rows f over done todo k))"
  by (induction todo arbitrary: "done" k) (simp_all add: steps view_kept ok_kept del: cap_rows.simps(2))

lemma shrink_count:
  "k \<le> snd (shrink_rows f over done todo k) \<and>
   (snd (shrink_rows f over done todo k) = k \<longrightarrow> fst (shrink_rows f over done todo k) = done @ todo)"
proof (induction todo arbitrary: "done" k)
  case Nil
  then show ?case by simp
next
  case (Cons c todo)
  show ?case
    using Cons [of k "done @ [fst (f c)]"] Cons [of "Suc k" "done @ [fst (f c)]"] unchanged [of c]
    by (auto simp add: steps simp del: shrink_rows.simps(2))
qed

lemma cap_count:
  "k \<le> snd (cap_rows f over done todo k) \<and>
   (snd (cap_rows f over done todo k) = k \<longrightarrow> fst (cap_rows f over done todo k) = done @ todo)"
proof (induction todo arbitrary: "done" k)
  case Nil
  then show ?case by simp
next
  case (Cons c todo)
  show ?case
    using Cons [of k "done @ [fst (f c)]"] Cons [of "Suc k" "done @ [fst (f c)]"] unchanged [of c]
    by (auto simp: steps simp del: cap_rows.simps(2))
qed

lemma shrink_exhausts:
  "over (fst (shrink_rows f over done todo k)) \<Longrightarrow>
     fst (shrink_rows f over done todo k) = done @ map (\<lambda>c. fst (f c)) todo"
proof (induction todo arbitrary: "done" k)
  case Nil
  then show ?case by simp
next
  case (Cons c todo)
  then show ?case
    using Cons.IH [of "done @ [fst (f c)]" "if snd (f c) then Suc k else k"]
    by (simp add: steps del: shrink_rows.simps(2) split: if_splits)
qed

lemma cap_exhausts:
  "over (fst (cap_rows f over done todo k)) \<Longrightarrow>
     fst (cap_rows f over done todo k) = done @ map (\<lambda>c. fst (f c)) todo"
proof (induction todo arbitrary: "done" k)
  case Nil
  then show ?case by simp
next
  case (Cons c todo)
  then show ?case
    using Cons.IH [of "done @ [fst (f c)]" "if snd (f c) then Suc k else k"]
    by (simp add: steps del: cap_rows.simps(2) split: if_splits)
qed

lemma shrink_length: "length (fst (shrink_rows f over done todo k)) = length done + length todo"
  by (induction todo arbitrary: "done" k) (simp_all add: steps del: shrink_rows.simps(2))

lemma cap_length: "length (fst (cap_rows f over done todo k)) = length done + length todo"
  by (induction todo arbitrary: "done" k) (simp_all add: steps del: cap_rows.simps(2))

end

text \<open>A rewriting of parts that keeps their skeletons is a rewriting of rows.\<close>

locale part_rewriter =
  fixes g :: "part \<Rightarrow> part \<times> bool"
  assumes part_view: "part_ok p \<Longrightarrow> part_skeleton (fst (g p)) = part_skeleton p"
    and part_ok_kept: "part_ok p \<Longrightarrow> part_ok (fst (g p))"
    and part_unchanged: "\<not> snd (g p) \<Longrightarrow> fst (g p) = p"
begin

lemma rewrite_parts_fst: "fst (rewrite_parts g c) = c\<lparr>msg_parts := map (\<lambda>p. fst (g p)) (msg_parts c)\<rparr>"
proof (cases "list_ex snd (map g (msg_parts c))")
  case True
  then show ?thesis by (simp add: rewrite_parts_def Let_def comp_def)
next
  case False
  then have "map (\<lambda>p. fst (g p)) (msg_parts c) = msg_parts c"
    by (intro map_idI part_unchanged) (auto simp: list_ex_iff)
  with False show ?thesis by (simp add: rewrite_parts_def Let_def)
qed

end

sublocale part_rewriter \<subseteq> rows: row_rewriter "rewrite_parts g" message_ok skeleton
proof
  fix c
  show "message_ok c \<Longrightarrow> skeleton (fst (rewrite_parts g c)) = skeleton c"
    by (simp add: rewrite_parts_fst skeleton_def message_ok_def part_view)
  show "message_ok c \<Longrightarrow> message_ok (fst (rewrite_parts g c))"
    by (simp add: rewrite_parts_fst message_ok_def part_ok_kept)
  show "\<not> snd (rewrite_parts g c) \<Longrightarrow> fst (rewrite_parts g c) = c"
    by (simp add: rewrite_parts_def Let_def split: if_splits)
qed

interpretation hardener: part_rewriter "harden_function_response_part env n"
  for env n
  by unfold_locales
     (auto simp: harden_function_response_part_def part_skeleton_def part_ok_def response_part_def
        Let_def split: option.splits)

interpretation capper: part_rewriter "cap_text_part n"
  for n
  by unfold_locales
     (auto simp: cap_text_part_def part_skeleton_def part_ok_def text_part_def split: option.splits)

lemmas harden_rows = hardener.rows.shrink_views hardener.rows.shrink_count
  hardener.rows.shrink_exhausts hardener.rows.shrink_length
lemmas cap_text_rows = capper.rows.shrink_views capper.rows.shrink_count
  capper.rows.shrink_exhausts capper.rows.shrink_length
lemmas cap_tail_rows = capper.rows.cap_views capper.rows.cap_count
  capper.rows.cap_exhausts capper.rows.cap_length

section \<open>What the ladder guarantees\<close>

lemma filter_tool_skeleton:
  "map skeleton xs = map skeleton ys \<Longrightarrow>
     map skeleton (filter tool_row xs) = map skeleton (filter tool_row ys)"
proof (induction xs arbitrary: ys)
  case (Cons x xs)
  then obtain y ys' where ys: "ys = y # ys'" "skeleton x = skeleton y" "map skeleton xs = map skeleton ys'"
    by (cases ys) auto
  with Cons.IH [of ys'] tool_row_skeleton [of x y] show ?case by simp
qed simp

lemma remove_nth_facts:
  assumes "i < length xs"
  shows "length (take i xs @ drop (Suc i) xs) = length xs - 1"
    and "set (take i xs @ drop (Suc i) xs) \<subseteq> set xs"
    and "\<not> P (xs ! i) \<Longrightarrow> filter P (take i xs @ drop (Suc i) xs) = filter P xs"
proof -
  show "length (take i xs @ drop (Suc i) xs) = length xs - 1" using assms by simp
  show "set (take i xs @ drop (Suc i) xs) \<subseteq> set xs"
    using set_take_subset [of i xs] set_drop_subset [of "Suc i" xs] by auto
  have "filter P xs = filter P (take i xs @ xs ! i # drop (Suc i) xs)"
    by (simp only: id_take_nth_drop [OF assms, symmetric])
  then show "\<not> P (xs ! i) \<Longrightarrow> filter P (take i xs @ drop (Suc i) xs) = filter P xs" by simp
qed

lemma drop_rows_le: "k \<le> snd (drop_rows over working k)"
proof (induction over working k rule: drop_rows.induct)
  case (1 over working k)
  then show ?case
    by (subst drop_rows.simps) (fastforce split: option.split)
qed

lemma drop_rows_facts:
  "filter tool_row (fst (drop_rows over working k)) = filter tool_row working \<and>
   set (fst (drop_rows over working k)) \<subseteq> set working \<and>
   length (fst (drop_rows over working k)) + snd (drop_rows over working k) = length working + k \<and>
   (snd (drop_rows over working k) = k \<longrightarrow> fst (drop_rows over working k) = working) \<and>
   (over (fst (drop_rows over working k)) \<longrightarrow> filter is_droppable_row (fst (drop_rows over working k)) = [])"
proof (induction over working k rule: drop_rows.induct)
  case (1 over working k)
  show ?case
  proof (cases "over working")
    case False
    then show ?thesis by (simp add: drop_rows.simps [of over working k])
  next
    case over: True
    show ?thesis
    proof (cases "find_index is_droppable_row working")
      case None
      with over show ?thesis
        using find_index_None [OF None] by (simp add: drop_rows.simps [of over working k])
    next
      case (Some i)
      let ?next = "take i working @ drop (Suc i) working"
      have i: "i < length working" "\<not> tool_row (working ! i)"
        using find_index_less [OF Some] by (simp_all add: tool_row_def)
      have step: "drop_rows over working k = drop_rows over ?next (Suc k)"
        using over Some by (simp add: drop_rows.simps [of over working k])
      note ih = "1.IH" [OF over Some]
      note r = remove_nth_facts [OF i(1)]
      have "snd (drop_rows over ?next (Suc k)) \<noteq> k"
        using ih r(1) i(1) drop_rows_le [of "Suc k" over ?next] by linarith
      with ih r(1,2) r(3) [of tool_row, OF i(2)] i(1) show ?thesis
        unfolding step by (auto simp del: filter_append)
    qed
  qed
qed

lemma estimate_append:
  "estimate_tokens_for_contents env (xs @ ys) =
     estimate_tokens_for_contents env xs + estimate_tokens_for_contents env ys"
  by (simp add: estimate_tokens_for_contents_def)

text \<open>
  One pass of step (b), with its guard: what it leaves has the skeletons it found, and its
  count says whether it changed a row.
\<close>

lemma guarded_pass:
  assumes "row_rewriter f message_ok skeleton" and "list_all message_ok w"
    and "(w', h') = (if w \<noteq> [] \<and> over w then shrink_rows f over [] w h else (w, h))"
  shows "map skeleton w' = map skeleton w \<and> list_all message_ok w' \<and> h \<le> h' \<and>
         (h' = h \<longrightarrow> w' = w) \<and> (w' = [] \<longleftrightarrow> w = [])"
proof (cases "w \<noteq> [] \<and> over w")
  case True
  then have e: "w' = fst (shrink_rows f over [] w h)" "h' = snd (shrink_rows f over [] w h)"
    using assms(3) by (metis fst_conv, metis snd_conv)
  have "length w' = length w"
    using e row_rewriter.shrink_length [OF assms(1), of over "[]" w h] by simp
  then show ?thesis
    using e row_rewriter.shrink_views [OF assms(1), of "[]" w over h]
      row_rewriter.shrink_count [OF assms(1), of h over "[]" w] assms(2) by auto
next
  case False
  then have "w' = w" "h' = h" using assms(3) by auto
  then show ?thesis using assms(2) by simp
qed

lemma run_ladder_spec:
  assumes run: "run_ladder env target hc nc working protected = (w, p, d, h, folded)"
    and ok: "list_all message_ok working" "list_all message_ok protected"
  shows "\<not> folded \<longrightarrow> map skeleton (filter tool_row w) = map skeleton (filter tool_row working)"
    and "map skeleton p = map skeleton protected"
    and "folded \<longrightarrow> (\<exists>rows. rows \<noteq> [] \<and> w = [build_digest_row rows])"
    and "over_target env target p w \<longrightarrow>
           (folded \<or> w = []) \<and> p = map (\<lambda>c. fst (cap_text_parts nc c)) protected"
    and "d = 0 \<and> h = 0 \<and> \<not> folded \<longrightarrow> w = working \<and> p = protected"
proof -
  let ?over = "over_target env target protected"
  obtain w1 d1 where dr: "drop_rows ?over working 0 = (w1, d1)" by fastforce
  obtain w2 h2 where s2: "(w2, h2) = (if w1 \<noteq> [] \<and> ?over w1
      then shrink_rows (harden_content env hc) ?over [] w1 0 else (w1, 0))"
    by (metis surj_pair)
  obtain w3 h3 where s3: "(w3, h3) = (if w2 \<noteq> [] \<and> ?over w2
      then shrink_rows (cap_text_parts nc) ?over [] w2 h2 else (w2, h2))"
    by (metis surj_pair)
  define w4 where "w4 = (if w3 \<noteq> [] \<and> ?over w3 then [build_digest_row w3] else w3)"
  have rest: "d = d1" "folded = (w3 \<noteq> [] \<and> ?over w3)" "w = w4"
    "(p, h) = (if ?over w4 then cap_rows (cap_text_parts nc) (\<lambda>p. over_target env target p w4) [] protected h3
               else (protected, h3))"
    using run by (auto simp: run_ladder_def Let_def dr s2 [symmetric] s3 [symmetric] w4_def split: prod.splits)
  note drop = drop_rows_facts [of ?over working 0, unfolded dr fst_conv snd_conv]
  have ok1: "list_all message_ok w1" using ok(1) drop by (auto simp: list_all_iff)
  note p2 = guarded_pass [OF hardener.rows.row_rewriter_axioms [of env hc] ok1, of w2 h2 ?over 0,
      folded harden_content_def, OF s2]
  then have ok2: "list_all message_ok w2" by simp
  note p3 = guarded_pass [OF capper.rows.row_rewriter_axioms [of nc] ok2, of w3 h3 ?over h2,
      folded cap_text_parts_def, OF s3]
  have sk: "map skeleton w3 = map skeleton w1" using p2 p3 by simp
  show "\<not> folded \<longrightarrow> map skeleton (filter tool_row w) = map skeleton (filter tool_row working)"
    using rest filter_tool_skeleton [OF sk] drop by (auto simp: w4_def)
  show "folded \<longrightarrow> (\<exists>rows. rows \<noteq> [] \<and> w = [build_digest_row rows])"
    using rest by (auto simp: w4_def)
  have tail: "map skeleton p = map skeleton protected \<and> h3 \<le> h \<and> (h = h3 \<longrightarrow> p = protected) \<and>
      (over_target env target p w4 \<longrightarrow> p = map (\<lambda>c. fst (cap_text_parts nc c)) protected)"
  proof (cases "?over w4")
    case True
    then have e: "p = fst (cap_rows (cap_text_parts nc) (\<lambda>p. over_target env target p w4) [] protected h3)"
      "h = snd (cap_rows (cap_text_parts nc) (\<lambda>p. over_target env target p w4) [] protected h3)"
      using rest(4) by (metis fst_conv, metis snd_conv)
    show ?thesis
      using e ok(2) capper.rows.cap_views [of "[]" protected nc "\<lambda>p. over_target env target p w4" h3]
        capper.rows.cap_count [of h3 nc "\<lambda>p. over_target env target p w4" "[]" protected]
        capper.rows.cap_exhausts [of "\<lambda>p. over_target env target p w4" nc "[]" protected h3]
      by (auto simp: cap_text_parts_def)
  next
    case False
    then show ?thesis using rest(4) by simp
  qed
  then show "map skeleton p = map skeleton protected" by simp
  show "d = 0 \<and> h = 0 \<and> \<not> folded \<longrightarrow> w = working \<and> p = protected"
    using tail rest p2 p3 drop by (auto simp: w4_def)
  have "over_target env target p w4 \<Longrightarrow> ?over w4"
    using rest(4) by (auto split: if_splits)
  then show "over_target env target p w \<longrightarrow>
           (folded \<or> w = []) \<and> p = map (\<lambda>c. fst (cap_text_parts nc c)) protected"
    using tail rest by (auto simp: w4_def split: if_splits)
qed

section \<open>Properties of compact_contents and plan_turn\<close>

text \<open>The history as the ladder finds it: normalized, cut into working rows and tail.\<close>

definition normalized :: "message list \<Rightarrow> message list" where
  "normalized cs = normalize_contents_row_sizes contents_normalize_char_cap cs"

definition working_rows :: "message list \<Rightarrow> message list" where
  "working_rows cs = take (length cs - protected_tail_len cs) cs"

definition tail_rows :: "message list \<Rightarrow> message list" where
  "tail_rows cs = drop (length cs - protected_tail_len cs) cs"

lemma working_tail: "working_rows cs @ tail_rows cs = cs"
  by (simp add: working_rows_def tail_rows_def)

lemma length_tail_rows: "length (tail_rows cs) = min 2 (length cs)"
  by (auto simp: tail_rows_def protected_tail_len_def min_def)

lemma normalized_map: "normalized cs = map (\<lambda>c. fst (cap_text_parts contents_normalize_char_cap c)) cs"
proof -
  have "(let (capped, changed) = cap_text_parts n c in if changed then capped else c) =
      fst (cap_text_parts n c)" for n c
    using capper.rows.unchanged [of n c] by (cases "cap_text_parts n c") (auto simp: cap_text_parts_def)
  then show ?thesis by (simp add: normalized_def normalize_contents_row_sizes_def)
qed

lemma normalized_ok: "list_all message_ok cs \<Longrightarrow> list_all message_ok (normalized cs)"
  by (auto simp: normalized_map list_all_iff cap_text_parts_def capper.rows.ok_kept)

lemma normalized_skeleton: "list_all message_ok cs \<Longrightarrow> map skeleton (normalized cs) = map skeleton cs"
  by (auto simp: normalized_map list_all_iff cap_text_parts_def capper.rows.view_kept)

lemma length_normalized [simp]: "length (normalized cs) = length cs"
  by (simp add: normalized_map)

lemma compact_contents_cases:
  obtains (noop)
      "\<not> over_target env (compaction_target bt tr) (tail_rows (normalized cs)) (working_rows (normalized cs))"
      "compact_contents env cs bt tr ho no =
         \<lparr>res_contents = normalized cs, res_changed = False, res_dropped = 0, res_hardened = 0,
          res_folded = False, res_before_tokens = estimate_tokens_for_contents env (normalized cs),
          res_after_tokens = estimate_tokens_for_contents env (normalized cs)\<rparr>"
  | (ladder) hc nc w p d h fo where
      "over_target env (compaction_target bt tr) (tail_rows (normalized cs)) (working_rows (normalized cs))"
      "nc = (case no of None \<Rightarrow> narration_row_harden_chars | Some n \<Rightarrow> n)"
      "run_ladder env (compaction_target bt tr) hc nc (working_rows (normalized cs))
         (tail_rows (normalized cs)) = (w, p, d, h, fo)"
      "compact_contents env cs bt tr ho no =
         \<lparr>res_contents = w @ p, res_changed = (0 < d \<or> 0 < h \<or> fo), res_dropped = d,
          res_hardened = h, res_folded = fo,
          res_before_tokens = estimate_tokens_for_contents env (normalized cs),
          res_after_tokens = estimate_tokens_for_contents env w + estimate_tokens_for_contents env p\<rparr>"
proof (cases "over_target env (compaction_target bt tr) (tail_rows (normalized cs)) (working_rows (normalized cs))")
  case False
  then show ?thesis
    using working_tail [of "normalized cs"]
    by (intro noop) (simp_all add: compact_contents_def Let_def normalized_def working_rows_def tail_rows_def)
next
  case True
  define hc where "hc = (case ho of None \<Rightarrow> tool_result_harden_chars | Some n \<Rightarrow> n)"
  define nc where "nc = (case no of None \<Rightarrow> narration_row_harden_chars | Some n \<Rightarrow> n)"
  obtain w p d h fo where r: "run_ladder env (compaction_target bt tr) hc nc
      (working_rows (normalized cs)) (tail_rows (normalized cs)) = (w, p, d, h, fo)"
    by (metis surj_pair)
  show ?thesis
  proof (rule ladder [OF True nc_def r])
    show "compact_contents env cs bt tr ho no =
         \<lparr>res_contents = w @ p, res_changed = (0 < d \<or> 0 < h \<or> fo), res_dropped = d,
          res_hardened = h, res_folded = fo,
          res_before_tokens = estimate_tokens_for_contents env (normalized cs),
          res_after_tokens = estimate_tokens_for_contents env w + estimate_tokens_for_contents env p\<rparr>"
      using True r [unfolded hc_def nc_def]
      by (simp add: compact_contents_def Let_def normalized_def working_rows_def tail_rows_def)
  qed
qed

lemma rows_ok:
  assumes "list_all message_ok cs"
  shows "list_all message_ok (working_rows (normalized cs))" "list_all message_ok (tail_rows (normalized cs))"
  using normalized_ok [OF assms] working_tail [of "normalized cs"]
  by (metis list_all_append)+

text \<open>
  Every response follows a call with its id: what the provider wire formats require of a
  history. It is read off the skeletons of the tool rows.
\<close>

fun responses_paired :: "string option list \<Rightarrow> message list \<Rightarrow> bool" where
  "responses_paired seen [] = True"
| "responses_paired seen (m # ms) =
     (list_all (\<lambda>p. case part_response p of None \<Rightarrow> True | Some r \<Rightarrow> List.member seen (resp_id r)) (msg_parts m) \<and>
      responses_paired (seen @ map call_id (List.map_filter part_call (msg_parts m))) ms)"

lemma responses_paired_tool_rows:
  "responses_paired seen cs = responses_paired seen (filter tool_row cs)"
proof (induction cs arbitrary: seen)
  case (Cons m ms)
  show ?case
  proof (cases "tool_row m")
    case False
    then have "list_all (\<lambda>p. part_call p = None \<and> part_response p = None) (msg_parts m)"
      by (simp add: tool_row_def is_droppable_row_def)
    moreover from this have "List.map_filter part_call (msg_parts m) = []"
      by (induction "msg_parts m") (simp_all add: List.map_filter_def list_all_iff)
    ultimately show ?thesis using False Cons by (auto simp: list_all_iff)
  qed (simp add: Cons)
qed simp

lemma part_skeleton_call: "part_skeleton p = part_skeleton q \<Longrightarrow> part_call p = part_call q"
  by (simp add: part_skeleton_def)

lemma part_skeleton_response:
  "part_skeleton p = part_skeleton q \<Longrightarrow>
     (case part_response p of None \<Rightarrow> True | Some r \<Rightarrow> List.member seen (resp_id r)) =
     (case part_response q of None \<Rightarrow> True | Some r \<Rightarrow> List.member seen (resp_id r))"
  by (cases "part_response p"; cases "part_response q"; simp add: part_skeleton_def)

lemma map_filter_skeleton:
  "map part_skeleton ps = map part_skeleton qs \<Longrightarrow>
     List.map_filter part_call ps = List.map_filter part_call qs \<and>
     list_all (\<lambda>p. case part_response p of None \<Rightarrow> True | Some r \<Rightarrow> List.member seen (resp_id r)) ps =
     list_all (\<lambda>p. case part_response p of None \<Rightarrow> True | Some r \<Rightarrow> List.member seen (resp_id r)) qs"
proof (induction ps arbitrary: qs)
  case (Cons p ps)
  then obtain q qs' where qs: "qs = q # qs'" and pq: "part_skeleton p = part_skeleton q"
    and rest: "map part_skeleton ps = map part_skeleton qs'" by (cases qs) auto
  show ?case
    using Cons.IH [OF rest] part_skeleton_call [OF pq] part_skeleton_response [OF pq, of seen]
    by (simp only: qs List.map_filter_simps list.pred_inject)
qed simp

lemma responses_paired_skeleton:
  "map skeleton cs = map skeleton ds \<Longrightarrow> responses_paired seen cs = responses_paired seen ds"
proof (induction cs arbitrary: ds seen)
  case (Cons c cs)
  then obtain d ds' where ds: "ds = d # ds'" "skeleton c = skeleton d"
    "map skeleton cs = map skeleton ds'" by (cases ds) auto
  then have "map part_skeleton (msg_parts c) = map part_skeleton (msg_parts d)"
    by (simp add: skeleton_def)
  from map_filter_skeleton [OF this, of seen] Cons.IH [OF ds(3)] ds(1) show ?case by simp
qed simp

lemma filter_working_tail:
  "map skeleton w' = map skeleton (filter tool_row w) \<Longrightarrow> map skeleton p' = map skeleton p \<Longrightarrow>
     map skeleton (w' @ filter tool_row p') = map skeleton (filter tool_row (w @ p))"
  using filter_tool_skeleton [of p' p] by simp

lemma unfolded_tool_rows:
  assumes "list_all message_ok cs" and "\<not> res_folded (compact_contents env cs bt tr ho no)"
  shows "map skeleton (filter tool_row (res_contents (compact_contents env cs bt tr ho no))) =
           map skeleton (filter tool_row cs)"
proof -
  let ?R = "res_contents (compact_contents env cs bt tr ho no)"
  have "map skeleton (filter tool_row ?R) = map skeleton (filter tool_row (normalized cs))"
  proof (cases rule: compact_contents_cases [of env bt tr cs ho no])
    case noop
    then show ?thesis by simp
  next
    case (ladder hc nc w p d h fo)
    note spec = run_ladder_spec [OF ladder(3) rows_ok [OF assms(1)]]
    have "map skeleton (filter tool_row w) = map skeleton (filter tool_row (working_rows (normalized cs)))"
      using spec(1) ladder(4) assms(2) by simp
    from filter_working_tail [OF this spec(2)] ladder(4) working_tail [of "normalized cs"]
    show ?thesis by simp
  qed
  then show ?thesis using filter_tool_skeleton [OF normalized_skeleton [OF assms(1)]] by simp
qed

text \<open>
  C4: unless it folds, the ladder keeps every row that carries a call or a response, in
  order, with its role, its calls (arguments and id included) and the name and id of its
  responses. So it leaves no response without its call where there was none before.
\<close>

theorem compaction_keeps_tool_rows:
  assumes "list_all message_ok cs" and "\<not> res_folded (compact_contents env cs bt tr ho no)"
  shows "map skeleton (filter tool_row (res_contents (compact_contents env cs bt tr ho no))) =
           map skeleton (filter tool_row cs) \<and>
         (responses_paired [] (res_contents (compact_contents env cs bt tr ho no)) \<longleftrightarrow>
            responses_paired [] cs)"
  using unfolded_tool_rows [OF assms] responses_paired_skeleton responses_paired_tool_rows by metis

text \<open>A measure of rows for concrete instances: ten characters, whatever the row says.\<close>

definition sample_env :: text_env where
  "sample_env = \<lparr>row_dump = (\<lambda>m. Inl ''0123456789''), num_text = (\<lambda>f. ''0.0'')\<rparr>"

lemma sample_estimate [simp]: "estimate_tokens_for_contents sample_env cs = 3 * int (length cs)"
  by (simp add: estimate_tokens_for_contents_def content_text_repr_def sample_env_def
      estimate_tokens_def sum_list_triv o_def)

lemma compaction_keeps_tool_rows_witness:
  "map skeleton (filter tool_row (res_contents (compact_contents sample_env
      [user_text_message ''a'', call_message ''f'' None None, response_message ''f'' None None]
      100 (3/4) None None))) =
   map skeleton (filter tool_row
      [user_text_message ''a'', call_message ''f'' None None, response_message ''f'' None None])"
proof -
  let ?cs = "[user_text_message ''a'', call_message ''f'' None None, response_message ''f'' None None]"
  have "trunc_rat 75 = 75" by (simp add: trunc_rat_def)
  then have "\<not> over_target sample_env (compaction_target 100 (3/4)) (tail_rows (normalized ?cs))
      (working_rows (normalized ?cs))"
    by (simp add: over_target_def working_rows_def tail_rows_def protected_tail_len_def
        compaction_target_def)
  then have "\<not> res_folded (compact_contents sample_env ?cs 100 (3/4) None None)"
    by (simp add: compact_contents_def Let_def normalized_def working_rows_def tail_rows_def)
  from compaction_keeps_tool_rows [OF _ this] show ?thesis by simp
qed

text \<open>
  whatever the ladder does, the last two rows (the last one, in a one-row history)
  stay last, with their roles, calls and response ids.
\<close>

theorem compaction_keeps_tail:
  assumes "list_all message_ok cs"
  shows "\<exists>front tail. res_contents (compact_contents env cs bt tr ho no) = front @ tail \<and>
           length tail = min 2 (length cs) \<and>
           map skeleton tail = map skeleton (drop (length cs - min 2 (length cs)) cs)"
proof -
  have sk: "map skeleton (tail_rows (normalized cs)) = map skeleton (drop (length cs - min 2 (length cs)) cs)"
    using normalized_skeleton [OF assms]
    by (simp add: tail_rows_def protected_tail_len_def flip: drop_map)
  show ?thesis
  proof (cases rule: compact_contents_cases [of env bt tr cs ho no])
    case noop
    then show ?thesis
      using sk working_tail [of "normalized cs"] length_tail_rows [of "normalized cs"]
      by (intro exI [of _ "working_rows (normalized cs)"] exI [of _ "tail_rows (normalized cs)"]) simp
  next
    case (ladder hc nc w p d h fo)
    note spec = run_ladder_spec(2) [OF ladder(3) rows_ok [OF assms]]
    have "length p = min 2 (length cs)"
      using map_eq_imp_length_eq [OF spec] length_tail_rows [of "normalized cs"] by simp
    with ladder(4) sk spec show ?thesis by (intro exI [of _ w] exI [of _ p]) simp
  qed
qed

theorem compaction_keeps_tail_witness:
  "\<exists>front tail. res_contents (compact_contents sample_env [user_text_message ''a''] 0 (3/4) None None) =
      front @ tail \<and> length tail = 1 \<and> map skeleton tail = map skeleton [user_text_message ''a'']"
  using compaction_keeps_tail [of "[user_text_message ''a'']" sample_env 0 "3/4" None None] by simp

text \<open>Every text of a row is at most so long.\<close>

definition texts_within :: "nat \<Rightarrow> message \<Rightarrow> bool" where
  "texts_within n c \<longleftrightarrow>
     list_all (\<lambda>p. case part_text p of None \<Rightarrow> True | Some t \<Rightarrow> length t \<le> n) (msg_parts c)"

lemma cap_texts_within: "texts_within (n + length truncation_mark) (fst (cap_text_parts n c))"
  by (auto simp: cap_text_parts_def capper.rewrite_parts_fst texts_within_def list_all_iff
      cap_text_part_def text_part_def split: option.splits)

lemma over_target_estimate:
  "over_target env target p w \<longleftrightarrow> target < estimate_tokens_for_contents env (w @ p)"
  by (simp add: over_target_def estimate_append)

text \<open>
  The ladder left nothing to shrink of the rows it was given: at most the digest row before
  the tail, and the texts of the tail cut to the narration cap (and its mark).
\<close>

definition exhausted :: "nat \<Rightarrow> message list \<Rightarrow> message list \<Rightarrow> bool" where
  "exhausted nc cs rows \<longleftrightarrow>
     (\<exists>front tail. rows = front @ tail \<and> length tail = min 2 (length cs) \<and>
        (front = [] \<or> (\<exists>d. front = [build_digest_row d])) \<and>
        list_all (texts_within (nc + length truncation_mark)) tail)"

lemma compact_target_or_exhausted:
  assumes "list_all message_ok cs"
  shows "res_after_tokens (compact_contents env cs bt tr ho no) \<le> compaction_target bt tr \<or>
         exhausted (case no of None \<Rightarrow> narration_row_harden_chars | Some n \<Rightarrow> n) cs
           (res_contents (compact_contents env cs bt tr ho no))"
proof (cases rule: compact_contents_cases [of env bt tr cs ho no])
  case noop
  then show ?thesis using working_tail [of "normalized cs"] by (simp add: over_target_estimate)
next
  case (ladder hc nc w p d h fo)
  note spec = run_ladder_spec [OF ladder(3) rows_ok [OF assms]]
  show ?thesis
  proof (cases "over_target env (compaction_target bt tr) p w")
    case False
    then show ?thesis using ladder(4) by (simp add: over_target_def)
  next
    case True
    with spec(3,4) have "w = [] \<or> (\<exists>d. w = [build_digest_row d])"
      "p = map (\<lambda>c. fst (cap_text_parts nc c)) (tail_rows (normalized cs))" by auto
    then have "exhausted nc cs (w @ p)"
      using length_tail_rows [of "normalized cs"] unfolding exhausted_def
      by (intro exI [of _ w] exI [of _ p]) (simp add: list_all_iff cap_texts_within)
    then show ?thesis using ladder(2,4) by simp
  qed
qed

lemma compact_unchanged:
  assumes "list_all message_ok cs" "\<not> res_changed (compact_contents env cs bt tr ho no)"
  shows "res_contents (compact_contents env cs bt tr ho no) = normalized cs"
proof (cases rule: compact_contents_cases [of env bt tr cs ho no])
  case (ladder hc nc w p d h fo)
  then show ?thesis
    using run_ladder_spec(5) [OF ladder(3) rows_ok [OF assms(1)]] assms(2) working_tail [of "normalized cs"]
    by simp
qed simp

lemma compact_counts:
  "res_after_tokens (compact_contents env cs bt tr ho no) =
     estimate_tokens_for_contents env (res_contents (compact_contents env cs bt tr ho no))"
  "res_before_tokens (compact_contents env cs bt tr ho no) = estimate_tokens_for_contents env (normalized cs)"
  "res_changed (compact_contents env cs bt tr ho no) \<longleftrightarrow>
     0 < res_dropped (compact_contents env cs bt tr ho no) \<or>
     0 < res_hardened (compact_contents env cs bt tr ho no) \<or>
     res_folded (compact_contents env cs bt tr ho no)"
  by (cases rule: compact_contents_cases [of env bt tr cs ho no]; simp add: estimate_append)+

text \<open>
  C5: the ladder ends at or under its target, or with nothing left to shrink: at most one
  digest row before the tail, and every text of the tail cut to the narration cap (and its
  mark). The tokens it reports are those of the rows it returns, and it reports a change
  exactly when it dropped, shortened or folded something; reporting none, it returns the
  normalized rows.
\<close>

theorem compaction_meets_target_or_exhausts:
  assumes "list_all message_ok cs"
  shows "let r = compact_contents env cs bt tr ho (Some nc) in
         (res_after_tokens r \<le> compaction_target bt tr \<or> exhausted nc cs (res_contents r)) \<and>
         res_after_tokens r = estimate_tokens_for_contents env (res_contents r) \<and>
         (res_changed r \<longleftrightarrow> 0 < res_dropped r \<or> 0 < res_hardened r \<or> res_folded r) \<and>
         (\<not> res_changed r \<longrightarrow> res_contents r = normalized cs \<and> res_after_tokens r = res_before_tokens r)"
  using compact_target_or_exhausted [OF assms, of env bt tr ho "Some nc"]
    compact_unchanged [OF assms, of env bt tr ho "Some nc"] compact_counts [of env cs bt tr ho "Some nc"]
  by (auto simp: Let_def)

theorem compaction_meets_target_or_exhausts_witness:
  "res_after_tokens (compact_contents sample_env [user_text_message ''a''] 0 (3/4) None (Some 2000)) =
     estimate_tokens_for_contents sample_env
       (res_contents (compact_contents sample_env [user_text_message ''a''] 0 (3/4) None (Some 2000)))"
  using compaction_meets_target_or_exhausts [of "[user_text_message ''a'']" sample_env 0 "3/4" None 2000]
  by (simp add: Let_def)

lemma unchanged_call_row:
  "harden_content env n (call_message name args tid) = (call_message name args tid, False)"
  "cap_text_parts n (call_message name args tid) = (call_message name args tid, False)"
  "cap_text_parts n (response_message name args tid) = (response_message name args tid, False)"
  by (simp_all add: harden_content_def cap_text_parts_def rewrite_parts_def call_message_def
      response_message_def harden_function_response_part_def cap_text_part_def call_part_def
      response_part_def)

lemma tool_rows_stay: "\<not> is_droppable_row (call_message name args tid)"
  by (simp add: is_droppable_row_def call_message_def call_part_def)

lemma cap_user_text: "\<exists>u. fst (cap_text_parts n (user_text_message t)) = user_text_message u"
  by (auto simp: cap_text_parts_def rewrite_parts_def user_text_message_def cap_text_part_def text_part_def)

lemma call_row_ladder:
  assumes over: "over_target env target [response_message rname res tid, u] [call_message name args tid]"
    and u: "u = user_text_message utxt"
  shows "\<exists>v h. run_ladder env target hc nc [call_message name args tid] [response_message rname res tid, u] =
           ([build_digest_row [call_message name args tid]],
            [response_message rname res tid, user_text_message v], 0, h, True)"
proof -
  obtain v where v: "fst (cap_text_parts nc (user_text_message utxt)) = user_text_message v"
    using cap_user_text by blast
  have dr: "drop_rows o' [call_message name args tid] 0 = ([call_message name args tid], 0)" for o'
    by (subst drop_rows.simps) (simp add: tool_rows_stay)
  show ?thesis
    using over v
    by (cases "cap_text_parts nc (user_text_message utxt)")
       (auto simp: run_ladder_def dr unchanged_call_row u Let_def)
qed

text \<open>
  folding can break the pairing the rows had: in a history that ends with a tool call,
  its response and a user message the call is a working row and the response a protected
  one, so over the target the call is folded into the digest and its response stays.
\<close>

theorem fold_orphans_response:
  assumes "compaction_target bt tr <
      estimate_tokens_for_contents env
        (normalized [call_message name args tid, response_message name res tid, user_text_message utxt])"
  shows "responses_paired [] [call_message name args tid, response_message name res tid, user_text_message utxt] \<and>
         \<not> responses_paired [] (res_contents (compact_contents env
             [call_message name args tid, response_message name res tid, user_text_message utxt] bt tr ho no))"
proof -
  obtain t where n: "normalized [call_message name args tid, response_message name res tid, user_text_message utxt] =
      [call_message name args tid, response_message name res tid, user_text_message t]"
    using cap_user_text [of contents_normalize_char_cap utxt] by (auto simp: normalized_map unchanged_call_row)
  let ?cs = "[call_message name args tid, response_message name res tid, user_text_message utxt]"
  have rows: "working_rows (normalized ?cs) = [call_message name args tid]"
    "tail_rows (normalized ?cs) = [response_message name res tid, user_text_message t]"
    by (simp_all add: n working_rows_def tail_rows_def protected_tail_len_def)
  have over: "over_target env (compaction_target bt tr) (tail_rows (normalized ?cs)) (working_rows (normalized ?cs))"
    using assms by (simp add: over_target_estimate working_tail)
  have "\<exists>d v. res_contents (compact_contents env ?cs bt tr ho no) =
      [build_digest_row d, response_message name res tid, user_text_message v]"
  proof (cases rule: compact_contents_cases [of env bt tr ?cs ho no])
    case noop
    then show ?thesis using over by simp
  next
    case (ladder hc nc w p d h fo)
    from call_row_ladder [OF over [unfolded rows] refl, where hc = hc and nc = nc] ladder(3,4)
    show ?thesis by (auto simp: rows)
  qed
  then show ?thesis
    by (auto simp: build_digest_row_def Let_def user_text_message_def call_message_def
        response_message_def text_part_def call_part_def response_part_def List.map_filter_def)
qed

theorem fold_orphans_response_witness:
  "\<not> responses_paired [] (res_contents (compact_contents sample_env
      [call_message ''f'' None (Some ''t1''), response_message ''f'' None (Some ''t1''), user_text_message ''go'']
      4 (3/4) None None))"
  using fold_orphans_response [of 4 "3/4" sample_env "''f''" None "Some ''t1''" None "''go''" None None]
  by (simp add: compaction_target_def trunc_rat_def)

section \<open>Properties of plan_turn\<close>



text \<open>
  a reactive round, which follows a prompt the provider rejected as too long, resends
  the same rows (and reports them as compacted) when they are under the floor of the
  target: clamping the budget to the rows just sent does not make the retry smaller.
\<close>

theorem reactive_plan_can_resend:
  assumes "list_all message_ok cs" "normalized cs = cs" "estimate_tokens_for_contents env cs \<le> 153"
  shows "tp_contents (plan_turn env cs win tools sys wire None None Reactive) = cs \<and>
         tp_compacted (plan_turn env cs win tools sys wire None None Reactive) \<and>
         tp_before_tokens (plan_turn env cs win tools sys wire None None Reactive) =
         tp_after_tokens (plan_turn env cs win tools sys wire None None Reactive)"
proof -
  define b where "b = max (min (max (max (win_tokens win - reserve_output_tokens - safety_tokens_default) 256
      - tools - sys) 256) (estimate_tokens_for_contents env cs)) 256"
  have "b = 256" using assms(3) by (simp add: b_def)
  then have t: "compaction_target b reactive_target_ratio = 153"
    by (simp add: compaction_target_def reactive_target_ratio_def trunc_rat_def floor_eq_iff)
  show ?thesis
  proof (cases rule: compact_contents_cases [of env b reactive_target_ratio cs None None])
    case noop
    then show ?thesis using assms(2) by (simp add: plan_turn_def Let_def b_def)
  next
    case (ladder hc nc w p d h fo)
    then show ?thesis
      using assms(2,3) working_tail [of cs] by (simp add: t over_target_estimate)
  qed
qed

theorem reactive_plan_can_resend_witness:
  "tp_contents (plan_turn sample_env [user_text_message ''a'']
      \<lparr>win_tokens = 512, win_source = ConservativeDefault, win_provider = ''ollama'', win_model = ''m''\<rparr>
      4000 0 None None None Reactive) = [user_text_message ''a'']"
proof -
  have "normalized [user_text_message ''a''] = [user_text_message ''a'']"
    by (simp add: normalized_map cap_text_parts_def rewrite_parts_def user_text_message_def
        cap_text_part_def text_part_def contents_normalize_char_cap_def)
  with reactive_plan_can_resend [of "[user_text_message ''a'']" sample_env
      "\<lparr>win_tokens = 512, win_source = ConservativeDefault, win_provider = ''ollama'', win_model = ''m''\<rparr>"
      4000 0 None]
  show ?thesis by simp
qed

end
