(* ===== verification/ContextWindow.thy ===== *)
theory ContextWindow
  imports Compaction PyNumbers
begin

text \<open>
  The discovery of a model's context window, of trid3nt_server/model/guards/context_budget.py,
  with the resolvers of trid3nt_server/model/adapters/model_discovery.py it asks. What a
  provider answers over the network is a parameter; log lines are left out.
\<close>

section \<open>The environment and the window parsers\<close>

definition num_ctx_fallback_default :: int where
  "num_ctx_fallback_default = 16384"

type_synonym environ = "(string, string) dict"

definition env_int :: "environ \<Rightarrow> string \<Rightarrow> int \<Rightarrow> int \<Rightarrow> int" where
  "env_int env name dflt least =
     (case dget env name of
        None \<Rightarrow> dflt
      | Some raw \<Rightarrow>
          (case int_of_text raw of
             None \<Rightarrow> dflt
           | Some val \<Rightarrow> if least \<le> val then val else dflt))"

definition num_ctx_env_fallback :: "environ \<Rightarrow> int" where
  "num_ctx_env_fallback env = env_int env ''TRID3NT_OPENAI_NUM_CTX'' num_ctx_fallback_default 512"

text \<open>\<open>os.environ.get(name, "").strip()\<close>.\<close>

definition env_stripped :: "environ \<Rightarrow> string \<Rightarrow> string" where
  "env_stripped env name = py_strip (dget_or env name [])"

text \<open>\<open>-(\d+)k$\<close>, case ignored, on a stripped name.\<close>

definition suffix_digits :: "string \<Rightarrow> string option" where
  "suffix_digits name =
     (case rev name of
        [] \<Rightarrow> None
      | c # body \<Rightarrow>
          (let ds = takeWhile is_digit body; rest = dropWhile is_digit body in
           if lower_char c = CHR ''k'' \<and> ds \<noteq> [] \<and> rest \<noteq> [] \<and> hd rest = CHR ''-'' then Some (rev ds) else None))"

definition num_ctx_from_suffix :: "string option \<Rightarrow> int option" where
  "num_ctx_from_suffix model_name =
     (if \<not> some_text model_name then None
      else (case Option.bind (suffix_digits (py_strip (the model_name))) int_of_digits of
              None \<Rightarrow> None
            | Some k \<Rightarrow> if 0 < k then Some (k * 1024) else None))"

text \<open>
  \<open>^\s*num_ctx\s+(\d+)\s*$\<close>, case ignored, \<open>^\<close> and \<open>$\<close> at every line: tried at the start of
  every line in turn. After the digits, white space up to the end or to a line end.
\<close>

definition num_ctx_at :: "string \<Rightarrow> string option" where
  "num_ctx_at s =
     (let t = dropWhile is_space s; u = drop 7 t; v = dropWhile is_space u;
          ds = takeWhile is_digit v; rest = dropWhile is_digit v
      in if py_lower (take 7 t) = ''num_ctx'' \<and> u \<noteq> v \<and> ds \<noteq> [] \<and>
            (dropWhile is_space rest = [] \<or> newline \<in> set (takeWhile is_space rest))
         then Some ds else None)"

fun line_starts :: "string \<Rightarrow> string list" where
  "line_starts [] = []"
| "line_starts (c # s) = (if c = newline then s # line_starts s else line_starts s)"

definition parse_num_ctx_from_show_response :: "pyval \<Rightarrow> int option" where
  "parse_num_ctx_from_show_response payload =
     (case payload of
        PDict d \<Rightarrow>
          (case pget d ''parameters'' of
             PStr params_text \<Rightarrow>
               (if py_strip params_text = [] then None
                else (case Option.bind (first_some (map num_ctx_at (params_text # line_starts params_text))) int_of_digits of
                        None \<Rightarrow> None
                      | Some val \<Rightarrow> if 0 < val then Some val else None))
           | _ \<Rightarrow> None)
      | _ \<Rightarrow> None)"

section \<open>Hosts and providers\<close>

text \<open>
  \<open>urlsplit\<close>: the network location is the text after \<open>//\<close>, which follows the scheme where
  there is one, up to the path, the query or the fragment. One bracket without the other is a
  \<open>ValueError\<close>; paired brackets are taken to enclose an address Python accepts.
\<close>

definition url_clean :: "string \<Rightarrow> string" where
  "url_clean url =
     filter (\<lambda>c. char_code c \<notin> {9, 10, 13}) (dropWhile (\<lambda>c. char_code c \<le> 32) url)"

definition after_scheme :: "string \<Rightarrow> string" where
  "after_scheme url =
     (let scheme = takeWhile (\<lambda>c. c \<noteq> CHR '':'') url; rest = dropWhile (\<lambda>c. c \<noteq> CHR '':'') url in
      if rest \<noteq> [] \<and> scheme \<noteq> [] \<and> is_letter (hd scheme) \<and>
         list_all (\<lambda>c. is_letter c \<or> is_digit c \<or> c \<in> {CHR ''+'', CHR ''-'', CHR ''.''}) scheme
      then tl rest else url)"

definition url_netloc :: "string \<Rightarrow> string" where
  "url_netloc url =
     (let u = after_scheme (url_clean url) in
      if starts_with ''//'' u
      then takeWhile (\<lambda>c. c \<notin> {CHR ''/'', CHR ''?'', CHR ''#''}) (drop 2 u) else [])"

definition url_hostinfo :: "string \<Rightarrow> string" where
  "url_hostinfo url = after_last CHR ''@'' (url_netloc url)"

definition url_split_raises :: "string \<Rightarrow> bool" where
  "url_split_raises url \<longleftrightarrow> (CHR ''['' \<in> set (url_netloc url)) \<noteq> (CHR '']'' \<in> set (url_netloc url))"

definition url_host_port :: "string \<Rightarrow> string \<times> string" where
  "url_host_port url =
     (let h = url_hostinfo url;
          bracketed = drop 1 (dropWhile (\<lambda>c. c \<noteq> CHR ''['') h);
          after = drop 1 (dropWhile (\<lambda>c. c \<noteq> CHR '']'') bracketed)
      in if CHR ''['' \<in> set h
         then (takeWhile (\<lambda>c. c \<noteq> CHR '']'') bracketed, drop 1 (dropWhile (\<lambda>c. c \<noteq> CHR '':'') after))
         else (takeWhile (\<lambda>c. c \<noteq> CHR '':'') h, drop 1 (dropWhile (\<lambda>c. c \<noteq> CHR '':'') h)))"

text \<open>The host of a URL that splits.\<close>

definition base_url_host :: "string \<Rightarrow> string" where
  "base_url_host url = py_lower (fst (url_host_port url))"

text \<open>\<open>.port\<close>: \<open>Inl ()\<close> where it raises, \<open>Inr None\<close> where there is none.\<close>

definition url_port :: "string \<Rightarrow> unit + nat option" where
  "url_port url =
     (let port = snd (url_host_port url) in
      if port = [] then Inr None
      else if \<not> list_all is_digit port \<or> 4300 < length port \<or> 65535 < digits_value port then Inl ()
      else Inr (Some (digits_value port)))"

definition ends_with :: "string \<Rightarrow> string \<Rightarrow> bool" where
  "ends_with suffix s \<longleftrightarrow> starts_with (rev suffix) (rev s)"

definition is_openrouter_base_url :: "string option \<Rightarrow> bool" where
  "is_openrouter_base_url base_url \<longleftrightarrow>
     some_text base_url \<and> ends_with ''openrouter.ai'' (base_url_host (the base_url))"

definition rstrip_slash :: "string \<Rightarrow> string" where
  "rstrip_slash s = rev (dropWhile (\<lambda>c. c = CHR ''/'') (rev s))"

definition ollama_root :: "string option \<Rightarrow> string" where
  "ollama_root base_url =
     (let root = rstrip_slash (text_or base_url []) in
      if ends_with ''/v1'' (py_lower root) then take (length root - 3) root else root)"

text \<open>A context length field counts where it is a positive integer; \<open>bool\<close> is not one.\<close>

definition positive_int :: "pyval \<Rightarrow> int option" where
  "positive_int v = (case v of PInt n \<Rightarrow> if 0 < n then Some n else None | _ \<Rightarrow> None)"

definition row_context_length :: "(string, pyval) dict \<Rightarrow> int option" where
  "row_context_length row =
     (case (positive_int (pget row ''context_length''),
            (case pget row ''top_provider'' of PDict tp \<Rightarrow> positive_int (pget tp ''context_length'') | _ \<Rightarrow> None)) of
        (Some a, Some b) \<Rightarrow> Some (min a b)
      | (Some a, None) \<Rightarrow> Some a
      | (None, b) \<Rightarrow> b)"

fun find_model_row :: "pyval list \<Rightarrow> string \<Rightarrow> (string, pyval) dict option" where
  "find_model_row [] model_name = None"
| "find_model_row (PDict row # rows) model_name =
     (if pget row ''id'' = PStr model_name then Some row else find_model_row rows model_name)"
| "find_model_row (r # rows) model_name = find_model_row rows model_name"

definition data_rows :: "pyval \<Rightarrow> pyval list" where
  "data_rows raw =
     (case raw of PDict d \<Rightarrow> (case pget d ''data'' of PList rows \<Rightarrow> rows | _ \<Rightarrow> []) | _ \<Rightarrow> [])"

definition parse_openrouter_context_length :: "pyval \<Rightarrow> string \<Rightarrow> int option" where
  "parse_openrouter_context_length raw model_name =
     Option.bind (find_model_row (data_rows raw) model_name) row_context_length"

text \<open>
  A model object of the Anthropic client, by the attribute it has (\<open>PNone\<close> where it has none)
  and its entries where it is a dictionary.
\<close>

definition parse_anthropic_max_input_tokens :: "pyval \<times> pyval \<Rightarrow> int option" where
  "parse_anthropic_max_input_tokens model_obj =
     (case model_obj of
        (PNone, PDict d) \<Rightarrow> positive_int (pget d ''max_input_tokens'')
      | (attr, obj) \<Rightarrow> positive_int attr)"
section \<open>Discovery\<close>

record provider_answers =
  pa_show :: "string \<Rightarrow> string \<Rightarrow> pyval option"
  pa_models :: "string \<Rightarrow> pyval option"
  pa_anthropic :: "string \<Rightarrow> (pyval \<times> pyval) option"

text \<open>
  \<open>openrouter_context_length\<close> and \<open>anthropic_max_input_tokens\<close>: no answer is \<open>None\<close>.
\<close>

definition openrouter_context_length :: "provider_answers \<Rightarrow> string \<Rightarrow> string \<Rightarrow> int option" where
  "openrouter_context_length ans base_url model_name =
     Option.bind (pa_models ans (rstrip_slash base_url @ ''/models''))
       (\<lambda>payload. parse_openrouter_context_length payload model_name)"

definition anthropic_max_input_tokens :: "provider_answers \<Rightarrow> string \<Rightarrow> int option" where
  "anthropic_max_input_tokens ans model_id =
     Option.bind (pa_anthropic ans model_id) parse_anthropic_max_input_tokens"

definition sourced :: "window_source \<Rightarrow> int option \<Rightarrow> (int \<times> window_source) option" where
  "sourced src tokens = map_option (\<lambda>n. (n, src)) tokens"

text \<open>
  A base URL that does not split raises in \<open>is_openrouter_base_url\<close>, which the caller takes
  for no answer.
\<close>

definition resolve_window_tokens ::
  "environ \<Rightarrow> provider_answers \<Rightarrow> string \<Rightarrow> string \<Rightarrow> string option \<Rightarrow> (int \<times> window_source) option" where
  "resolve_window_tokens env ans provider model_name base_url =
     (if provider = ''openai'' \<and> some_text base_url \<and> url_split_raises (the base_url) then None
      else if provider = ''openai''
      then first_some
        [(if is_openrouter_base_url base_url
          then sourced OpenrouterModels
                 (openrouter_context_length ans (rstrip_slash (text_or base_url [])) model_name)
          else (let root = ollama_root base_url in
                if root = [] then None
                else sourced OllamaShow
                       (Option.bind (pa_show ans root model_name) parse_num_ctx_from_show_response))),
         sourced NameSuffix (num_ctx_from_suffix (Some model_name)),
         (if env_stripped env ''TRID3NT_OPENAI_NUM_CTX'' \<noteq> []
          then Some (num_ctx_env_fallback env, EnvPin) else None)]
      else if provider = ''anthropic''
      then sourced AnthropicModels (anthropic_max_input_tokens ans model_name)
      else None)"

definition context_window_env_override :: "environ \<Rightarrow> int option" where
  "context_window_env_override env =
     (let raw = env_stripped env ''TRID3NT_CONTEXT_WINDOW'' in
      if raw = [] then None
      else (case int_of_text raw of None \<Rightarrow> None | Some value \<Rightarrow> if 0 < value then Some value else None))"

definition window_discovered :: "context_window \<Rightarrow> bool" where
  "window_discovered w \<longleftrightarrow>
     win_source w \<in> {OllamaShow, OpenrouterModels, AnthropicModels, NameSuffix, EnvPin}"

text \<open>\<open>quote\<close> is \<open>repr\<close> of a string.\<close>

definition window_narration :: "(string \<Rightarrow> string) \<Rightarrow> context_window \<Rightarrow> string option" where
  "window_narration quote w =
     (if window_discovered w then None
      else Some (''Could not determine the context window for '' @ quote (win_model w) @ '' from '' @
                 win_provider w @ ''; assuming a conservative '' @ show_int (win_tokens w) @
                 '' tokens. Set TRID3NT_CONTEXT_WINDOW to pin the real value.''))"

type_synonym window_cache = "(string \<times> string, context_window) dict"

definition discover_context_window ::
  "environ \<Rightarrow> provider_answers \<Rightarrow> string \<Rightarrow> string \<Rightarrow> string option \<Rightarrow> window_cache \<Rightarrow> context_window \<times> window_cache" where
  "discover_context_window env ans provider model_name base_url cache =
     (case dget cache (provider, model_name) of
        Some window \<Rightarrow> (window, cache)
      | None \<Rightarrow>
          (let (tokens, src) =
                 (case resolve_window_tokens env ans provider model_name base_url of
                    Some r \<Rightarrow> r
                  | None \<Rightarrow> (case context_window_env_override env of
                               Some override \<Rightarrow> (override, EnvPin)
                             | None \<Rightarrow> (num_ctx_fallback_default, ConservativeDefault)));
               window = \<lparr>win_tokens = tokens, win_source = src, win_provider = provider, win_model = model_name\<rparr>
           in (window, dput (provider, model_name) window cache)))"

definition discover_num_ctx ::
  "environ \<Rightarrow> provider_answers \<Rightarrow> string option \<Rightarrow> string \<Rightarrow> window_cache \<Rightarrow> int \<times> window_cache" where
  "discover_num_ctx env ans base_url model_name cache =
     (let (window, cache') = discover_context_window env ans ''openai'' model_name base_url cache
      in (win_tokens window, cache'))"

definition reset_num_ctx_cache :: "window_cache \<Rightarrow> window_cache" where
  "reset_num_ctx_cache cache = []"

section \<open>What a discovered window says\<close>

text \<open>A window is sound: it has room, and it is a default exactly where no source gave one.\<close>

definition window_sound :: "context_window \<Rightarrow> bool" where
  "window_sound w \<longleftrightarrow> 0 < win_tokens w \<and> (\<not> window_discovered w \<longrightarrow> win_tokens w = num_ctx_fallback_default)"

definition cache_sound :: "window_cache \<Rightarrow> bool" where
  "cache_sound cache \<longleftrightarrow>
     (\<forall>k w. dget cache k = Some w \<longrightarrow> window_sound w \<and> (win_provider w, win_model w) = k)"

lemma positive_int_pos: "positive_int v = Some n \<Longrightarrow> 0 < n"
  by (auto simp: positive_int_def split: pyval.splits if_splits)

lemma context_length_pos: "row_context_length row = Some n \<Longrightarrow> 0 < n"
  by (auto simp: row_context_length_def dest: positive_int_pos split: option.splits pyval.splits)

lemma show_response_pos: "parse_num_ctx_from_show_response p = Some n \<Longrightarrow> 0 < n"
  by (auto simp: parse_num_ctx_from_show_response_def split: pyval.splits if_splits option.splits)

lemma suffix_pos: "num_ctx_from_suffix m = Some n \<Longrightarrow> 0 < n"
  by (auto simp: num_ctx_from_suffix_def split: option.splits if_splits)

lemma fallback_pos: "0 < num_ctx_env_fallback env"
  by (auto simp: num_ctx_env_fallback_def env_int_def num_ctx_fallback_default_def split: option.splits)

lemma anthropic_pos: "parse_anthropic_max_input_tokens obj = Some n \<Longrightarrow> 0 < n"
  by (auto simp: parse_anthropic_max_input_tokens_def dest: positive_int_pos split: prod.splits pyval.splits)

lemma resolved_pos:
  assumes "resolve_window_tokens env ans provider m b = Some (n, src)"
  shows "0 < n \<and> src \<noteq> ConservativeDefault"
  using assms
  by (auto simp: resolve_window_tokens_def sourced_def Let_def fallback_pos openrouter_context_length_def
      parse_openrouter_context_length_def anthropic_max_input_tokens_def
      dest: context_length_pos show_response_pos suffix_pos anthropic_pos
      split: if_splits option.splits bind_splits)

lemma override_pos: "context_window_env_override env = Some n \<Longrightarrow> 0 < n"
  by (auto simp: context_window_env_override_def Let_def split: if_splits option.splits)

lemma window_discovered_iff: "window_discovered w \<longleftrightarrow> win_source w \<noteq> ConservativeDefault"
  by (cases "win_source w") (simp_all add: window_discovered_def)

lemma discover_sound:
  assumes "cache_sound cache" and "discover_context_window env ans provider m b cache = (w, cache')"
  shows "window_sound w \<and> win_provider w = provider \<and> win_model w = m \<and> cache_sound cache' \<and>
    dget cache' (provider, m) = Some w"
proof (cases "dget cache (provider, m)")
  case None
  have "window_sound w \<and> win_provider w = provider \<and> win_model w = m"
    using assms(2) None
    by (auto simp: discover_context_window_def Let_def window_sound_def window_discovered_iff
        num_ctx_fallback_default_def dest: resolved_pos override_pos split: option.splits prod.splits)
  moreover have "cache' = dput (provider, m) w cache"
    using assms(2) None by (auto simp: discover_context_window_def Let_def split: option.splits prod.splits)
  ultimately show ?thesis using assms(1) by (auto simp: cache_sound_def)
next
  case (Some v)
  with assms show ?thesis by (auto simp: discover_context_window_def cache_sound_def)
qed

datatype window_op =
    OpDiscover environ provider_answers string string "string option"
  | OpResetCache

fun window_step :: "window_op \<Rightarrow> window_cache \<Rightarrow> window_cache" where
  "window_step (OpDiscover env ans provider m b) cache = snd (discover_context_window env ans provider m b cache)"
| "window_step OpResetCache cache = reset_num_ctx_cache cache"

interpretation window_runs: kept_invariant "\<lambda>cache. cache = []" window_step cache_sound
proof unfold_locales
  show "\<And>s. s = [] \<Longrightarrow> cache_sound s" by (simp add: cache_sound_def)
  fix s x assume s: "cache_sound s"
  show "cache_sound (window_step x s)"
  proof (cases x)
    case (OpDiscover env ans provider m b)
    then show ?thesis
      using discover_sound [OF s, of env ans provider m b] by (cases "discover_context_window env ans provider m b s") simp
  next
    case OpResetCache
    then show ?thesis by (simp add: reset_num_ctx_cache_def cache_sound_def)
  qed
qed


text \<open>
  an OpenAI pin that is no number hides the pin of the whole deployment: the window is the
  built-in fallback, reported as the operator's own figure and not narrated.
\<close>

theorem unreadable_pin_hides_window_pin:
  assumes "dget env ''TRID3NT_OPENAI_NUM_CTX'' = Some raw" and "py_strip raw \<noteq> []" and "int_of_text raw = None"
    and "resolve_window_tokens (dpop ''TRID3NT_OPENAI_NUM_CTX'' env) ans ''openai'' m b = None"
    and "context_window_env_override env = Some n" and "\<not> (some_text b \<and> url_split_raises (the b))"
  shows "fst (discover_context_window env ans ''openai'' m b []) =
      \<lparr>win_tokens = 16384, win_source = EnvPin, win_provider = ''openai'', win_model = m\<rparr> \<and>
    fst (discover_context_window (dpop ''TRID3NT_OPENAI_NUM_CTX'' env) ans ''openai'' m b []) =
      \<lparr>win_tokens = n, win_source = EnvPin, win_provider = ''openai'', win_model = m\<rparr>"
proof -
  have "num_ctx_env_fallback env = 16384"
    using assms by (simp add: num_ctx_env_fallback_def env_int_def num_ctx_fallback_default_def)
  then have "resolve_window_tokens env ans ''openai'' m b = Some (16384, EnvPin)"
    using assms by (auto simp: resolve_window_tokens_def env_stripped_def dget_or_def Let_def
        split: option.splits if_splits)
  moreover have "context_window_env_override (dpop ''TRID3NT_OPENAI_NUM_CTX'' env) = Some n"
    using assms(5) by (simp add: context_window_env_override_def env_stripped_def)
  ultimately show ?thesis using assms(4) by (simp add: discover_context_window_def Let_def)
qed

definition mute_answers :: provider_answers where
  "mute_answers = \<lparr>pa_show = (\<lambda>r m. None), pa_models = (\<lambda>u. None), pa_anthropic = (\<lambda>m. None)\<rparr>"

theorem unreadable_pin_hides_window_pin_witness:
  "fst (discover_context_window
      [(''TRID3NT_OPENAI_NUM_CTX'', ''16k''), (''TRID3NT_CONTEXT_WINDOW'', ''200000'')]
      mute_answers ''openai'' ''qwen3'' None []) =
    \<lparr>win_tokens = 16384, win_source = EnvPin, win_provider = ''openai'', win_model = ''qwen3''\<rparr>"
proof -
  let ?env = "[(''TRID3NT_OPENAI_NUM_CTX'', ''16k''), (''TRID3NT_CONTEXT_WINDOW'', ''200000'')]"
  have strip: "py_strip ''16k'' = ''16k''" "py_strip ''200000'' = ''200000''" "py_strip ''qwen3'' = ''qwen3''"
    by (simp_all add: py_strip_id is_space_def char_code_def)
  have "int_of_text ''16k'' = None"
    by (simp add: int_of_text_def strip split_sign_def digit_part_def is_digit_def char_code_def)
  moreover have "context_window_env_override ?env = Some 200000"
    by (simp add: context_window_env_override_def env_stripped_def dget_or_def strip int_of_text_def split_sign_def
        digit_part_def is_digit_def char_code_def int_of_digits_def digits_value_def digit_value_def)
  moreover have "resolve_window_tokens (dpop ''TRID3NT_OPENAI_NUM_CTX'' ?env) mute_answers ''openai'' ''qwen3'' None = None"
    by (simp add: resolve_window_tokens_def env_stripped_def dget_or_def is_openrouter_base_url_def mute_answers_def
        sourced_def num_ctx_from_suffix_def strip suffix_digits_def lower_char_def is_digit_def char_code_def Let_def
        py_strip_def)
  ultimately show ?thesis
    using unreadable_pin_hides_window_pin [of ?env "''16k''" mute_answers "''qwen3''" None 200000]
    by (simp add: strip)
qed

end
