(* ===== verification/ReplyGuards.thy ===== *)
theory ReplyGuards
  imports ContextWindow
begin

text \<open>
  The texts and tests around a reply of trid3nt_server/model/guards/context_budget.py: the label
  of a compaction card, the notes of an aborted reply, the clipped prompt, the claim of an action
  no tool did and the provider's refusal of a prompt that does not fit. Text is ASCII.
\<close>

section \<open>Labels and notes\<close>

definition compacting_label :: string where
  "compacting_label = ''Compacting conversation...''"

definition thousands :: "int \<Rightarrow> string" where
  "thousands n = (if n \<le> 0 then ''0k'' else show_int (max 1 (round_thousandth n)) @ ''k'')"

definition compaction_complete_label :: "int \<Rightarrow> int \<Rightarrow> string" where
  "compaction_complete_label before_tokens after_tokens =
     ''Conversation compacted ('' @ thousands before_tokens @ '' -> '' @ thousands after_tokens @ '' tokens)''"

definition blank_line :: string where
  "blank_line = [newline, newline]"

definition context_window_abort_note :: string where
  "context_window_abort_note =
     blank_line @ ''[This reply exceeded the model's context window and was aborted - '' @
     ''the statements above are unverified. Start a new case or switch to a '' @
     ''larger-context model.]''"

definition fabrication_caveat :: string where
  "fabrication_caveat =
     ''Note: no tools were executed this turn - the statements above were not '' @
     ''verified by any action.''"

definition build_context_window_abort_note :: "bool \<Rightarrow> string" where
  "build_context_window_abort_note fabricated_claim =
     (if fabricated_claim then blank_line @ fabrication_caveat @ context_window_abort_note
      else context_window_abort_note)"

definition context_window_exceeded :: "int \<Rightarrow> py_exn" where
  "context_window_exceeded num_ctx =
     plain_exn (Derived ''ContextWindowExceededError'' ExcRuntimeError)
       (''The conversation no longer fits this model's context window ('' @
        show_int (max (num_ctx div 1024) 1) @
        ''k). Start a new case or switch to a larger-context model.'')"

definition is_prompt_clipped :: "int option \<Rightarrow> int \<Rightarrow> bool" where
  "is_prompt_clipped prompt_tokens num_ctx =
     (case prompt_tokens of None \<Rightarrow> False | Some n \<Rightarrow> 0 < num_ctx \<and> num_ctx \<le> n)"

section \<open>A claimed action\<close>

definition action_verbs :: "string list" where
  "action_verbs =
     [''computed'', ''published'', ''created'', ''fetched'', ''generated'', ''produced'',
      ''built'', ''rendered'', ''completed'', ''ran'', ''retrieved'', ''downloaded'',
      ''uploaded'', ''exported'', ''updated'']"

definition action_objects :: "string list" where
  "action_objects =
     [''layer'', ''layers'', ''map'', ''raster'', ''hillshade'', ''dem'', ''dataset'',
      ''datasets'', ''result'', ''results'', ''output'', ''model'', ''scenario'', ''flood'',
      ''plume'', ''contour'', ''mesh'', ''analysis'', ''shapefile'', ''geojson'', ''tile'',
      ''tiles'']"

text \<open>
  \<open>\b(?:w|...)\b\<close> at a place of a lowered text: \<open>prev\<close> is the character before it. A gap is at
  most sixty characters, none a line end or the end of a sentence.
\<close>

definition open_boundary :: "char option \<Rightarrow> bool" where
  "open_boundary c \<longleftrightarrow> (case c of None \<Rightarrow> True | Some x \<Rightarrow> \<not> is_word_char x)"

definition head_char :: "string \<Rightarrow> char option" where
  "head_char s = (case s of [] \<Rightarrow> None | c # t \<Rightarrow> Some c)"

definition word_here :: "char option \<Rightarrow> string \<Rightarrow> string \<Rightarrow> bool" where
  "word_here prev s w \<longleftrightarrow> open_boundary prev \<and> starts_with w s \<and> open_boundary (head_char (drop (length w) s))"

definition gap_char :: "char \<Rightarrow> bool" where
  "gap_char c \<longleftrightarrow> c \<notin> {CHR ''.'', CHR ''!'', CHR ''?'', newline}"

fun word_after_gap :: "string list \<Rightarrow> nat \<Rightarrow> char option \<Rightarrow> string \<Rightarrow> bool" where
  "word_after_gap ws 0 prev s = list_ex (word_here prev s) ws"
| "word_after_gap ws (Suc n) prev s =
     (list_ex (word_here prev s) ws \<or>
      (case s of [] \<Rightarrow> False | c # t \<Rightarrow> gap_char c \<and> word_after_gap ws n (Some c) t))"

definition pair_here :: "string list \<Rightarrow> string list \<Rightarrow> char option \<Rightarrow> string \<Rightarrow> bool" where
  "pair_here firsts seconds prev s \<longleftrightarrow>
     list_ex (\<lambda>w. word_here prev s w \<and>
                  word_after_gap seconds 60 (Some (last w)) (drop (length w) s)) firsts"

fun somewhere :: "(char option \<Rightarrow> string \<Rightarrow> bool) \<Rightarrow> char option \<Rightarrow> string \<Rightarrow> bool" where
  "somewhere P prev [] = P prev []"
| "somewhere P prev (c # s) = (P prev (c # s) \<or> somewhere P (Some c) s)"

definition looks_like_fabricated_action_claim :: "string option \<Rightarrow> bool" where
  "looks_like_fabricated_action_claim text =
     (if \<not> some_text text then False
      else somewhere (\<lambda>prev s. pair_here action_verbs action_objects prev s \<or>
                               pair_here action_objects action_verbs prev s)
             None (py_lower (the text)))"

section \<open>A prompt that did not fit\<close>

definition context_overflow_phrases :: "string list" where
  "context_overflow_phrases =
     [''context_length_exceeded'', ''context_length exceeded'', ''context length_exceeded'',
      ''context length exceeded'', ''prompt is too long'', ''input is too long'', ''too many tokens'',
      ''too many input tokens'', ''maximum context length'', ''exceeds the maximum'']"

definition looks_like_context_overflow_error :: "py_exn option \<Rightarrow> bool" where
  "looks_like_context_overflow_error exc =
     (case exc of
        None \<Rightarrow> False
      | Some e \<Rightarrow> list_ex (\<lambda>p. contains p (py_lower (exc_text e))) context_overflow_phrases)"

section \<open>What the search for a claim finds\<close>

text \<open>
  The claim, said without a search: a word of each list, in either order, whole words both, with
  at most sixty characters of one sentence and line between them.
\<close>

definition whole_word :: "string \<Rightarrow> string \<Rightarrow> string \<Rightarrow> bool" where
  "whole_word a w b \<longleftrightarrow> (a = [] \<or> \<not> is_word_char (last a)) \<and> (b = [] \<or> \<not> is_word_char (hd b))"

definition claimed_pair :: "string list \<Rightarrow> string list \<Rightarrow> string \<Rightarrow> bool" where
  "claimed_pair firsts seconds text \<longleftrightarrow>
     (\<exists>a v g w b. text = a @ v @ g @ w @ b \<and> v \<in> set firsts \<and> w \<in> set seconds \<and>
        length g \<le> 60 \<and> list_all gap_char g \<and>
        whole_word a v (g @ w @ b) \<and> whole_word (a @ v @ g) w b)"
definition before_char :: "char option \<Rightarrow> string \<Rightarrow> char option" where
  "before_char prev a = (if a = [] then prev else Some (last a))"

lemma before_char_simps [simp]:
  "before_char prev [] = prev" "before_char prev (c # a) = before_char (Some c) a"
  by (simp_all add: before_char_def)

lemma ex_split_Cons:
  "(\<exists>a b. c # s = a @ b \<and> Q a b) \<longleftrightarrow> Q [] (c # s) \<or> (\<exists>a b. s = a @ b \<and> Q (c # a) b)" (is "?l \<longleftrightarrow> ?r")
proof
  assume ?l
  then obtain a b where ab: "c # s = a @ b" "Q a b" by blast
  then show ?r by (cases a) auto
next
  assume ?r
  then show ?l by (metis append_Cons append_Nil)
qed

lemma somewhere_iff: "somewhere P prev s \<longleftrightarrow> (\<exists>a b. s = a @ b \<and> P (before_char prev a) b)"
proof (induction s arbitrary: prev)
  case (Cons c s)
  show ?case
    by (subst ex_split_Cons [where Q = "\<lambda>a b. P (before_char prev a) b"]) (simp add: Cons.IH)
qed simp

lemma word_here_iff: "word_here prev s w \<longleftrightarrow> open_boundary prev \<and> (\<exists>b. s = w @ b \<and> open_boundary (head_char b))"
  by (auto simp: word_here_def starts_with_iff)

lemma word_after_gap_iff:
  "word_after_gap ws n prev s \<longleftrightarrow>
     (\<exists>g t. s = g @ t \<and> length g \<le> n \<and> list_all gap_char g \<and> list_ex (word_here (before_char prev g) t) ws)"
proof (induction n arbitrary: prev s)
  case (Suc n)
  show ?case
  proof (cases s)
    case Nil
    then show ?thesis by auto
  next
    case (Cons c r)
    have "(\<exists>g t. c # r = g @ t \<and> length g \<le> Suc n \<and> list_all gap_char g \<and> list_ex (word_here (before_char prev g) t) ws) \<longleftrightarrow>
      list_ex (word_here prev (c # r)) ws \<or>
      (\<exists>g t. r = g @ t \<and> length g \<le> n \<and> gap_char c \<and> list_all gap_char g \<and>
              list_ex (word_here (before_char (Some c) g) t) ws)"
      by (subst ex_split_Cons [where Q = "\<lambda>g t. length g \<le> Suc n \<and> list_all gap_char g \<and> list_ex (word_here (before_char prev g) t) ws"])
         simp
    then show ?thesis using Cons by (simp add: Suc.IH) blast
  qed
qed auto

lemma open_boundary_last: "open_boundary (before_char None a) \<longleftrightarrow> a = [] \<or> \<not> is_word_char (last a)"
  by (simp add: open_boundary_def before_char_def)

lemma open_boundary_head: "open_boundary (head_char b) \<longleftrightarrow> b = [] \<or> \<not> is_word_char (hd b)"
  by (cases b) (simp_all add: open_boundary_def head_char_def)

lemma before_char_word: "v \<noteq> [] \<Longrightarrow> before_char (Some (last v)) g = before_char None (a @ v @ g)"
  by (simp add: before_char_def)

lemma pair_iff:
  assumes "[] \<notin> set firsts"
  shows "somewhere (pair_here firsts seconds) None s \<longleftrightarrow> claimed_pair firsts seconds s"
proof -
  have "pair_here firsts seconds (before_char None a) t \<longleftrightarrow>
      (\<exists>v g w b. t = v @ g @ w @ b \<and> v \<in> set firsts \<and> w \<in> set seconds \<and> length g \<le> 60 \<and>
         list_all gap_char g \<and> whole_word a v (g @ w @ b) \<and> whole_word (a @ v @ g) w b)"
    (is "?found = ?claim") for a t
  proof
    assume ?found
    then obtain v r where v: "v \<in> set firsts" "open_boundary (before_char None a)" "t = v @ r"
      "open_boundary (head_char r)" "word_after_gap seconds 60 (Some (last v)) r"
      by (auto simp: pair_here_def list_ex_iff word_here_iff)
    then obtain g w b where w: "r = g @ w @ b" "length g \<le> 60" "list_all gap_char g" "w \<in> set seconds"
      "open_boundary (before_char (Some (last v)) g)" "open_boundary (head_char b)"
      by (auto simp: word_after_gap_iff list_ex_iff word_here_iff)
    from v(1) assms have "v \<noteq> []" by auto
    from before_char_word [OF this, of g a] w(5) have "open_boundary (before_char None (a @ v @ g))" by metis
    with v(2,4) w(1,6) have "whole_word a v (g @ w @ b)" "whole_word (a @ v @ g) w b"
      unfolding whole_word_def open_boundary_last [symmetric] open_boundary_head [symmetric] by metis+
    with v w show ?claim by blast
  next
    assume ?claim
    then obtain v g w b where c: "t = v @ g @ w @ b" "v \<in> set firsts" "w \<in> set seconds" "length g \<le> 60"
      "list_all gap_char g" "whole_word a v (g @ w @ b)" "whole_word (a @ v @ g) w b" by blast
    from c(2) assms have "v \<noteq> []" by auto
    from before_char_word [OF this, of g a] c(7)
    have "open_boundary (before_char (Some (last v)) g)" "open_boundary (head_char b)"
      unfolding whole_word_def open_boundary_last [symmetric] open_boundary_head [symmetric] by metis+
    then have "list_ex (word_here (before_char (Some (last v)) g) (w @ b)) seconds"
      using c(3) by (auto simp: list_ex_iff word_here_iff)
    then have "word_after_gap seconds 60 (Some (last v)) (g @ w @ b)"
      using c(4,5) unfolding word_after_gap_iff by blast
    moreover have "word_here (before_char None a) t v"
      using c(1,6) unfolding whole_word_def open_boundary_last [symmetric] open_boundary_head [symmetric] word_here_iff
      by blast
    ultimately show ?found using c(1,2) by (auto simp: pair_here_def list_ex_iff)
  qed
  then show ?thesis
    by (simp only: somewhere_iff claimed_pair_def) blast
qed

lemma somewhere_or: "somewhere (\<lambda>p s. P p s \<or> Q p s) prev s = (somewhere P prev s \<or> somewhere Q prev s)"
  by (auto simp: somewhere_iff)

text \<open>
  C18: the backstop fires exactly on a text that pairs a completed-action verb with an output
  noun, in either order and case, as whole words at most sixty characters apart in one sentence
  of one line.
\<close>

theorem fabricated_claim_iff:
  "looks_like_fabricated_action_claim (Some text) \<longleftrightarrow>
     claimed_pair action_verbs action_objects (py_lower text) \<or>
     claimed_pair action_objects action_verbs (py_lower text)"
proof (cases "text = []")
  case True
  then show ?thesis
    by (simp add: looks_like_fabricated_action_claim_def claimed_pair_def py_lower_def)
       (simp add: action_verbs_def action_objects_def)
next
  case False
  have "[] \<notin> set action_verbs" "[] \<notin> set action_objects" by (simp_all add: action_verbs_def action_objects_def)
  with False show ?thesis
    by (simp add: looks_like_fabricated_action_claim_def somewhere_or pair_iff)
qed

end
