(* ===== verification/ProviderConfig.thy ===== *)
theory ProviderConfig
  imports ContextWindow JsonText "HOL-Library.Multiset"
begin

text \<open>
  The provider endpoints of trid3nt_server/model/adapters/model_discovery.py: the model listings
  and the push of a provider configuration into the environment. What a URL answers over the
  network is the parameter \<open>http\<close> (\<open>Inl\<close> the text of the fault, \<open>Inr\<close> the decoded body),
  decoding a request body is \<open>loads\<close>, \<open>quote\<close> is \<open>repr\<close> of a string and \<open>rep\<close> the text of
  a float or container.
\<close>

section \<open>What an endpoint is and what it lists\<close>

type_synonym http_get = "string \<Rightarrow> string + pyval"

definition local_models_route_enabled :: "environ \<Rightarrow> bool" where
  "local_models_route_enabled env \<longleftrightarrow>
     py_lower (py_strip (text_or (dget env ''MODEL_PROVIDER'') ''openai'')) = ''openai''"

definition ollama_tags_url :: "environ \<Rightarrow> string" where
  "ollama_tags_url env =
     (let base = ollama_root (Some (env_stripped env ''TRID3NT_OPENAI_BASE_URL''));
          base = (if base = [] then ''http://127.0.0.1:11434'' else base)
      in base @ ''/api/tags'')"

record model_entry =
  entry_id :: string
  entry_label :: string

definition listed_free :: "(string, pyval) dict \<Rightarrow> string \<Rightarrow> bool" where
  "listed_free m mid \<longleftrightarrow>
     (case pget m ''pricing'' of
        PDict pricing \<Rightarrow> pget pricing ''prompt'' = PStr ''0'' \<and> pget pricing ''completion'' = PStr ''0''
      | _ \<Rightarrow> False) \<or> ends_with '':free'' mid"

definition takes_tools :: "(string, pyval) dict \<Rightarrow> bool" where
  "takes_tools m \<longleftrightarrow>
     (case pget m ''supported_parameters'' of PList supported \<Rightarrow> PStr ''tools'' \<in> set supported | _ \<Rightarrow> False)"

definition openrouter_entry :: "pyval \<Rightarrow> model_entry option" where
  "openrouter_entry row =
     (case row of
        PDict m \<Rightarrow>
          (case pget m ''id'' of
             PStr raw \<Rightarrow>
               (let mid = py_strip raw in
                if mid \<noteq> [] \<and> listed_free m mid \<and> takes_tools m
                then Some \<lparr>entry_id = mid,
                           entry_label = (if ends_with '':free'' mid then mid else mid @ '' (free)'')\<rparr>
                else None)
           | _ \<Rightarrow> None)
      | _ \<Rightarrow> None)"

definition filter_openrouter_models :: "pyval \<Rightarrow> model_entry list" where
  "filter_openrouter_models raw = List.map_filter openrouter_entry (data_rows raw)"

definition local_entry :: "pyval \<Rightarrow> model_entry option" where
  "local_entry row =
     (case row of
        PDict m \<Rightarrow>
          (case py_or (pget m ''name'') (pget m ''model'') of
             PStr raw \<Rightarrow>
               (let name = py_strip raw in
                if name \<noteq> [] then Some \<lparr>entry_id = name, entry_label = name\<rparr> else None)
           | _ \<Rightarrow> None)
      | _ \<Rightarrow> None)"

definition listed_models :: "pyval \<Rightarrow> pyval list option" where
  "listed_models payload =
     (case payload of
        PDict d \<Rightarrow> (case pget d ''models'' of PList rows \<Rightarrow> Some rows | _ \<Rightarrow> None)
      | _ \<Rightarrow> None)"

section \<open>The listings\<close>

text \<open>The first entry with the default's id is moved to the front.\<close>

definition default_first :: "string option \<Rightarrow> model_entry list \<Rightarrow> model_entry list" where
  "default_first dflt models =
     (case dflt of
        None \<Rightarrow> models
      | Some d \<Rightarrow>
          (case find_index (\<lambda>m. entry_id m = d) models of
             None \<Rightarrow> models
           | Some i \<Rightarrow> models ! i # take i models @ drop (Suc i) models))"

text \<open>Compact JSON; the bodies hold no float.\<close>

definition compact_style :: json_style where
  "compact_style = \<lparr>item_sep = '','', key_sep = '':'', sort_keys = False, float_text = (\<lambda>f. [])\<rparr>"

definition opt_str :: "string option \<Rightarrow> pyval" where
  "opt_str v = (case v of None \<Rightarrow> PNone | Some t \<Rightarrow> PStr t)"

definition entry_value :: "model_entry \<Rightarrow> pyval" where
  "entry_value m = PDict [(''id'', PStr (entry_id m)), (''label'', PStr (entry_label m))]"

definition models_body :: "model_entry list \<Rightarrow> string option \<Rightarrow> string" where
  "models_body models dflt =
     json_text compact_style (PDict [(''models'', PList (map entry_value models)), (''default'', opt_str dflt)])"

definition configured_model :: "environ \<Rightarrow> string option" where
  "configured_model env =
     (let m = env_stripped env ''TRID3NT_OPENAI_MODEL'' in if m = [] then None else Some m)"

definition openrouter_models_ttl_s :: rat where
  "openrouter_models_ttl_s = 600"

type_synonym models_cache = "(string, rat \<times> model_entry list) dict"

text \<open>\<open>UnsplitUrl\<close> is the \<open>ValueError\<close> of a URL that does not split.\<close>

datatype listing_error = UpstreamError string | UnsplitUrl

definition fetch_openrouter_models ::
  "http_get \<Rightarrow> environ \<Rightarrow> rat \<Rightarrow> string \<Rightarrow> (models_cache, listing_error, string) act" where
  "fetch_openrouter_models http env now base_url cache =
     (let answer = (\<lambda>models. models_body (default_first (configured_model env) models) (configured_model env));
          fetched =
            (let url = rstrip_slash base_url @ ''/models'' in
             case http url of
               Inl fault \<Rightarrow> (Inl (UpstreamError (''OpenRouter model list unreachable at '' @ url @ '': '' @ fault)), cache)
             | Inr payload \<Rightarrow>
                 (let models = filter_openrouter_models payload in
                  (Inr (answer models), dput base_url (now, models) cache)))
      in case dget cache base_url of
           Some (stamp, models) \<Rightarrow> if now - stamp < openrouter_models_ttl_s then (Inr (answer models), cache) else fetched
         | None \<Rightarrow> fetched)"

definition fetch_local_models ::
  "http_get \<Rightarrow> environ \<Rightarrow> rat \<Rightarrow> (models_cache, listing_error, string) act" where
  "fetch_local_models http env now cache =
     (let base = env_stripped env ''TRID3NT_OPENAI_BASE_URL''; url = ollama_tags_url env in
      if base \<noteq> [] \<and> url_split_raises base then (Inl UnsplitUrl, cache)
      else if base \<noteq> [] \<and> ends_with ''openrouter.ai'' (base_url_host base)
      then fetch_openrouter_models http env now base cache
      else (case http url of
              Inl fault \<Rightarrow> (Inl (UpstreamError (''local model runtime unreachable at '' @ url @ '': '' @ fault)), cache)
            | Inr payload \<Rightarrow>
                (let models = (case listed_models payload of None \<Rightarrow> [] | Some rows \<Rightarrow> List.map_filter local_entry rows)
                 in (Inr (models_body (default_first (configured_model env) models) (configured_model env)), cache))))"

section \<open>Pushing a configuration\<close>

text \<open>
  \<open>BadRequest\<close> and \<open>Incoherent\<close> are the two refusals; \<open>NullByte\<close> is the \<open>ValueError\<close>
  the environment raises for a value with a null byte, \<open>BadUrl\<close> that of a URL that does not
  split.
\<close>

datatype config_error = BadRequest string | Incoherent string | NullByte | BadUrl

definition ollama_port :: nat where
  "ollama_port = 11434"

definition provider_family :: "string \<Rightarrow> string option" where
  "provider_family base_url =
     (if url_split_raises base_url then None
      else (case url_port base_url of
              Inl _ \<Rightarrow> None
            | Inr port \<Rightarrow>
                if ends_with ''openrouter.ai'' (base_url_host base_url) then Some ''openrouter''
                else if port = Some ollama_port then Some ''ollama''
                else None))"

definition norm_tag :: "string \<Rightarrow> string" where
  "norm_tag name = (if ends_with '':latest'' name then take (length name - length '':latest'') name else name)"

definition installed_name :: "pyval \<Rightarrow> string option" where
  "installed_name m =
     (case m of
        PDict d \<Rightarrow> (case pget d ''name'' of
                       PStr raw \<Rightarrow> if py_strip raw \<noteq> [] then Some (norm_tag (py_strip raw)) else None
                     | _ \<Rightarrow> None)
      | _ \<Rightarrow> None)"

definition ollama_serves_model :: "http_get \<Rightarrow> string \<Rightarrow> string \<Rightarrow> bool option" where
  "ollama_serves_model http base_url model =
     (let root = ollama_root (Some base_url) in
      if root = [] then None
      else (case http (root @ ''/api/tags'') of
              Inl _ \<Rightarrow> None
            | Inr payload \<Rightarrow>
                (case listed_models payload of
                   None \<Rightarrow> None
                 | Some raw \<Rightarrow>
                     (let installed = List.map_filter installed_name raw in
                      if installed = [] then None else Some (norm_tag model \<in> set installed)))))"

definition mismatch_text :: "string \<Rightarrow> string \<Rightarrow> string \<Rightarrow> string \<Rightarrow> string \<Rightarrow> string" where
  "mismatch_text host provider model trouble hint =
     ''provider mismatch: base_url host '' @ host @ '' is '' @ provider @ '' but model '' @ model @ trouble @ hint"

definition check_provider_coherence ::
  "(string \<Rightarrow> string) \<Rightarrow> http_get \<Rightarrow> string \<Rightarrow> string \<Rightarrow> config_error option" where
  "check_provider_coherence quote http base_url model =
     (case provider_family base_url of
        None \<Rightarrow> None
      | Some family \<Rightarrow>
          (let host = quote (base_url_host base_url); named = quote model in
           if model = [] then None
           else if family = ''openrouter'' \<and> CHR ''/'' \<notin> set model
           then Some (Incoherent (mismatch_text host ''OpenRouter'' named '' is not an OpenRouter id. ''
                  (''OpenRouter ids are namespaced 'vendor/model' (e.g. 'meta-llama/llama-3.3-70b-instruct:free'). '' @
                   ''Set base_url and model to the same provider.'')))
           else if family = ''ollama'' \<and> ends_with '':free'' model
           then Some (Incoherent (mismatch_text host ''Ollama'' named '' is an OpenRouter free-tier id. ''
                  (''Expected an installed Ollama tag (e.g. 'qwen3:8b-24k'). Set base_url and model to '' @
                   ''the same provider.'')))
           else if family = ''ollama'' \<and> CHR ''/'' \<in> set model \<and> ollama_serves_model http base_url model = Some False
           then Some (Incoherent (mismatch_text host ''Ollama'' named
                  '' is not installed there (it looks like another provider's namespaced id). ''
                  (''Pull it with 'ollama pull' or set base_url and model to the same provider.'')))
           else None))"

definition field_env :: "(string \<times> string) list" where
  "field_env =
     [(''base_url'', ''TRID3NT_OPENAI_BASE_URL''), (''api_key'', ''TRID3NT_OPENAI_API_KEY''),
      (''model'', ''TRID3NT_OPENAI_MODEL''), (''num_ctx'', ''TRID3NT_OPENAI_NUM_CTX'')]"

definition config_value :: "(pyval \<Rightarrow> string) \<Rightarrow> (string, pyval) dict \<Rightarrow> string \<Rightarrow> string option" where
  "config_value rep payload field =
     (if pget payload field = PNone then None
      else (let value = py_strip (py_str rep (pget payload field)) in if value = [] then None else Some value))"

definition config_updates :: "(pyval \<Rightarrow> string) \<Rightarrow> (string, pyval) dict \<Rightarrow> (string, string) dict" where
  "config_updates rep payload =
     List.map_filter (\<lambda>(field, env_name). map_option (Pair env_name) (config_value rep payload field)) field_env"

text \<open>\<open>os.environ.update\<close>: entry by entry, up to one the environment refuses.\<close>

fun environ_update :: "(string, string) dict \<Rightarrow> environ \<Rightarrow> bool \<times> environ" where
  "environ_update [] env = (True, env)"
| "environ_update ((name, value) # kvs) env =
     (if CHR 0x00 \<in> set value then (False, env) else environ_update kvs (dput name value env))"

definition in_force :: "(string, string) dict \<Rightarrow> environ \<Rightarrow> string \<Rightarrow> string" where
  "in_force updates env name = text_or (dget updates name) (env_stripped env name)"

definition config_answer :: "environ \<Rightarrow> config_error + string" where
  "config_answer env =
     (let base_url = env_stripped env ''TRID3NT_OPENAI_BASE_URL'' in
      if base_url \<noteq> [] \<and> url_split_raises base_url then Inl BadUrl
      else Inr (json_text compact_style (PDict
             [(''ok'', PBool True), (''model'', opt_str (configured_model env)),
              (''base_url_host'', PStr (if base_url \<noteq> [] then base_url_host base_url else []))])))"

text \<open>The white space \<open>bytes.strip\<close> removes.\<close>

definition is_byte_space :: "char \<Rightarrow> bool" where
  "is_byte_space c \<longleftrightarrow> (9 \<le> char_code c \<and> char_code c \<le> 13) \<or> char_code c = 32"

definition decoded_body :: "(string \<Rightarrow> pyval option) \<Rightarrow> string \<Rightarrow> pyval option" where
  "decoded_body loads raw_body = (if list_all is_byte_space raw_body then Some PNone else loads raw_body)"

definition apply_provider_config ::
  "(string \<Rightarrow> string) \<Rightarrow> http_get \<Rightarrow> (pyval \<Rightarrow> string) \<Rightarrow> (string \<Rightarrow> pyval option) \<Rightarrow> string \<Rightarrow>
   (environ \<times> window_cache, config_error, string) act" where
  "apply_provider_config quote http rep loads raw_body st =
     (case decoded_body loads raw_body of
        None \<Rightarrow> (Inl (BadRequest ''body must be valid JSON''), st)
      | Some (PDict payload) \<Rightarrow>
          (let env = fst st; updates = config_updates rep payload in
           case check_provider_coherence quote http (in_force updates env ''TRID3NT_OPENAI_BASE_URL'')
                  (in_force updates env ''TRID3NT_OPENAI_MODEL'') of
             Some e \<Rightarrow> (Inl e, st)
           | None \<Rightarrow>
               (let (written, env') = environ_update updates env in
                if \<not> written then (Inl NullByte, (env', snd st))
                else (config_answer env', (env', reset_num_ctx_cache (snd st)))))
      | Some _ \<Rightarrow>
          (Inl (BadRequest (''body must be a JSON object like {'' @ json_string ''base_url'' @ '': '' @
                json_string ''...'' @ '', '' @ json_string ''model'' @ '': '' @ json_string ''...'' @ ''}'')), st))"

section \<open>What a push leaves behind\<close>

lemma py_strip_strip [simp]: "py_strip (py_strip s) = py_strip s"
proof (cases "py_strip s = []")
  case True
  then show ?thesis by (simp only:) (simp add: py_strip_def)
next
  case False
  then show ?thesis using py_strip_hd [of s] py_strip_last [of s] by (simp add: py_strip_id)
qed

lemma environ_update_written:
  "environ_update kvs env = (True, env') \<Longrightarrow> dict_ok kvs \<Longrightarrow>
   dget env' n = (case dget kvs n of Some v \<Rightarrow> Some v | None \<Rightarrow> dget env n)"
proof (induction kvs arbitrary: env)
  case (Cons kv kvs)
  obtain k v where kv: "kv = (k, v)" by fastforce
  from Cons.prems kv have "environ_update kvs (dput k v env) = (True, env')" and "dict_ok kvs"
    by (auto split: if_splits)
  moreover have "dget kvs k = None" using Cons.prems(2) kv by (simp add: dget_None_iff)
  ultimately show ?case using Cons.IH kv by (simp split: option.split)
qed simp

lemma config_updates_in:
  "(n, v) \<in> set (config_updates rep payload) \<Longrightarrow> v \<noteq> [] \<and> py_strip v = v"
proof -
  assume "(n, v) \<in> set (config_updates rep payload)"
  then obtain f where "config_value rep payload f = Some v"
    by (auto simp: config_updates_def List.map_filter_def)
  then show ?thesis by (auto simp: config_value_def Let_def split: if_splits)
qed

lemma config_updates_ok: "dict_ok (config_updates rep payload)"
  by (auto simp: config_updates_def field_env_def List.map_filter_simps split: option.splits)

lemma in_force_after:
  assumes "environ_update (config_updates rep payload) env = (True, env')"
  shows "env_stripped env' n = in_force (config_updates rep payload) env n"
  using environ_update_written [OF assms config_updates_ok, of n] config_updates_in [of n _ rep payload]
  by (auto simp: in_force_def env_stripped_def dget_or_def dest: dget_Some_in split: option.splits)

lemma incoherent_only: "check_provider_coherence quote http b m = Some e \<Longrightarrow> \<exists>t. e = Incoherent t"
  by (auto simp: check_provider_coherence_def Let_def split: option.splits if_splits)

lemma push_decoded:
  "apply_provider_config quote http rep loads body st =
     (case decoded_body loads body of
        Some (PDict payload) \<Rightarrow>
          (case check_provider_coherence quote http
                  (in_force (config_updates rep payload) (fst st) ''TRID3NT_OPENAI_BASE_URL'')
                  (in_force (config_updates rep payload) (fst st) ''TRID3NT_OPENAI_MODEL'') of
             Some e \<Rightarrow> (Inl e, st)
           | None \<Rightarrow>
               (case environ_update (config_updates rep payload) (fst st) of
                  (False, env') \<Rightarrow> (Inl NullByte, (env', snd st))
                | (True, env') \<Rightarrow> (config_answer env', (env', []))))
      | v \<Rightarrow> (fst (apply_provider_config quote http rep loads body st), st))"
  by (simp add: apply_provider_config_def Let_def reset_num_ctx_cache_def split: option.split pyval.split prod.split bool.split)

lemma push_outcome:
  assumes "decoded_body loads body = Some (PDict payload)"
    and "environ_update (config_updates rep payload) (fst st) = (ok, env')"
  shows "apply_provider_config quote http rep loads body st =
      (case check_provider_coherence quote http
              (in_force (config_updates rep payload) (fst st) ''TRID3NT_OPENAI_BASE_URL'')
              (in_force (config_updates rep payload) (fst st) ''TRID3NT_OPENAI_MODEL'') of
         Some e \<Rightarrow> (Inl e, st)
       | None \<Rightarrow> if ok then (config_answer env', (env', [])) else (Inl NullByte, (env', snd st)))"
  by (cases ok) (simp_all add: push_decoded assms split: option.split)

lemma push_bad_request:
  "decoded_body loads body \<notin> range (\<lambda>d. Some (PDict d)) \<Longrightarrow>
   \<exists>t. apply_provider_config quote http rep loads body st = (Inl (BadRequest t), st)"
  by (auto simp: apply_provider_config_def Let_def split: option.split pyval.split)

text \<open>
  C19: a push that is refused leaves the environment and the window cache as they were; an
  answered one wrote exactly the fields it was given, left a pair in force that passes the
  coherence check and emptied the cache.
\<close>

theorem provider_push_all_or_nothing:
  "case apply_provider_config quote http rep loads body (env, cache) of
     (Inl (BadRequest t), st) \<Rightarrow> st = (env, cache)
   | (Inl (Incoherent t), st) \<Rightarrow> st = (env, cache)
   | (Inl NullByte, st) \<Rightarrow> snd st = cache
   | (Inl BadUrl, st) \<Rightarrow> snd st = []
   | (Inr t, (env', cache')) \<Rightarrow>
       cache' = [] \<and> config_answer env' = Inr t \<and>
       check_provider_coherence quote http (env_stripped env' ''TRID3NT_OPENAI_BASE_URL'')
         (env_stripped env' ''TRID3NT_OPENAI_MODEL'') = None \<and>
       (\<exists>payload. loads body = Some (PDict payload) \<and>
          (\<forall>n. dget env' n = (case dget (config_updates rep payload) n of
                               Some v \<Rightarrow> Some v | None \<Rightarrow> dget env n)))"
proof -
  let ?decoded = "decoded_body loads body"
  consider (bad) "?decoded \<notin> range (\<lambda>d. Some (PDict d))" | (push) payload where "?decoded = Some (PDict payload)"
    by blast
  then show ?thesis
  proof cases
    case bad
    then obtain t where "apply_provider_config quote http rep loads body (env, cache) = (Inl (BadRequest t), (env, cache))"
      using push_bad_request by blast
    then show ?thesis by simp
  next
    case push
    let ?u = "config_updates rep payload"
    from push have body: "loads body = Some (PDict payload)" by (simp add: decoded_body_def split: if_splits)
    show ?thesis
    proof (cases "check_provider_coherence quote http (in_force ?u env ''TRID3NT_OPENAI_BASE_URL'')
        (in_force ?u env ''TRID3NT_OPENAI_MODEL'')")
      case (Some e)
      with incoherent_only [OF Some] show ?thesis by (auto simp: push_decoded push)
    next
      case coherent: None
      obtain ok env' where w: "environ_update ?u env = (ok, env')" by fastforce
      show ?thesis
      proof (cases ok)
        case False
        with coherent w show ?thesis by (simp add: push_decoded push)
      next
        case True
        with w have wrote: "environ_update ?u env = (True, env')" by simp
        show ?thesis
          using coherent body in_force_after [OF wrote] environ_update_written [OF wrote config_updates_ok]
          by (cases "url_split_raises (env_stripped env' ''TRID3NT_OPENAI_BASE_URL'')")
             (auto simp: push_decoded push wrote config_answer_def Let_def)
      qed
    qed
  qed
qed


lemma config_updates_get:
  "dget (config_updates rep payload) n =
     (if n = ''TRID3NT_OPENAI_BASE_URL'' then config_value rep payload ''base_url''
      else if n = ''TRID3NT_OPENAI_API_KEY'' then config_value rep payload ''api_key''
      else if n = ''TRID3NT_OPENAI_MODEL'' then config_value rep payload ''model''
      else if n = ''TRID3NT_OPENAI_NUM_CTX'' then config_value rep payload ''num_ctx''
      else None)"
  by (simp add: config_updates_def field_env_def List.map_filter_simps split: option.split)

lemma environ_update_ok: "fst (environ_update kvs env) \<longleftrightarrow> (\<forall>(n, v) \<in> set kvs. CHR 0x00 \<notin> set v)"
  by (induction kvs arbitrary: env) (auto split: if_splits)

lemma updates_clean:
  "fst (environ_update (config_updates rep payload) env) \<longleftrightarrow>
     (\<forall>f \<in> {''base_url'', ''api_key'', ''model'', ''num_ctx''}. \<forall>v. config_value rep payload f = Some v \<longrightarrow> CHR 0x00 \<notin> set v)"
  by (simp add: environ_update_ok config_updates_def field_env_def List.map_filter_simps split: option.split)

text \<open>
  the answer to a push, and every setting it leaves but the key itself, are the same
  whatever key the body carries.
\<close>

theorem provider_answer_hides_key:
  assumes "decoded_body loads body1 = Some (PDict d1)" and "decoded_body loads body2 = Some (PDict d2)"
    and "\<forall>f. f \<noteq> ''api_key'' \<longrightarrow> pget d1 f = pget d2 f"
    and "CHR 0x00 \<notin> set (py_str rep (pget d1 ''api_key''))" and "CHR 0x00 \<notin> set (py_str rep (pget d2 ''api_key''))"
  shows "fst (apply_provider_config quote http rep loads body1 st) =
         fst (apply_provider_config quote http rep loads body2 st) \<and>
    (\<forall>n. n \<noteq> ''TRID3NT_OPENAI_API_KEY'' \<longrightarrow>
       (case apply_provider_config quote http rep loads body1 st of
          (Inr t, (env', cache')) \<Rightarrow>
            dget env' n = dget (fst (snd (apply_provider_config quote http rep loads body2 st))) n
        | _ \<Rightarrow> True))"
proof -
  let ?u1 = "config_updates rep d1" and ?u2 = "config_updates rep d2"
  have val: "config_value rep d1 f = config_value rep d2 f" if "f \<noteq> ''api_key''" for f
    using assms(3) that by (simp add: config_value_def)
  then have get: "dget ?u1 n = dget ?u2 n" if "n \<noteq> ''TRID3NT_OPENAI_API_KEY''" for n
    using that by (simp add: config_updates_get)
  then have force: "in_force ?u1 env n = in_force ?u2 env n" if "n \<noteq> ''TRID3NT_OPENAI_API_KEY''" for n env
    using that by (simp add: in_force_def)
  have "set (py_strip t) \<subseteq> set t" for t
    by (auto simp: py_strip_def dest!: set_dropWhileD)
  then have clean: "CHR 0x00 \<notin> set v" if "config_value rep d ''api_key'' = Some v" "CHR 0x00 \<notin> set (py_str rep (pget d ''api_key''))"
    for d v using that by (auto simp: config_value_def Let_def split: if_splits)
  have ok: "fst (environ_update ?u1 env) = fst (environ_update ?u2 env)" for env
  proof -
    have key: "\<forall>v. config_value rep d1 ''api_key'' = Some v \<longrightarrow> CHR 0x00 \<notin> set v"
      "\<forall>v. config_value rep d2 ''api_key'' = Some v \<longrightarrow> CHR 0x00 \<notin> set v"
      using clean assms(4,5) by blast+
    have same: "config_value rep d1 ''base_url'' = config_value rep d2 ''base_url''"
      "config_value rep d1 ''model'' = config_value rep d2 ''model''"
      "config_value rep d1 ''num_ctx'' = config_value rep d2 ''num_ctx''" by (simp_all add: val)
    show ?thesis unfolding updates_clean ball_simps same using key by simp
  qed
  obtain ok env1 where w1: "environ_update ?u1 (fst st) = (ok, env1)" by fastforce
  obtain env2 where w2: "environ_update ?u2 (fst st) = (ok, env2)" using ok [of "fst st"] w1
    by (cases "environ_update ?u2 (fst st)") simp
  have same: "dget env1 n = dget env2 n" if "ok" "n \<noteq> ''TRID3NT_OPENAI_API_KEY''" for n
    using environ_update_written [OF _ config_updates_ok, of rep d1 "fst st" env1 n]
      environ_update_written [OF _ config_updates_ok, of rep d2 "fst st" env2 n] w1 w2 that get by simp
  have answer: "config_answer env1 = config_answer env2" if "ok"
  proof -
    have "env_stripped env1 n = env_stripped env2 n" if "n \<noteq> ''TRID3NT_OPENAI_API_KEY''" for n
      using same [OF \<open>ok\<close> that] by (simp add: env_stripped_def dget_or_def)
    then have "env_stripped env1 ''TRID3NT_OPENAI_BASE_URL'' = env_stripped env2 ''TRID3NT_OPENAI_BASE_URL''"
      "configured_model env1 = configured_model env2" by (simp_all add: configured_model_def)
    then show ?thesis unfolding config_answer_def by (simp only:)
  qed
  let ?check = "\<lambda>u. check_provider_coherence quote http (in_force u (fst st) ''TRID3NT_OPENAI_BASE_URL'')
    (in_force u (fst st) ''TRID3NT_OPENAI_MODEL'')"
  have check: "?check ?u1 = ?check ?u2" by (simp add: force)
  note p = push_outcome [OF assms(1) w1, of quote http] push_outcome [OF assms(2) w2, of quote http, folded check]
  show ?thesis
  proof (cases "?check ?u1")
    case None
    then show ?thesis using answer same unfolding p by (cases ok) (auto split: sum.split)
  next
    case (Some e)
    then show ?thesis unfolding p by simp
  qed
qed

text \<open>
  a push whose key holds a null byte is refused with the new base URL already in force
  beside the old model, a pair the coherence check refuses, and the window cache not emptied.
\<close>

theorem null_byte_half_applies:
  assumes "decoded_body loads body = Some (PDict [(''base_url'', PStr ''https://openrouter.ai/api/v1''),
      (''api_key'', PStr [CHR ''k'', CHR 0x00]), (''model'', PStr ''vendor/m'')])"
    and "dget env ''TRID3NT_OPENAI_MODEL'' = Some ''qwen3:8b''"
  shows "case apply_provider_config quote http rep loads body (env, cache) of
     (r, (env', cache')) \<Rightarrow> r = Inl NullByte \<and> cache' = cache \<and>
       dget env' ''TRID3NT_OPENAI_BASE_URL'' = Some ''https://openrouter.ai/api/v1'' \<and>
       dget env' ''TRID3NT_OPENAI_MODEL'' = Some ''qwen3:8b'' \<and>
       check_provider_coherence quote http (env_stripped env' ''TRID3NT_OPENAI_BASE_URL'')
         (env_stripped env' ''TRID3NT_OPENAI_MODEL'') \<noteq> None"
proof -
  let ?d = "[(''base_url'', PStr ''https://openrouter.ai/api/v1''), (''api_key'', PStr [CHR ''k'', CHR 0x00]),
    (''model'', PStr ''vendor/m'')]"
  let ?b = "''https://openrouter.ai/api/v1''"
  have strip: "py_strip ?b = ?b" "py_strip [CHR ''k'', CHR 0x00] = [CHR ''k'', CHR 0x00]"
    "py_strip ''vendor/m'' = ''vendor/m''" "py_strip ''qwen3:8b'' = ''qwen3:8b''"
    by (simp_all add: py_strip_id is_space_def char_code_def)
  have u: "config_updates rep ?d = [(''TRID3NT_OPENAI_BASE_URL'', ?b),
      (''TRID3NT_OPENAI_API_KEY'', [CHR ''k'', CHR 0x00]), (''TRID3NT_OPENAI_MODEL'', ''vendor/m'')]"
    by (simp add: config_updates_def field_env_def List.map_filter_simps config_value_def pget_def dget_or_def strip)
  have fam: "provider_family ?b = Some ''openrouter''"
    by code_simp
  have "check_provider_coherence quote http ?b ''vendor/m'' = None"
    by (simp add: check_provider_coherence_def fam Let_def)
  moreover have "check_provider_coherence quote http ?b ''qwen3:8b'' \<noteq> None"
    by (simp add: check_provider_coherence_def fam Let_def)
  ultimately show ?thesis using assms(2)
    by (simp add: push_decoded assms(1) u in_force_def env_stripped_def dget_or_def strip)
qed


text \<open>A push body that is decoded to a key alone, and one with a null byte in its key.\<close>

definition key_body :: "string \<Rightarrow> pyval option" where
  "key_body s = Some (PDict [(''api_key'', PStr s)])"

definition null_key_body :: "string \<Rightarrow> pyval option" where
  "null_key_body s = Some (PDict [(''base_url'', PStr ''https://openrouter.ai/api/v1''),
      (''api_key'', PStr [CHR ''k'', CHR 0x00]), (''model'', PStr ''vendor/m'')])"

theorem provider_answer_hides_key_witness:
  "fst (apply_provider_config id (\<lambda>u. Inl []) (\<lambda>v. []) key_body ''k1'' ([], [])) =
   fst (apply_provider_config id (\<lambda>u. Inl []) (\<lambda>v. []) key_body ''k2'' ([], []))"
proof -
  have "decoded_body key_body ''k1'' = Some (PDict [(''api_key'', PStr ''k1'')])"
    "decoded_body key_body ''k2'' = Some (PDict [(''api_key'', PStr ''k2'')])"
    by (simp_all add: decoded_body_def key_body_def is_byte_space_def char_code_def)
  from provider_answer_hides_key [OF this, of "\<lambda>v. []" id "\<lambda>u. Inl []" "([], [])"] show ?thesis
    by (simp add: pget_def dget_or_def)
qed

theorem null_byte_half_applies_witness:
  "dget (fst (snd (apply_provider_config id (\<lambda>u. Inl []) (\<lambda>v. []) null_key_body ''x''
      ([(''TRID3NT_OPENAI_MODEL'', ''qwen3:8b'')], [])))) ''TRID3NT_OPENAI_BASE_URL'' = Some ''https://openrouter.ai/api/v1''"
proof -
  have "decoded_body null_key_body ''x'' = Some (PDict [(''base_url'', PStr ''https://openrouter.ai/api/v1''),
      (''api_key'', PStr [CHR ''k'', CHR 0x00]), (''model'', PStr ''vendor/m'')])"
    by (simp add: decoded_body_def null_key_body_def is_byte_space_def char_code_def)
  from null_byte_half_applies [OF this, where env = "[(''TRID3NT_OPENAI_MODEL'', ''qwen3:8b'')]" and quote = id
      and http = "\<lambda>u. Inl []" and rep = "\<lambda>v. []" and cache = "[]"]
  show ?thesis by (simp add: split_beta)
qed

section \<open>What a listing shows\<close>

lemma find_index_Some_split:
  "find_index p xs = Some i \<Longrightarrow> xs = take i xs @ xs ! i # drop (Suc i) xs \<and> p (xs ! i) \<and> (\<forall>x \<in> set (take i xs). \<not> p x)"
proof (induction xs arbitrary: i)
  case (Cons x xs)
  then show ?case by (cases "p x") (auto split: if_splits)
qed simp

lemma find_index_None_iff: "find_index p xs = None \<longleftrightarrow> (\<forall>x \<in> set xs. \<not> p x)"
  by (induction xs) auto

lemma default_first_spec:
  "mset (default_first (Some d) ms) = mset ms \<and>
   filter (\<lambda>m. entry_id m \<noteq> d) (default_first (Some d) ms) = filter (\<lambda>m. entry_id m \<noteq> d) ms \<and>
   (d \<in> entry_id ` set ms \<longleftrightarrow> default_first (Some d) ms \<noteq> [] \<and> entry_id (hd (default_first (Some d) ms)) = d)"
proof (cases "find_index (\<lambda>m. entry_id m = d) ms")
  case None
  then have "\<forall>m \<in> set ms. entry_id m \<noteq> d" by (simp add: find_index_None_iff)
  with None show ?thesis by (auto simp: default_first_def)
next
  case (Some i)
  then have i: "ms = take i ms @ ms ! i # drop (Suc i) ms" "entry_id (ms ! i) = d"
    using find_index_Some_split [OF Some] by blast+
  define xs m ys where parts: "xs = take i ms" "m = ms ! i" "ys = drop (Suc i) ms"
  have ms: "ms = xs @ m # ys" and "entry_id m = d" using i unfolding parts by blast+
  moreover have "default_first (Some d) ms = m # xs @ ys" using Some by (simp add: default_first_def parts)
  ultimately show ?thesis by simp
qed

text \<open>
  an answered listing of OpenRouter is answered again from the cache, by any later network
  and configuration, until 600 seconds after it was fetched: the models fetched then, the
  configured one first and the others in their order. A listing that failed leaves the cache alone.
\<close>

theorem openrouter_listing_cached:
  "case fetch_openrouter_models http env now base cache of
     (Inl e, cache') \<Rightarrow> cache' = cache
   | (Inr body, cache') \<Rightarrow>
       (\<exists>stamp models. now - stamp < openrouter_models_ttl_s \<and>
          body = models_body (default_first (configured_model env) models) (configured_model env) \<and>
          (\<forall>http2 env2 now2. now2 - stamp < openrouter_models_ttl_s \<longrightarrow>
             (\<exists>shown. fetch_openrouter_models http2 env2 now2 base cache' =
                  (Inr (models_body shown (configured_model env2)), cache') \<and> mset shown = mset models \<and>
                (case configured_model env2 of
                   None \<Rightarrow> shown = models
                 | Some d \<Rightarrow> filter (\<lambda>m. entry_id m \<noteq> d) shown = filter (\<lambda>m. entry_id m \<noteq> d) models \<and>
                             (d \<in> entry_id ` set models \<longleftrightarrow> shown \<noteq> [] \<and> entry_id (hd shown) = d)))))"
proof -
  have later: "\<exists>shown. fetch_openrouter_models http2 env2 now2 base cache' =
        (Inr (models_body shown (configured_model env2)), cache') \<and> mset shown = mset models \<and>
      (case configured_model env2 of
         None \<Rightarrow> shown = models
       | Some d \<Rightarrow> filter (\<lambda>m. entry_id m \<noteq> d) shown = filter (\<lambda>m. entry_id m \<noteq> d) models \<and>
                   (d \<in> entry_id ` set models \<longleftrightarrow> shown \<noteq> [] \<and> entry_id (hd shown) = d))"
    if "dget cache' base = Some (stamp, models)" "now2 - stamp < openrouter_models_ttl_s" for http2 env2 now2 cache' stamp models
  proof (intro exI conjI)
    show "fetch_openrouter_models http2 env2 now2 base cache' =
        (Inr (models_body (default_first (configured_model env2) models) (configured_model env2)), cache')"
      using that by (simp add: fetch_openrouter_models_def Let_def)
    show "mset (default_first (configured_model env2) models) = mset models"
      using default_first_spec by (cases "configured_model env2") (simp_all add: default_first_def)
    show "case configured_model env2 of
         None \<Rightarrow> default_first (configured_model env2) models = models
       | Some d \<Rightarrow> filter (\<lambda>m. entry_id m \<noteq> d) (default_first (configured_model env2) models) =
                     filter (\<lambda>m. entry_id m \<noteq> d) models \<and>
                   (d \<in> entry_id ` set models \<longleftrightarrow> default_first (configured_model env2) models \<noteq> [] \<and>
                      entry_id (hd (default_first (configured_model env2) models)) = d)"
      using default_first_spec by (simp add: default_first_def split: option.split)
  qed
  show ?thesis
  proof (cases "fetch_openrouter_models http env now base cache")
    case (Pair r cache')
    show ?thesis
    proof (cases r)
      case (Inl e)
      with Pair show ?thesis by (auto simp: fetch_openrouter_models_def Let_def split: option.splits if_splits sum.splits)
    next
      case (Inr body)
      with Pair obtain stamp models where "now - stamp < openrouter_models_ttl_s" "dget cache' base = Some (stamp, models)"
        "body = models_body (default_first (configured_model env) models) (configured_model env)"
        by (auto simp: fetch_openrouter_models_def Let_def openrouter_models_ttl_s_def
            split: option.splits if_splits sum.splits)
      with later Pair Inr show ?thesis by (simp add: exI [of _ stamp] exI [of _ models])
    qed
  qed
qed

theorem openrouter_listing_cached_witness:
  "\<exists>shown. fetch_openrouter_models (\<lambda>u. Inl ''down'') [] 0 ''b''
      (snd (fetch_openrouter_models (\<lambda>u. Inr PNone) [] 0 ''b'' [])) =
    (Inr (models_body shown None), [(''b'', 0, [])])"
proof -
  have first: "fetch_openrouter_models (\<lambda>u. Inr PNone) [] 0 ''b'' [] = (Inr (models_body [] None), [(''b'', 0, [])])"
    by (simp add: fetch_openrouter_models_def Let_def filter_openrouter_models_def data_rows_def List.map_filter_simps
        configured_model_def env_stripped_def dget_or_def py_strip_def default_first_def dput_new)
  have unset: "configured_model [] = None"
    by (simp add: configured_model_def env_stripped_def dget_or_def py_strip_def)
  obtain stamp where stamp: "0 - stamp < openrouter_models_ttl_s"
    and later: "\<And>http2 env2 now2. now2 - stamp < openrouter_models_ttl_s \<Longrightarrow>
      \<exists>shown. fetch_openrouter_models http2 env2 now2 ''b'' [(''b'', 0, [])] =
        (Inr (models_body shown (configured_model env2)), [(''b'', 0, [])])"
    using openrouter_listing_cached [where http = "\<lambda>u. Inr PNone" and env = "[]" and now = 0 and base = "''b''" and cache = "[]"]
    unfolding first prod.case sum.case by blast
  from later [OF stamp, of "\<lambda>u. Inl ''down''" "[]"] show ?thesis unfolding first snd_conv unset .
qed

end
