(* ===== verification/ProviderWire.thy ===== *)
theory ProviderWire
  imports ContextWindow
begin

text \<open>
  The history as the two provider APIs take it: \<open>contents_to_openai_messages\<close> of
  trid3nt_server/model/adapters/openai_adapter.py and \<open>contents_to_anthropic_messages\<close> of
  anthropic_adapter.py, with the pairing of tool results and calls, the merging of neighbours
  and the system prompt.
\<close>

section \<open>Call ids\<close>

text \<open>
  Both converters keep the ids of calls not answered yet and a counter for the ids they mint
  themselves, with a prefix of their own.
\<close>

record id_state =
  pending_ids :: "string list"
  id_counter :: nat

definition no_ids :: id_state where
  "no_ids = \<lparr>pending_ids = [], id_counter = 0\<rparr>"

definition next_id :: "string \<Rightarrow> id_state \<Rightarrow> string \<times> id_state" where
  "next_id prefix st =
     (let n = Suc (id_counter st) in (prefix @ show_nat n, st\<lparr>id_counter := n\<rparr>))"

definition call_tid :: "string \<Rightarrow> string option \<Rightarrow> id_state \<Rightarrow> string \<times> id_state" where
  "call_tid prefix cid st =
     (let (tid, st1) = (if some_text cid then (the cid, st) else next_id prefix st)
      in (tid, st1\<lparr>pending_ids := pending_ids st1 @ [tid]\<rparr>))"

definition result_tid :: "string \<Rightarrow> string option \<Rightarrow> id_state \<Rightarrow> string \<times> id_state" where
  "result_tid prefix rid st =
     (if some_text rid then (the rid, st)
      else (case pending_ids st of
              [] \<Rightarrow> next_id prefix st
            | tid # rest \<Rightarrow> (tid, st\<lparr>pending_ids := rest\<rparr>)))"

datatype wire_item = CallItem string tool_call | ResultItem string tool_response | TextItem string | NoItem

definition named_call :: "part \<Rightarrow> tool_call option" where
  "named_call p = (case part_call p of None \<Rightarrow> None | Some c \<Rightarrow> if call_name c \<noteq> [] then Some c else None)"

definition named_response :: "part \<Rightarrow> tool_response option" where
  "named_response p = (case part_response p of None \<Rightarrow> None | Some r \<Rightarrow> if resp_name r \<noteq> [] then Some r else None)"

definition wire_item_of :: "string \<Rightarrow> id_state \<Rightarrow> part \<Rightarrow> wire_item \<times> id_state" where
  "wire_item_of prefix st p =
     (case named_call p of
        Some c \<Rightarrow> (let (tid, st') = call_tid prefix (call_id c) st in (CallItem tid c, st'))
      | None \<Rightarrow>
          (case named_response p of
             Some r \<Rightarrow> (let (tid, st') = result_tid prefix (resp_id r) st in (ResultItem tid r, st'))
           | None \<Rightarrow> (if some_text (part_text p) then TextItem (the (part_text p)) else NoItem, st)))"

fun wire_items :: "string \<Rightarrow> id_state \<Rightarrow> part list \<Rightarrow> wire_item list \<times> id_state" where
  "wire_items prefix st [] = ([], st)"
| "wire_items prefix st (p # ps) =
     (let (x, st1) = wire_item_of prefix st p; (xs, st2) = wire_items prefix st1 ps in (x # xs, st2))"

fun wire_rows :: "string \<Rightarrow> id_state \<Rightarrow> message list \<Rightarrow> (role \<times> wire_item list) list" where
  "wire_rows prefix st [] = []"
| "wire_rows prefix st (m # ms) =
     (let (xs, st') = wire_items prefix st (msg_parts m) in (msg_role m, xs) # wire_rows prefix st' ms)"

fun item_text :: "wire_item \<Rightarrow> string option" where
  "item_text (TextItem t) = Some t"
| "item_text x = None"

section \<open>The OpenAI wire\<close>

text \<open>
  Every content is a text or \<open>None\<close>, as the converter makes it; an empty \<open>om_calls\<close> is an absent
  \<open>tool_calls\<close>.
\<close>

datatype oai_role = SystemR | UserR | AssistantR | ToolR

record oai_call =
  oc_id :: string
  oc_name :: string
  oc_arguments :: string

record oai_message =
  om_role :: oai_role
  om_content :: "string option"
  om_calls :: "oai_call list"
  om_call_id :: "string option"

definition text_message :: "oai_role \<Rightarrow> string \<Rightarrow> oai_message" where
  "text_message r t = \<lparr>om_role = r, om_content = Some t, om_calls = [], om_call_id = None\<rparr>"

text \<open>\<open>json.dumps\<close> without \<open>default\<close> raises a \<open>TypeError\<close> on any other object.\<close>

fun plain_json :: "pyval \<Rightarrow> bool" where
  "plain_json (PObj t) = False"
| "plain_json (PList xs) = list_all plain_json xs"
| "plain_json (PTuple xs) = list_all plain_json xs"
| "plain_json (PDict d) = list_all (\<lambda>kv. plain_json (snd kv)) d"
| "plain_json v = True"

definition dumps :: "(pyfloat \<Rightarrow> string) \<Rightarrow> (string \<times> pyval) list \<Rightarrow> string" where
  "dumps ft d = json_text (plain_style ft) (PDict d)"

fun item_call :: "(pyfloat \<Rightarrow> string) \<Rightarrow> wire_item \<Rightarrow> oai_call option" where
  "item_call ft (CallItem tid c) =
     Some \<lparr>oc_id = tid, oc_name = call_name c, oc_arguments = dumps ft (call_args c)\<rparr>"
| "item_call ft x = None"

fun item_result :: "(pyfloat \<Rightarrow> string) \<Rightarrow> wire_item \<Rightarrow> oai_message option" where
  "item_result ft (ResultItem tid r) =
     Some \<lparr>om_role = ToolR, om_content = Some (dumps ft (resp_result r)), om_calls = [], om_call_id = Some tid\<rparr>"
| "item_result ft x = None"

fun item_raises :: "wire_item \<Rightarrow> bool" where
  "item_raises (CallItem tid c) = (\<not> plain_json (PDict (call_args c)))"
| "item_raises (ResultItem tid r) = (\<not> plain_json (PDict (resp_result r)))"
| "item_raises x = False"

definition openai_row :: "(pyfloat \<Rightarrow> string) \<Rightarrow> role \<times> wire_item list \<Rightarrow> oai_message list" where
  "openai_row ft row =
     (let items = snd row;
          results = List.map_filter (item_result ft) items;
          calls = List.map_filter (item_call ft) items;
          texts = List.map_filter item_text items
      in if results \<noteq> [] then results
         else if calls \<noteq> []
         then [\<lparr>om_role = AssistantR, om_content = (if texts \<noteq> [] then Some (join [newline] texts) else None),
                om_calls = calls, om_call_id = None\<rparr>]
         else if texts \<noteq> []
         then [text_message (if fst row = ModelRole then AssistantR else UserR) (join [newline] texts)]
         else [])"

definition merge_message :: "oai_message \<Rightarrow> oai_message \<Rightarrow> oai_message" where
  "merge_message prev m =
     prev\<lparr>om_content :=
             (case (om_content prev, om_content m) of
                (Some a, Some b) \<Rightarrow> Some (a @ [newline] @ b)
              | _ \<Rightarrow> om_content prev),
          om_calls := om_calls prev @ om_calls m\<rparr>"

definition coalesce_step :: "oai_message list \<Rightarrow> oai_message \<Rightarrow> oai_message list" where
  "coalesce_step merged m =
     (if om_role m = ToolR then merged @ [m]
      else if merged \<noteq> [] \<and> om_role (last merged) = om_role m \<and> om_role (last merged) \<noteq> ToolR
      then butlast merged @ [merge_message (last merged) m]
      else merged @ [m])"

definition coalesce_messages :: "oai_message list \<Rightarrow> oai_message list" where
  "coalesce_messages messages = foldl coalesce_step [] messages"

definition tool_discipline_system :: string where
  "tool_discipline_system =
     ''Fetch and composer tools publish their own layers - only call '' @
     ''publish_layer when you have a handle returned by a previous tool '' @
     ''result, passed verbatim. If a fetch returns no data, say so and stop.''"

definition openai_system_text :: "environ \<Rightarrow> string option \<Rightarrow> bool \<Rightarrow> string" where
  "openai_system_text env system_prompt show_thinking =
     (let extra = env_stripped env ''TRID3NT_OPENAI_EXTRA_SYSTEM'';
          extra = (if extra \<noteq> [] \<and> show_thinking then py_strip (replace_all ''/no_think'' [] extra) else extra);
          with_extra = (if extra = [] then system_prompt
                        else if some_text system_prompt then Some (the system_prompt @ [newline] @ extra)
                        else Some extra)
      in if some_text with_extra then the with_extra @ [newline] @ tool_discipline_system
         else tool_discipline_system)"

text \<open>\<open>None\<close> is the \<open>TypeError\<close> of an argument or result that is no JSON.\<close>

definition contents_to_openai_messages ::
  "(pyfloat \<Rightarrow> string) \<Rightarrow> environ \<Rightarrow> message list \<Rightarrow> string option \<Rightarrow> bool \<Rightarrow> oai_message list option" where
  "contents_to_openai_messages ft env contents system_prompt show_thinking =
     (let rows = wire_rows ''call_'' no_ids contents in
      if list_ex (\<lambda>row. list_ex item_raises (snd row)) rows then None
      else Some (coalesce_messages
             (text_message SystemR (openai_system_text env system_prompt show_thinking) #
              concat (map (openai_row ft) rows))))"

section \<open>The Anthropic wire\<close>

datatype anth_block = ToolUse string string "(string \<times> pyval) list" | ToolResultBlock string string | TextBlock string

record anth_message =
  am_role :: role
  am_blocks :: "anth_block list"

text \<open>A model row is the assistant's.\<close>

fun anth_item :: "(pyfloat \<Rightarrow> string) \<Rightarrow> wire_item \<Rightarrow> anth_block option" where
  "anth_item ft (CallItem tid c) = Some (ToolUse tid (call_name c) (call_args c))"
| "anth_item ft (ResultItem tid r) = Some (ToolResultBlock tid (dumps ft (resp_result r)))"
| "anth_item ft (TextItem t) = (if py_strip t \<noteq> [] then Some (TextBlock t) else None)"
| "anth_item ft NoItem = None"

definition anth_row :: "(pyfloat \<Rightarrow> string) \<Rightarrow> role \<times> wire_item list \<Rightarrow> anth_message option" where
  "anth_row ft row =
     (let blocks = List.map_filter (anth_item ft) (snd row) in
      if blocks \<noteq> [] then Some \<lparr>am_role = fst row, am_blocks = blocks\<rparr> else None)"

definition anth_coalesce_step :: "anth_message list \<Rightarrow> anth_message \<Rightarrow> anth_message list" where
  "anth_coalesce_step merged m =
     (if merged \<noteq> [] \<and> am_role (last merged) = am_role m
      then butlast merged @ [(last merged)\<lparr>am_blocks := am_blocks (last merged) @ am_blocks m\<rparr>]
      else merged @ [m])"

definition anth_coalesce :: "anth_message list \<Rightarrow> anth_message list" where
  "anth_coalesce messages = foldl anth_coalesce_step [] messages"

definition context_message :: anth_message where
  "context_message = \<lparr>am_role = UserRole, am_blocks = [TextBlock ''(context)'']\<rparr>"

definition ensure_messages_start_with_user :: "anth_message list \<Rightarrow> anth_message list" where
  "ensure_messages_start_with_user messages =
     (let from_user = dropWhile (\<lambda>m. am_role m \<noteq> UserRole) messages in
      if from_user = [] then context_message # messages else from_user)"

definition contents_to_anthropic_messages :: "(pyfloat \<Rightarrow> string) \<Rightarrow> message list \<Rightarrow> anth_message list" where
  "contents_to_anthropic_messages ft contents =
     ensure_messages_start_with_user
       (anth_coalesce (List.map_filter (anth_row ft) (wire_rows ''toolu_'' no_ids contents)))"

section \<open>Merging neighbours\<close>

text \<open>
  Both converters fold the rows into a list, joining a row to the last one where the two may
  stand as one. What the joined rows show, seen through \<open>view\<close>, is what the rows showed.
\<close>

locale neighbour_merge =
  fixes joins :: "'m \<Rightarrow> 'm \<Rightarrow> bool"
    and merge :: "'m \<Rightarrow> 'm \<Rightarrow> 'm"
    and step :: "'m list \<Rightarrow> 'm \<Rightarrow> 'm list"
    and view :: "'m \<Rightarrow> 'x list"
  assumes step_eq: "step ms m = (if ms \<noteq> [] \<and> joins (last ms) m then butlast ms @ [merge (last ms) m] else ms @ [m])"
    and joins_merge: "joins a b \<Longrightarrow> joins c (merge a b) = joins c a"
    and view_merge: "joins a b \<Longrightarrow> view (merge a b) = view a @ view b"
begin

lemma step_apart:
  assumes "successively (\<lambda>a b. \<not> joins a b) ms"
  shows "successively (\<lambda>a b. \<not> joins a b) (step ms m)"
proof (cases ms rule: rev_cases)
  case (snoc xs x)
  then show ?thesis using assms
    by (auto simp: step_eq successively_append_iff joins_merge)
qed (simp add: step_eq)

lemma step_view: "concat (map view (step ms m)) = concat (map view ms) @ view m"
  by (cases ms rule: rev_cases) (simp_all add: step_eq view_merge)

lemma merged_apart: "successively (\<lambda>a b. \<not> joins a b) (foldl step [] ms)"
proof -
  have "successively (\<lambda>a b. \<not> joins a b) acc \<Longrightarrow> successively (\<lambda>a b. \<not> joins a b) (foldl step acc ms)" for acc
    by (induction ms arbitrary: acc) (simp_all add: step_apart)
  then show ?thesis by simp
qed

lemma merged_all:
  assumes "\<And>a b. Q a \<Longrightarrow> Q b \<Longrightarrow> joins a b \<Longrightarrow> Q (merge a b)" and "\<forall>m \<in> set ms. Q m"
  shows "\<forall>m \<in> set (foldl step [] ms). Q m"
proof -
  have one: "\<forall>x \<in> set (step acc m). Q x" if "Q m" "\<forall>x \<in> set acc. Q x" for acc m
  proof (cases acc rule: rev_cases)
    case (snoc xs x)
    with that assms(1) [of x m] show ?thesis by (simp add: step_eq)
  qed (use that in \<open>simp add: step_eq\<close>)
  have "\<forall>x \<in> set acc. Q x \<Longrightarrow> \<forall>x \<in> set (foldl step acc ms). Q x" for acc
    using assms(2)
  proof (induction ms arbitrary: acc)
    case (Cons m ms)
    show ?case unfolding foldl_Cons by (rule Cons.IH [OF one]) (use Cons.prems in simp_all)
  qed simp
  from this [of "[]"] show ?thesis by simp
qed

lemma merged_view: "concat (map view (foldl step [] ms)) = concat (map view ms)"
proof -
  have "concat (map view (foldl step acc ms)) = concat (map view acc) @ concat (map view ms)" for acc
    by (induction ms arbitrary: acc) (simp_all add: step_view)
  then show ?thesis by simp
qed

end

text \<open>The calls (\<open>Inl\<close>) and results (\<open>Inr\<close>) of a message, by id.\<close>

type_synonym tool_event = "string + string"

definition oai_joins :: "oai_message \<Rightarrow> oai_message \<Rightarrow> bool" where
  "oai_joins a b \<longleftrightarrow> om_role b \<noteq> ToolR \<and> om_role a = om_role b"

definition oai_events :: "oai_message \<Rightarrow> tool_event list" where
  "oai_events m = map (\<lambda>c. Inl (oc_id c)) (om_calls m) @
     (case om_call_id m of Some tid \<Rightarrow> if om_role m = ToolR then [Inr tid] else [] | None \<Rightarrow> [])"

definition anth_joins :: "anth_message \<Rightarrow> anth_message \<Rightarrow> bool" where
  "anth_joins a b \<longleftrightarrow> am_role a = am_role b"

definition spoken :: "anth_message \<Rightarrow> (role \<times> anth_block) list" where
  "spoken m = map (Pair (am_role m)) (am_blocks m)"

interpretation anth_merge: neighbour_merge anth_joins "\<lambda>a b. a\<lparr>am_blocks := am_blocks a @ am_blocks b\<rparr>"
  anth_coalesce_step spoken
  by unfold_locales (auto simp: anth_coalesce_step_def anth_joins_def spoken_def)

interpretation oai_merge: neighbour_merge oai_joins merge_message coalesce_step oai_events
proof unfold_locales
  fix ms m
  show "coalesce_step ms m =
    (if ms \<noteq> [] \<and> oai_joins (last ms) m then butlast ms @ [merge_message (last ms) m] else ms @ [m])"
    by (auto simp: coalesce_step_def oai_joins_def)
next
  fix a b c
  assume "oai_joins a b"
  then show "oai_joins c (merge_message a b) = oai_joins c a" "oai_events (merge_message a b) = oai_events a @ oai_events b"
    by (auto simp: oai_joins_def oai_events_def merge_message_def split: option.split)
qed

section \<open>Results answer calls\<close>

fun item_events :: "wire_item \<Rightarrow> tool_event list" where
  "item_events (CallItem tid c) = [Inl tid]"
| "item_events (ResultItem tid r) = [Inr tid]"
| "item_events x = []"

definition items_events :: "wire_item list \<Rightarrow> tool_event list" where
  "items_events xs = concat (map item_events xs)"

lemma items_events_simps [simp]:
  "items_events [] = []" "items_events (x # xs) = item_events x @ items_events xs"
  "items_events (xs @ ys) = items_events xs @ items_events ys"
  by (simp_all add: items_events_def)

fun events_paired :: "string list \<Rightarrow> tool_event list \<Rightarrow> bool" where
  "events_paired seen [] = True"
| "events_paired seen (Inl tid # es) = events_paired (seen @ [tid]) es"
| "events_paired seen (Inr tid # es) = (tid \<in> set seen \<and> events_paired seen es)"

text \<open>A row of the history holds calls or responses, not both, all of them named.\<close>

definition unmixed :: "message \<Rightarrow> bool" where
  "unmixed m \<longleftrightarrow> list_all (\<lambda>p. part_call p = None) (msg_parts m) \<or> list_all (\<lambda>p. part_response p = None) (msg_parts m)"

definition part_given :: "part \<Rightarrow> bool" where
  "part_given p \<longleftrightarrow>
     (case part_call p of None \<Rightarrow> True | Some c \<Rightarrow> call_name c \<noteq> [] \<and> some_text (call_id c) \<and> part_response p = None) \<and>
     (case part_response p of None \<Rightarrow> True | Some r \<Rightarrow> resp_name r \<noteq> [] \<and> some_text (resp_id r))"

definition ids_given :: "message \<Rightarrow> bool" where
  "ids_given m \<longleftrightarrow> list_all part_given (msg_parts m)"

lemma wire_items_append:
  "wire_items prefix st (ps @ qs) =
     (let (xs, st1) = wire_items prefix st ps; (ys, st2) = wire_items prefix st1 qs in (xs @ ys, st2))"
  by (induction ps arbitrary: st) (simp_all add: Let_def split: prod.split)

lemma wire_rows_items:
  "concat (map snd (wire_rows prefix st cs)) = fst (wire_items prefix st (concat (map msg_parts cs)))"
  by (induction cs arbitrary: st) (simp_all add: wire_items_append Let_def split: prod.split)

lemma results_events:
  "\<forall>x \<in> set xs. \<forall>tid c. x \<noteq> CallItem tid c \<Longrightarrow>
   concat (map oai_events (List.map_filter (item_result ft) xs)) = items_events xs"
proof (induction xs)
  case (Cons x xs)
  then show ?case by (cases x) (simp_all add: List.map_filter_simps oai_events_def)
qed (simp add: List.map_filter_simps)

lemma calls_events:
  "\<forall>x \<in> set xs. \<forall>tid r. x \<noteq> ResultItem tid r \<Longrightarrow>
   map (\<lambda>c. Inl (oc_id c)) (List.map_filter (item_call ft) xs) = items_events xs"
proof (induction xs)
  case (Cons x xs)
  then show ?case by (cases x) (simp_all add: List.map_filter_simps)
qed (simp add: List.map_filter_simps)

lemma map_filter_Nil: "List.map_filter f xs = [] \<longleftrightarrow> (\<forall>x \<in> set xs. f x = None)"
  by (induction xs) (auto simp: List.map_filter_simps split: option.split)

lemma row_events:
  assumes "(\<forall>x \<in> set xs. \<forall>tid c. x \<noteq> CallItem tid c) \<or> (\<forall>x \<in> set xs. \<forall>tid r. x \<noteq> ResultItem tid r)"
  shows "concat (map oai_events (openai_row ft (r, xs))) = items_events xs"
proof (cases "List.map_filter (item_result ft) xs = []")
  case True
  then have noresult: "\<forall>x \<in> set xs. \<forall>tid r. x \<noteq> ResultItem tid r" unfolding map_filter_Nil by auto
  have "concat (map oai_events (openai_row ft (r, xs))) = map (\<lambda>c. Inl (oc_id c)) (List.map_filter (item_call ft) xs)"
    using True by (simp add: openai_row_def Let_def oai_events_def text_message_def)
  with calls_events [OF noresult] show ?thesis by simp
next
  case False
  then have "\<not> (\<forall>x \<in> set xs. \<forall>tid r. x \<noteq> ResultItem tid r)" unfolding map_filter_Nil
    by (metis item_result.elims)
  with assms have "\<forall>x \<in> set xs. \<forall>tid c. x \<noteq> CallItem tid c" by blast
  from results_events [OF this] False show ?thesis by (simp add: openai_row_def Let_def)
qed

lemma wire_items_kinds:
  "x \<in> set (fst (wire_items prefix st ps)) \<Longrightarrow>
     (\<forall>tid c. x = CallItem tid c \<longrightarrow> (\<exists>p \<in> set ps. part_call p = Some c)) \<and>
     (\<forall>tid r. x = ResultItem tid r \<longrightarrow> (\<exists>p \<in> set ps. part_response p = Some r))"
proof (induction ps arbitrary: st)
  case (Cons p ps)
  obtain y st1 where y: "wire_item_of prefix st p = (y, st1)" by fastforce
  obtain ys st2 where ys: "wire_items prefix st1 ps = (ys, st2)" by fastforce
  have p: "(\<forall>tid c. y = CallItem tid c \<longrightarrow> part_call p = Some c) \<and> (\<forall>tid r. y = ResultItem tid r \<longrightarrow> part_response p = Some r)"
    using y by (auto simp: wire_item_of_def named_call_def named_response_def split: option.splits if_splits prod.splits)
  from Cons.prems y ys have "x = y \<or> x \<in> set ys" by simp
  then show ?case using p Cons.IH [of st1] ys by auto
qed simp

lemma messages_events:
  assumes "list_all unmixed cs" and "contents_to_openai_messages ft env cs sp th = Some ms"
  shows "concat (map oai_events ms) = items_events (fst (wire_items ''call_'' no_ids (concat (map msg_parts cs))))"
proof -
  let ?rows = "wire_rows ''call_'' no_ids cs"
  have row: "concat (map oai_events (openai_row ft row)) = items_events (snd row)"
    if "list_all unmixed ds" "row \<in> set (wire_rows prefix st ds)" for row ds prefix st
    using that
  proof (induction ds arbitrary: st)
    case (Cons d ds)
    obtain xs st' where xs: "wire_items prefix st (msg_parts d) = (xs, st')" by fastforce
    show ?case
    proof (cases "row = (msg_role d, xs)")
      case True
      have "(\<forall>x \<in> set xs. \<forall>tid c. x \<noteq> CallItem tid c) \<or> (\<forall>x \<in> set xs. \<forall>tid r. x \<noteq> ResultItem tid r)"
      proof -
        have "unmixed d" using Cons.prems(1) by simp
        then consider "\<forall>p \<in> set (msg_parts d). part_call p = None" | "\<forall>p \<in> set (msg_parts d). part_response p = None"
          unfolding unmixed_def list_all_iff by blast
        then show ?thesis
        proof cases
          case 1
          then have "x \<noteq> CallItem tid c" if "x \<in> set xs" for x tid c
            using wire_items_kinds [of x prefix st "msg_parts d"] that unfolding xs fst_conv by fastforce
          then show ?thesis by blast
        next
          case 2
          then have "x \<noteq> ResultItem tid r" if "x \<in> set xs" for x tid r
            using wire_items_kinds [of x prefix st "msg_parts d"] that unfolding xs fst_conv by fastforce
          then show ?thesis by blast
        qed
      qed
      from row_events [OF this] True show ?thesis by simp
    next
      case False
      with Cons.prems xs have "row \<in> set (wire_rows prefix st' ds)" by (simp add: Let_def)
      with Cons show ?thesis by simp
    qed
  qed simp
  have "concat (map oai_events (concat (map (openai_row ft) ?rows))) = items_events (concat (map snd ?rows))"
  proof -
    have "concat (map oai_events (concat (map (openai_row ft) rs))) = items_events (concat (map snd rs))"
      if "set rs \<subseteq> set ?rows" for rs
      using that by (induction rs) (simp_all add: row [OF assms(1), where prefix = "''call_''" and st = no_ids])
    then show ?thesis by blast
  qed
  moreover have "ms = coalesce_messages (text_message SystemR (openai_system_text env sp th) # concat (map (openai_row ft) ?rows))"
    using assms(2) by (simp add: contents_to_openai_messages_def Let_def split: if_splits)
  moreover have "oai_events (text_message SystemR t) = []" for t by (simp add: oai_events_def text_message_def)
  ultimately show ?thesis
    by (simp only: coalesce_messages_def oai_merge.merged_view wire_rows_items list.map concat.simps append_Nil)
qed

fun parts_paired :: "string option list \<Rightarrow> part list \<Rightarrow> bool" where
  "parts_paired seen [] = True"
| "parts_paired seen (p # ps) =
     ((case part_response p of None \<Rightarrow> True | Some r \<Rightarrow> resp_id r \<in> set seen) \<and>
      parts_paired (seen @ (case part_call p of None \<Rightarrow> [] | Some c \<Rightarrow> [call_id c])) ps)"

lemma parts_paired_append:
  "parts_paired seen (ps @ qs) =
     (parts_paired seen ps \<and> parts_paired (seen @ map call_id (List.map_filter part_call ps)) qs)"
  by (induction ps arbitrary: seen) (simp_all add: List.map_filter_simps split: option.split)

lemma parts_paired_responses:
  "list_all (\<lambda>p. case part_response p of None \<Rightarrow> True | Some r \<Rightarrow> resp_id r \<in> set seen) ps \<Longrightarrow>
   set seen \<subseteq> set seen' \<Longrightarrow> parts_paired seen' ps"
proof (induction ps arbitrary: seen')
  case (Cons p ps)
  have "parts_paired (seen' @ (case part_call p of None \<Rightarrow> [] | Some c \<Rightarrow> [call_id c])) ps"
    by (rule Cons.IH) (use Cons.prems in auto)
  with Cons.prems show ?case by (auto split: option.splits)
qed simp

lemma responses_parts_paired: "responses_paired seen cs \<Longrightarrow> parts_paired seen (concat (map msg_parts cs))"
  by (induction cs arbitrary: seen)
     (simp_all add: parts_paired_append parts_paired_responses [OF _ subset_refl] List.member_iff cong: option.case_cong)

lemma given_events_paired:
  "list_all ids_given cs \<Longrightarrow> parts_paired (map Some seen) (concat (map msg_parts cs)) \<Longrightarrow>
   events_paired seen (items_events (fst (wire_items prefix st (concat (map msg_parts cs)))))"
proof -
  have "events_paired seen (items_events (fst (wire_items prefix st ps)))"
    if "list_all part_given ps" "parts_paired (map Some seen) ps" for ps
    using that
  proof (induction ps arbitrary: seen st)
    case (Cons p ps)
    note given = Cons.prems(1)
    show ?case
    proof (cases "part_call p")
      case call: (Some c)
      then obtain cid where c: "call_id c = Some cid" "call_name c \<noteq> []" "cid \<noteq> []" "part_response p = None"
        using given by (cases "call_id c") (auto simp: part_given_def)
      then have "parts_paired (map Some (seen @ [cid])) ps" using Cons.prems(2) call by simp
      from Cons.IH [OF _ this] given show ?thesis using c call
        by (simp add: wire_item_of_def named_call_def call_tid_def Let_def split_beta)
    next
      case nocall: None
      show ?thesis
      proof (cases "part_response p")
        case (Some r)
        then obtain rid where r: "resp_id r = Some rid" "resp_name r \<noteq> []" "rid \<noteq> []"
          using given by (cases "resp_id r") (auto simp: part_given_def)
        then have "rid \<in> set seen" "parts_paired (map Some seen) ps" using Cons.prems(2) Some nocall by auto
        with Cons.IH [OF _ this(2)] given show ?thesis using r Some nocall
          by (simp add: wire_item_of_def named_call_def named_response_def result_tid_def Let_def split_beta)
      next
        case None
        then have "parts_paired (map Some seen) ps" using Cons.prems(2) nocall by simp
        from Cons.IH [OF _ this] given show ?thesis using None nocall
          by (simp add: wire_item_of_def named_call_def named_response_def Let_def split_beta)
      qed
    qed
  qed simp
  note paired = this
  assume given: "list_all ids_given cs" and parts: "parts_paired (map Some seen) (concat (map msg_parts cs))"
  from given have "list_all part_given (concat (map msg_parts cs))" by (auto simp: list_all_iff ids_given_def)
  from paired [OF this parts] show ?thesis .
qed

text \<open>Both conditions on a row are read off its skeleton, which compaction keeps for a tool row.\<close>

lemma part_given_skeleton: "part_skeleton p = part_skeleton q \<Longrightarrow> part_given p = part_given q"
  by (cases "part_response p"; cases "part_response q") (auto simp: part_skeleton_def part_given_def split: option.split)

lemma list_all_same_view:
  assumes eq: "map f xs = map f ys" and same: "\<And>x y. f x = f y \<Longrightarrow> P x = P y"
  shows "list_all P xs = list_all P ys"
  using eq
proof (induction xs arbitrary: ys)
  case (Cons x xs)
  then obtain y zs where ys: "ys = y # zs" "f x = f y" "map f xs = map f zs" by (cases ys) auto
  from Cons.IH [OF ys(3)] same [OF ys(2)] show ?case by (simp only: ys(1) list.pred_inject)
qed simp

lemma wire_ready_skeleton:
  assumes "skeleton m = skeleton m'"
  shows "(ids_given m \<and> unmixed m) = (ids_given m' \<and> unmixed m')"
proof -
  have "map part_skeleton (msg_parts m) = map part_skeleton (msg_parts m')" using assms by (simp add: skeleton_def)
  note same = list_all_same_view [OF this]
  have "ids_given m = ids_given m'" unfolding ids_given_def by (rule same) (rule part_given_skeleton)
  moreover have "list_all (\<lambda>p. part_call p = None) (msg_parts m) = list_all (\<lambda>p. part_call p = None) (msg_parts m')"
    "list_all (\<lambda>p. part_response p = None) (msg_parts m) = list_all (\<lambda>p. part_response p = None) (msg_parts m')"
    by (rule same; auto simp: part_skeleton_def map_option_case split: option.splits)+
  ultimately show ?thesis by (simp add: unmixed_def)
qed

lemma narration_ready: "\<not> tool_row m \<Longrightarrow> ids_given m \<and> unmixed m"
  by (auto simp: tool_row_def is_droppable_row_def ids_given_def part_given_def unmixed_def list_all_iff)

lemma wire_ready_tool_rows:
  "list_all (\<lambda>m. ids_given m \<and> unmixed m) cs = list_all (\<lambda>m. ids_given m \<and> unmixed m) (filter tool_row cs)"
  using narration_ready by (induction cs) auto

lemma wire_ready_compacted:
  assumes "map skeleton (filter tool_row ds) = map skeleton (filter tool_row cs)"
    and "list_all (\<lambda>m. ids_given m \<and> unmixed m) cs"
  shows "list_all (\<lambda>m. ids_given m \<and> unmixed m) ds"
  using list_all_same_view [OF assms(1), of "\<lambda>m. ids_given m \<and> unmixed m", OF wire_ready_skeleton] assms(2)
  unfolding wire_ready_tool_rows [of cs] wire_ready_tool_rows [of ds] by blast

lemma openai_messages_apart:
  assumes "contents_to_openai_messages ft env cs sp th = Some ms"
  shows "successively (\<lambda>a b. \<not> oai_joins a b) ms"
proof -
  have "ms = foldl coalesce_step [] (text_message SystemR (openai_system_text env sp th) #
      concat (map (openai_row ft) (wire_rows ''call_'' no_ids cs)))"
    using assms by (simp add: contents_to_openai_messages_def coalesce_messages_def Let_def split: if_split_asm)
  then show ?thesis by (simp only: oai_merge.merged_apart)
qed


text \<open>
  a history whose providers gave ids to some calls only can answer the wrong call: after a
  round whose ids were given, a result without one takes the id of the call answered before,
  and its own call, \<open>call_2\<close>, is never answered.
\<close>

theorem mixed_ids_mispair:
  "\<exists>ms. contents_to_openai_messages ft env
      [call_message ''f'' None None, response_message ''f'' None None,
       call_message ''g'' None (Some ''a''), response_message ''g'' None (Some ''a''),
       call_message ''h'' None None, response_message ''h'' None None] sp th = Some ms \<and>
     concat (map oai_events ms) =
       [Inl ''call_1'', Inr ''call_1'', Inl ''a'', Inr ''a'', Inl ''call_2'', Inr ''a'']"
proof -
  let ?cs = "[call_message ''f'' None None, response_message ''f'' None None,
       call_message ''g'' None (Some ''a''), response_message ''g'' None (Some ''a''),
       call_message ''h'' None None, response_message ''h'' None None]"
  have show12: "show_nat 1 = ''1''" "show_nat (Suc 0) = ''1''" "show_nat 2 = ''2''" "show_nat (Suc (Suc 0)) = ''2''" by code_simp+
  note rows = wire_item_of_def named_call_def named_response_def call_tid_def result_tid_def next_id_def no_ids_def
    call_message_def response_message_def call_part_def response_part_def
  obtain ms where ms: "contents_to_openai_messages ft env ?cs sp th = Some ms"
    by (simp add: contents_to_openai_messages_def rows Let_def)
  have unmixed: "list_all unmixed ?cs"
    by (simp add: unmixed_def call_message_def response_message_def call_part_def response_part_def)
  have "items_events (fst (wire_items ''call_'' no_ids (concat (map msg_parts ?cs)))) =
      [Inl ''call_1'', Inr ''call_1'', Inl ''a'', Inr ''a'', Inl ''call_2'', Inr ''a'']"
    by (simp add: rows Let_def show12)
  then have "concat (map oai_events ms) = [Inl ''call_1'', Inr ''call_1'', Inl ''a'', Inr ''a'', Inl ''call_2'', Inr ''a'']"
    by (simp only: messages_events [OF unmixed ms])
  with ms show ?thesis by blast
qed


section \<open>What the Anthropic wire looks like\<close>

text \<open>A block the API takes: no blank text.\<close>

definition block_ok :: "anth_block \<Rightarrow> bool" where
  "block_ok b \<longleftrightarrow> (case b of TextBlock t \<Rightarrow> py_strip t \<noteq> [] | _ \<Rightarrow> True)"

definition anth_ok :: "anth_message \<Rightarrow> bool" where
  "anth_ok m \<longleftrightarrow> am_blocks m \<noteq> [] \<and> list_all block_ok (am_blocks m)"

lemma anth_item_ok: "anth_item ft x = Some b \<Longrightarrow> block_ok b"
  by (cases x) (auto simp: block_ok_def split: if_splits)

lemma anth_row_ok: "anth_row ft row = Some m \<Longrightarrow> anth_ok m"
  by (auto simp: anth_row_def anth_ok_def Let_def list_all_iff List.map_filter_def anth_item_ok split: if_splits)

lemma anth_merged_ok:
  "\<forall>m \<in> set (anth_coalesce (List.map_filter (anth_row ft) rows)). anth_ok m"
  unfolding anth_coalesce_def
proof (rule anth_merge.merged_all)
  show "\<forall>m \<in> set (List.map_filter (anth_row ft) rows). anth_ok m"
    by (auto simp: List.map_filter_def anth_row_ok)
qed (simp add: anth_ok_def)

lemma successively_dropWhile: "successively P xs \<Longrightarrow> successively P (dropWhile Q xs)"
  by (induction xs rule: induct_list012) simp_all


section \<open>Compaction and the Anthropic wire\<close>

text \<open>A request whose tool result stands without any call.\<close>

definition orphaned :: "string \<Rightarrow> anth_message list \<Rightarrow> bool" where
  "orphaned tid ms \<longleftrightarrow>
     list_ex (\<lambda>m. list_ex (\<lambda>b. case b of ToolResultBlock t _ \<Rightarrow> t = tid | _ \<Rightarrow> False) (am_blocks m)) ms \<and>
     list_all (\<lambda>m. list_all (\<lambda>b. case b of ToolUse _ _ _ \<Rightarrow> False | _ \<Rightarrow> True) (am_blocks m)) ms"

lemma leading_call_orphans:
  assumes "name \<noteq> []" and "tid \<noteq> []" and "py_strip note \<noteq> []" and "py_strip now \<noteq> []"
  shows "orphaned tid (contents_to_anthropic_messages ft
      [call_message name args (Some tid), response_message name res (Some tid), model_text_message note,
       user_text_message now])"
proof -
  have texts: "note \<noteq> []" "now \<noteq> []" using assms(3,4) by (auto simp: py_strip_def)
  note rows = wire_item_of_def named_call_def named_response_def call_tid_def result_tid_def
    call_message_def response_message_def call_part_def response_part_def model_text_message_def user_text_message_def text_part_def
  show ?thesis using assms texts
    by (simp add: contents_to_anthropic_messages_def rows Let_def anth_row_def List.map_filter_simps anth_coalesce_def
        anth_coalesce_step_def ensure_messages_start_with_user_def orphaned_def)
qed

lemma short_text_kept:
  "length t \<le> n \<Longrightarrow> fst (cap_text_parts n (user_text_message t)) = user_text_message t"
  "length t \<le> n \<Longrightarrow> fst (cap_text_parts n (model_text_message t)) = model_text_message t"
  by (simp_all add: cap_text_parts_def rewrite_parts_def user_text_message_def model_text_message_def cap_text_part_def text_part_def)

lemma drop_first_only:
  assumes "is_droppable_row u" and "over (u # ws)" and "\<not> over ws"
  shows "drop_rows over (u # ws) 0 = (ws, 1)"
  using assms by (simp add: drop_rows.simps [of over "u # ws"] drop_rows.simps [of over ws])

text \<open>
  C22: compaction that drops the opening question leaves a tool call first; the history is still
  paired, but the Anthropic request made of it drops the call with the assistant front and keeps
  its result, which the API refuses.
\<close>

theorem compaction_orphans_tool_result:
  assumes "name \<noteq> []" and "tid \<noteq> []" and "py_strip note \<noteq> []" and "py_strip now \<noteq> []"
    and "list_all (\<lambda>t. length t \<le> contents_normalize_char_cap) [asked, note, now]"
    and "compaction_target bt tr < estimate_tokens_for_contents env
        [user_text_message asked, call_message name args (Some tid), response_message name res (Some tid),
         model_text_message note, user_text_message now]"
    and "estimate_tokens_for_contents env
        [call_message name args (Some tid), response_message name res (Some tid),
         model_text_message note, user_text_message now] \<le> compaction_target bt tr"
  shows "let kept = res_contents (compact_contents env
        [user_text_message asked, call_message name args (Some tid), response_message name res (Some tid),
         model_text_message note, user_text_message now] bt tr ho no)
     in responses_paired [] kept \<and> orphaned tid (contents_to_anthropic_messages ft kept)"
proof -
  let ?work = "[call_message name args (Some tid), response_message name res (Some tid)]"
  let ?tail = "[model_text_message note, user_text_message now]"
  let ?cs = "user_text_message asked # ?work @ ?tail"
  have norm: "normalize_contents_row_sizes contents_normalize_char_cap ?cs = ?cs"
    using assms(5) unfolding normalized_def [symmetric] normalized_map by (simp add: short_text_kept unchanged_call_row)
  have over: "over_target env (compaction_target bt tr) ?tail (user_text_message asked # ?work)"
    "\<not> over_target env (compaction_target bt tr) ?tail ?work"
    using assms(6,7) by (simp_all add: over_target_estimate)
  have "is_droppable_row (user_text_message asked)"
    by (simp add: is_droppable_row_def user_text_message_def text_part_def)
  from drop_first_only [OF this over]
  have ladder: "run_ladder env (compaction_target bt tr) hc nc (user_text_message asked # ?work) ?tail =
      (?work, ?tail, 1, 0, False)" for hc nc
    using over by (simp add: run_ladder_def Let_def)
  have split: "take (length ?cs - protected_tail_len ?cs) ?cs = user_text_message asked # ?work"
    "drop (length ?cs - protected_tail_len ?cs) ?cs = ?tail"
    by (simp_all add: protected_tail_len_def)
  have kept: "res_contents (compact_contents env ?cs bt tr ho no) = ?work @ ?tail"
    unfolding compact_contents_def norm Let_def split using over(1) by (simp add: ladder)
  have "responses_paired [] (?work @ ?tail)"
    by (simp add: call_message_def response_message_def call_part_def response_part_def model_text_message_def
        user_text_message_def text_part_def List.map_filter_simps List.member_iff)
  with kept leading_call_orphans [OF assms(1-4)] show ?thesis by (simp add: Let_def)
qed

theorem compaction_orphans_tool_result_witness:
  "orphaned ''a'' (contents_to_anthropic_messages (\<lambda>f. []) (res_contents (compact_contents sample_env
      [user_text_message ''q'', call_message ''f'' None (Some ''a''), response_message ''f'' None (Some ''a''),
       model_text_message ''n'', user_text_message ''u''] 16 (3/4) None None)))"
proof -
  have strip: "py_strip ''n'' \<noteq> []" "py_strip ''u'' \<noteq> []" by (simp_all add: py_strip_def is_space_def char_code_def)
  have "compaction_target 16 (3/4) = 12" by (simp add: compaction_target_def trunc_rat_def)
  then show ?thesis
    using compaction_orphans_tool_result [of "''f''" "''a''" "''n''" "''u''" "''q''" 16 "3/4" sample_env None None None None "\<lambda>f. []"] strip
    by (simp add: contents_normalize_char_cap_def Let_def)
qed

end
