(* ===== verification/ChatHistory.thy ===== *)
theory ChatHistory
  imports FetchCache Compaction PyNumbers
begin

text \<open>
  The history a turn starts from, of trid3nt_server/model/adapters/adapter.py: a reopened Case's
  rows become the chat history, the chat history and the user's text the contents, and parts are
  stored and read back as a blob. Decoding JSON is the parameter \<open>loads\<close>.
\<close>

section \<open>Values of a history entry\<close>

text \<open>A value of an entry: bytes, or any other.\<close>

datatype history_value = EntryBytes string | EntryVal pyval

type_synonym chat_entry = "(string, history_value) dict"

text \<open>
  The exceptions that can leave these functions: a model that does not validate (\<open>str\<close> fields
  take strings, \<open>dict\<close> fields dictionaries), a join or \<open>strip\<close> of no string, an integer no
  double holds.
\<close>

datatype history_error = InvalidModel | NotAString | TooLarge

fun entry_truth :: "history_value \<Rightarrow> bool" where
  "entry_truth (EntryBytes b) = (b \<noteq> [])"
| "entry_truth (EntryVal v) = py_truth v"

definition never_rehydrate_fields :: "string list" where
  "never_rehydrate_fields = [''thinking'']"

definition strip_never_rehydrate :: "(string, 'v) dict \<Rightarrow> (string, 'v) dict" where
  "strip_never_rehydrate entry = filter (\<lambda>kv. fst kv \<notin> set never_rehydrate_fields) entry"

section \<open>Parts as a blob\<close>

text \<open>An optional string field, a name field given as \<open>v or ""\<close> and a dictionary given as \<open>v or {}\<close>.\<close>

definition opt_text_field :: "pyval \<Rightarrow> history_error + string option" where
  "opt_text_field v = (case v of PNone \<Rightarrow> Inr None | PStr s \<Rightarrow> Inr (Some s) | _ \<Rightarrow> Inl InvalidModel)"

definition name_field :: "pyval \<Rightarrow> history_error + string" where
  "name_field v = (if \<not> py_truth v then Inr [] else case v of PStr s \<Rightarrow> Inr s | _ \<Rightarrow> Inl InvalidModel)"

definition dict_field :: "pyval \<Rightarrow> history_error + (string, pyval) dict" where
  "dict_field v = (if \<not> py_truth v then Inr [] else case v of PDict d \<Rightarrow> Inr d | _ \<Rightarrow> Inl InvalidModel)"

definition decode_call :: "(string, pyval) dict \<Rightarrow> history_error + tool_call" where
  "decode_call fc =
     (case (name_field (pget fc ''name''), dict_field (pget fc ''args''), opt_text_field (pget fc ''id'')) of
        (Inr n, Inr a, Inr i) \<Rightarrow> Inr \<lparr>call_name = n, call_args = a, call_id = i\<rparr>
      | _ \<Rightarrow> Inl InvalidModel)"

definition decode_response :: "(string, pyval) dict \<Rightarrow> history_error + tool_response" where
  "decode_response fr =
     (case (name_field (pget fr ''name''), dict_field (pget fr ''response''), opt_text_field (pget fr ''id'')) of
        (Inr n, Inr r, Inr i) \<Rightarrow> Inr \<lparr>resp_name = n, resp_result = r, resp_id = i\<rparr>
      | _ \<Rightarrow> Inl InvalidModel)"

text \<open>An absent field is no call; a field that is a dictionary must be one that validates.\<close>

definition optional_dict :: "((string, pyval) dict \<Rightarrow> history_error + 'a) \<Rightarrow> pyval \<Rightarrow> history_error + 'a option" where
  "optional_dict decode v =
     (case v of PDict d \<Rightarrow> (case decode d of Inl e \<Rightarrow> Inl e | Inr a \<Rightarrow> Inr (Some a)) | _ \<Rightarrow> Inr None)"

text \<open>
  One entry of a blob. The call and response are built before the \<open>try\<close>, so what does not
  validate raises; a text that is no string fails in the \<open>try\<close> and drops the part (\<open>Inr None\<close>).
\<close>

definition decode_part :: "pyval \<Rightarrow> history_error + part option" where
  "decode_part entry =
     (case entry of
        PDict e0 \<Rightarrow>
          (let e = strip_never_rehydrate e0; t = pget e ''text'' in
           case optional_dict decode_call (pget e ''function_call'') of
             Inl err \<Rightarrow> Inl err
           | Inr c \<Rightarrow>
               (case optional_dict decode_response (pget e ''function_response'') of
                  Inl err \<Rightarrow> Inl err
                | Inr r \<Rightarrow>
                    (if \<not> py_truth t \<and> c = None \<and> r = None then Inr None
                     else if \<not> py_truth t then Inr (Some \<lparr>part_text = None, part_call = c, part_response = r\<rparr>)
                     else (case t of
                             PStr s \<Rightarrow> Inr (Some \<lparr>part_text = Some s, part_call = c, part_response = r\<rparr>)
                           | _ \<Rightarrow> Inr None))))
      | _ \<Rightarrow> Inr None)"

fun decode_entries :: "pyval list \<Rightarrow> history_error + part list" where
  "decode_entries [] = Inr []"
| "decode_entries (x # xs) =
     (case decode_part x of
        Inl e \<Rightarrow> Inl e
      | Inr p \<Rightarrow> (case decode_entries xs of
                    Inl e \<Rightarrow> Inl e
                  | Inr ps \<Rightarrow> Inr (case p of None \<Rightarrow> ps | Some q \<Rightarrow> q # ps)))"

definition raw_blob :: "(string \<Rightarrow> pyval option) \<Rightarrow> history_value \<Rightarrow> pyval option" where
  "raw_blob loads blob =
     (case blob of
        EntryBytes b \<Rightarrow> loads b
      | EntryVal (PStr s) \<Rightarrow> loads s
      | EntryVal (PList xs) \<Rightarrow> Some (PList xs)
      | EntryVal (PDict d) \<Rightarrow> Some (PDict d)
      | _ \<Rightarrow> None)"

definition decode_parts_blob :: "(string \<Rightarrow> pyval option) \<Rightarrow> history_value \<Rightarrow> history_error + part list option" where
  "decode_parts_blob loads blob =
     (case raw_blob loads blob of
        None \<Rightarrow> Inr None
      | Some raw \<Rightarrow>
          (let entries = (case raw of PDict d \<Rightarrow> [PDict d] | PList xs \<Rightarrow> xs | _ \<Rightarrow> []) in
           case decode_entries entries of
             Inl e \<Rightarrow> Inl e
           | Inr ps \<Rightarrow> Inr (if ps = [] then None else Some ps)))"

definition opt_pystr :: "string option \<Rightarrow> pyval" where
  "opt_pystr v = (case v of None \<Rightarrow> PNone | Some t \<Rightarrow> PStr t)"

definition encode_part :: "part \<Rightarrow> (string, pyval) dict" where
  "encode_part p =
     (if some_text (part_text p) then [(''text'', PStr (the (part_text p)))] else []) @
     (case part_call p of
        None \<Rightarrow> []
      | Some c \<Rightarrow> if call_name c = [] then []
                  else [(''function_call'', PDict [(''name'', PStr (call_name c)), (''id'', opt_pystr (call_id c)),
                           (''args'', PDict (call_args c))])]) @
     (case part_response p of
        None \<Rightarrow> []
      | Some r \<Rightarrow> if resp_name r = [] then []
                  else [(''function_response'', PDict [(''name'', PStr (resp_name r)), (''id'', opt_pystr (resp_id r)),
                           (''response'', PDict (resp_result r))])])"

definition encoded_parts :: "part list \<Rightarrow> pyval" where
  "encoded_parts parts = PList (map PDict (filter (\<lambda>e. e \<noteq> []) (map encode_part parts)))"

text \<open>\<open>encode_parts_blob\<close>, of parts whose values are JSON.\<close>

definition encode_parts_blob :: "(pyfloat \<Rightarrow> string) \<Rightarrow> part list \<Rightarrow> string" where
  "encode_parts_blob ft parts = json_text (plain_style ft) (encoded_parts parts)"

section \<open>Contents from a history\<close>

definition entry_field :: "chat_entry \<Rightarrow> string \<Rightarrow> history_value" where
  "entry_field e k = dget_or e k (EntryVal PNone)"

definition ir_role :: "chat_entry \<Rightarrow> role" where
  "ir_role e =
     (if dget_or e ''role'' (EntryVal (PStr ''user'')) \<in>
           set (map (\<lambda>r. EntryVal (PStr r)) [''agent'', ''assistant'', ''model''])
      then ModelRole else UserRole)"

text \<open>A text field takes bytes as well; a row without text or parts is dropped.\<close>

definition text_row :: "role \<Rightarrow> history_value \<Rightarrow> history_error + message option" where
  "text_row r t =
     (if \<not> entry_truth t then Inr None
      else (case t of
              EntryBytes b \<Rightarrow> Inr (Some \<lparr>msg_role = r, msg_parts = [text_part b]\<rparr>)
            | EntryVal (PStr s) \<Rightarrow> Inr (Some \<lparr>msg_role = r, msg_parts = [text_part s]\<rparr>)
            | _ \<Rightarrow> Inl InvalidModel))"

definition contents_row :: "(string \<Rightarrow> pyval option) \<Rightarrow> chat_entry \<Rightarrow> history_error + message option" where
  "contents_row loads entry0 =
     (let entry = strip_never_rehydrate entry0 in
      case (if entry_field entry ''parts_blob'' = EntryVal PNone then Inr None
            else decode_parts_blob loads (entry_field entry ''parts_blob'')) of
        Inl e \<Rightarrow> Inl e
      | Inr (Some parts) \<Rightarrow> Inr (Some \<lparr>msg_role = ir_role entry, msg_parts = parts\<rparr>)
      | Inr None \<Rightarrow> text_row (ir_role entry) (dget_or entry ''text'' (EntryVal (PStr []))))"

fun contents_rows :: "(string \<Rightarrow> pyval option) \<Rightarrow> chat_entry list \<Rightarrow> history_error + message list" where
  "contents_rows loads [] = Inr []"
| "contents_rows loads (e # es) =
     (case contents_row loads e of
        Inl err \<Rightarrow> Inl err
      | Inr m \<Rightarrow> (case contents_rows loads es of
                    Inl err \<Rightarrow> Inl err
                  | Inr ms \<Rightarrow> Inr (case m of None \<Rightarrow> ms | Some r \<Rightarrow> r # ms)))"

definition build_contents_from_history ::
  "(string \<Rightarrow> pyval option) \<Rightarrow> string \<Rightarrow> chat_entry list \<Rightarrow> history_error + message list" where
  "build_contents_from_history loads user_text chat_history =
     (case contents_rows loads chat_history of
        Inl e \<Rightarrow> Inl e
      | Inr ms \<Rightarrow> Inr (ms @ [user_text_message user_text]))"

section \<open>The Case-state note\<close>

text \<open>
  The texts of a float (\<open>tf_float\<close>), of one rounded to four digits (\<open>tf_round4\<close>) and of any
  other value (\<open>tf_rep\<close>) are parameters.
\<close>

record text_fns =
  tf_rep :: "pyval \<Rightarrow> string"
  tf_float :: "pyfloat \<Rightarrow> string"
  tf_round4 :: "pyfloat \<Rightarrow> string"

fun floats_of_values :: "pyval list \<Rightarrow> bool + pyfloat list" where
  "floats_of_values [] = Inr []"
| "floats_of_values (v # vs) =
     (case float_of_value v of
        Inl e \<Rightarrow> Inl e
      | Inr f \<Rightarrow> (case floats_of_values vs of Inl e \<Rightarrow> Inl e | Inr fs \<Rightarrow> Inr (f # fs)))"

definition box_items :: "pyval \<Rightarrow> pyval list option" where
  "box_items v =
     (case v of
        PList xs \<Rightarrow> if length xs = 4 then Some xs else None
      | PTuple xs \<Rightarrow> if length xs = 4 then Some xs else None
      | _ \<Rightarrow> None)"

text \<open>A box as \<open>[a, b, c, d]\<close>, \<open>None\<close> where it is none; only the overflow gets out.\<close>

definition box_text :: "(pyfloat \<Rightarrow> string) \<Rightarrow> pyval \<Rightarrow> history_error + string option" where
  "box_text num v =
     (case box_items v of
        None \<Rightarrow> Inr None
      | Some xs \<Rightarrow>
          (case floats_of_values xs of
             Inl True \<Rightarrow> Inl TooLarge
           | Inl False \<Rightarrow> Inr None
           | Inr fs \<Rightarrow> Inr (Some (''['' @ join '', '' (map num fs) @ '']''))))"

definition format_layer_bbox :: "text_fns \<Rightarrow> pyval \<Rightarrow> history_error + string option" where
  "format_layer_bbox tf bbox = box_text (tf_round4 tf) bbox"

definition format_aoi_bbox_line :: "text_fns \<Rightarrow> pyval \<Rightarrow> history_error + string option" where
  "format_aoi_bbox_line tf case_bbox =
     (case box_text (tf_float tf) case_bbox of
        Inl e \<Rightarrow> Inl e
      | Inr None \<Rightarrow> Inr None
      | Inr (Some box) \<Rightarrow> Inr (Some (''Case AOI bbox [lon_min, lat_min, lon_max, lat_max] = '' @ box @
     ''. REUSE this exact extent for any follow-up data fetch or clip in this Case - do NOT '' @
     ''re-derive or re-geocode the area.'')))"

definition role_label :: "(string, pyval) dict \<Rightarrow> string" where
  "role_label layer =
     (if pget layer ''role'' = PStr ''primary'' then ''RESULT''
      else (case parse_cache_path (case pget layer ''uri'' of PStr u \<Rightarrow> Some u | _ \<Rightarrow> None) of
              Some (source_class, key) \<Rightarrow> ''INPUT['' @ source_class @ '']''
            | None \<Rightarrow> ''INPUT''))"

text \<open>A \<open>layer_type\<close> that is no string fails in the join of the parts.\<close>

definition layer_line :: "text_fns \<Rightarrow> (string, pyval) dict \<Rightarrow> history_error + string" where
  "layer_line tf layer =
     (let layer_id = py_or (pget layer ''layer_id'') (PStr ''?'');
          id_text = py_str (tf_rep tf) layer_id;
          name = py_str (tf_rep tf) (py_or (pget layer ''name'') layer_id)
      in case format_layer_bbox tf (pget layer ''bbox'') of
           Inl e \<Rightarrow> Inl e
         | Inr bbox \<Rightarrow>
             (case py_or (pget layer ''layer_type'') (PStr ''?'') of
                PStr layer_type \<Rightarrow>
                  Inr (''- '' @ name @ '' ('' @ join '', ''
                    ([''id='' @ id_text, role_label layer, layer_type, ''handle='' @ id_text] @
                     (case bbox of Some b \<Rightarrow> [''bbox='' @ b] | None \<Rightarrow> []) @
                     (case pget layer ''uri'' of PStr u \<Rightarrow> if u \<noteq> [] then [''uri='' @ u] else [] | _ \<Rightarrow> [])) @ '')'')
              | _ \<Rightarrow> Inl NotAString))"

fun layer_lines :: "text_fns \<Rightarrow> pyval list \<Rightarrow> history_error + string list" where
  "layer_lines tf [] = Inr []"
| "layer_lines tf (PDict layer # ls) =
     (case layer_line tf layer of
        Inl e \<Rightarrow> Inl e
      | Inr line \<Rightarrow> (case layer_lines tf ls of Inl e \<Rightarrow> Inl e | Inr lines \<Rightarrow> Inr (line # lines)))"
| "layer_lines tf (l # ls) = layer_lines tf ls"

definition reuse_head :: string where
  "reuse_head =
     ''These layers are ALREADY produced and on the map for this Case. Lines tagged RESULT are '' @
     ''finished simulation / analysis OUTPUTS for this AOI - the work that made them is DONE. '' @
     ''Lines tagged INPUT (or INPUT[<dataset>], naming the dataset the bytes were fetched from) '' @
     ''are fetched / context layers ALREADY on the map. REUSE these (pass their handle/uri '' @
     ''DIRECTLY to the next tool) - do NOT re-run, re-fetch, or recompute them:'' @
     [newline]"

definition reuse_tail :: string where
  "reuse_tail =
     [newline] @
     ''If a RESULT already answers the user's request for this AOI and parameters, narrate from '' @
     ''it and pass its handle onward (e.g. an existing flood-depth RESULT feeds the next '' @
     ''analysis directly, sampled or composed in code_exec rather than re-simulated). Re-running '' @
     ''the expensive simulation that produced an existing RESULT is FORBIDDEN unless the user '' @
     ''changes the area / parameters or explicitly asks to re-run. Do NOT re-fetch or recompute '' @
     ''a layer already listed here unless it is genuinely absent.'' @
     [newline] @
     ''FETCHED LAYER REUSE (HARD RULE): a fetched layer (INPUT[<dataset>]) for this AOI is '' @
     ''ALREADY on the map. A follow-up to FIT, ZOOM, RESIZE the box, or 'encompass all the '' @
     ''<features>' for that SAME data (e.g. 'resize the bbox to encompass all the buildings' '' @
     ''when an INPUT[buildings] layer is already listed) is NOT a fetch - read that layer's own '' @
     ''bbox= off the line above; the canvas fits itself. Re-calling the fetch_* tool produces a '' @
     ''SECOND identical layer (a real duplicate on the map), which is FORBIDDEN. Only re-fetch '' @
     ''when the user names a DIFFERENT area that pokes OUTSIDE the existing extent, a different '' @
     ''data source / kind, or explicitly asks to refresh the data.''"

definition build_layers_present_note :: "text_fns \<Rightarrow> pyval list \<Rightarrow> pyval \<Rightarrow> history_error + string option" where
  "build_layers_present_note tf loaded_layers case_bbox =
     (case layer_lines tf loaded_layers of
        Inl e \<Rightarrow> Inl e
      | Inr lines \<Rightarrow>
          (case format_aoi_bbox_line tf case_bbox of
             Inl e \<Rightarrow> Inl e
           | Inr bbox_line \<Rightarrow>
               (if lines = [] \<and> bbox_line = None then Inr None
                else Inr (Some (''[Case state] '' @ join [newline]
                   ((if lines \<noteq> [] then [reuse_head @ join [newline] lines @ reuse_tail] else []) @
                    (case bbox_line of Some b \<Rightarrow> [b] | None \<Rightarrow> [])))))))"

section \<open>Reopening a Case\<close>

definition rehydrate_history_cap :: int where
  "rehydrate_history_cap = 40"

text \<open>
  A persisted row is an object with the attributes read here, or any other value. The text of a
  dictionary row and a dictionary card is read by key.
\<close>

datatype card_value = CardObj pyval pyval | CardVal pyval

record row_attrs =
  row_role :: pyval
  row_content :: pyval
  row_card :: card_value
  row_thinking :: pyval

datatype chat_row = RowObj row_attrs | RowVal pyval

definition summarize_tool_row_for_history ::
  "text_fns \<Rightarrow> (string \<Rightarrow> pyval option) \<Rightarrow> pyval \<Rightarrow> card_value \<Rightarrow> string" where
  "summarize_tool_row_for_history tf loads content tcard =
     (let (name, state) = (case tcard of
            CardObj n s \<Rightarrow> (n, s)
          | CardVal (PDict d) \<Rightarrow> (pget d ''tool_name'', pget d ''state'')
          | CardVal _ \<Rightarrow> (PNone, PNone));
          (name, state) = (case (name, content) of
            (PNone, PStr t) \<Rightarrow>
              (if t = [] then (name, state)
               else case loads t of Some (PDict d) \<Rightarrow> (pget d ''tool_name'', pget d ''state'') | _ \<Rightarrow> (name, state))
          | _ \<Rightarrow> (name, state))
      in if \<not> py_truth name then []
         else ''[tool '' @ py_str (tf_rep tf) name @ '' '' @
              (if state = PStr ''failed'' then ''failed'' else ''completed'') @ '']'')"

definition text_entry :: "string \<Rightarrow> string \<Rightarrow> chat_entry" where
  "text_entry r t = [(''role'', EntryVal (PStr r)), (''text'', EntryVal (PStr t))]"

definition row_fields :: "chat_row \<Rightarrow> pyval \<times> pyval \<times> card_value" where
  "row_fields row =
     (case row of
        RowObj a \<Rightarrow> (row_role a, row_content a, row_card a)
      | RowVal (PDict d) \<Rightarrow> (pget d ''role'', pget d ''content'', CardVal (pget d ''tool_card''))
      | RowVal _ \<Rightarrow> (PNone, PNone, CardVal PNone))"

definition rehydrate_row ::
  "text_fns \<Rightarrow> (string \<Rightarrow> pyval option) \<Rightarrow> chat_row \<Rightarrow> history_error + chat_entry option" where
  "rehydrate_row tf loads row =
     (let (r, content0, tcard) = row_fields row;
          content = py_or content0 (PStr []);
          said = (\<lambda>who. case content of
             PStr t \<Rightarrow> Inr (if py_strip t \<noteq> [] then Some (text_entry who t) else None)
           | _ \<Rightarrow> Inl NotAString)
      in if r = PStr ''tool''
         then (let line = summarize_tool_row_for_history tf loads content tcard
               in Inr (if line \<noteq> [] then Some (text_entry ''model'' line) else None))
         else if r = PStr ''user'' then said ''user''
         else if r \<in> set (map PStr [''agent'', ''assistant'', ''model'', ''system'']) then said ''agent''
         else Inr None)"

fun rehydrate_rows ::
  "text_fns \<Rightarrow> (string \<Rightarrow> pyval option) \<Rightarrow> chat_row list \<Rightarrow> history_error + chat_entry list" where
  "rehydrate_rows tf loads [] = Inr []"
| "rehydrate_rows tf loads (x # xs) =
     (case rehydrate_row tf loads x of
        Inl e \<Rightarrow> Inl e
      | Inr m \<Rightarrow> (case rehydrate_rows tf loads xs of
                    Inl e \<Rightarrow> Inl e
                  | Inr es \<Rightarrow> Inr (case m of None \<Rightarrow> es | Some r \<Rightarrow> r # es)))"

text \<open>\<open>rows[-cap:]\<close> is all the rows where the cap is zero.\<close>

definition capped_rows :: "int \<Rightarrow> 'a list \<Rightarrow> 'a list \<times> int" where
  "capped_rows cap rows =
     (if 0 \<le> cap \<and> cap < int (length rows)
      then (if cap = 0 then rows else drop (length rows - nat cap) rows, int (length rows) - cap)
      else (rows, 0))"

definition rehydrate_history_from_case ::
  "text_fns \<Rightarrow> (string \<Rightarrow> pyval option) \<Rightarrow> chat_row list \<Rightarrow> pyval list \<Rightarrow> int \<Rightarrow> pyval
     \<Rightarrow> history_error + chat_entry list \<times> int" where
  "rehydrate_history_from_case tf loads chat_messages loaded_layers cap case_bbox =
     (let (rows, dropped) = capped_rows cap chat_messages in
      case rehydrate_rows tf loads rows of
        Inl e \<Rightarrow> Inl e
      | Inr history \<Rightarrow>
          (case build_layers_present_note tf loaded_layers case_bbox of
             Inl e \<Rightarrow> Inl e
           | Inr None \<Rightarrow> Inr (history, dropped)
           | Inr (Some note) \<Rightarrow> Inr (history @ [text_entry ''model'' note], dropped)))"

section \<open>Stored parts are read back\<close>

text \<open>A part a provider can be sent: something is set, texts and names are not empty.\<close>

definition sendable_part :: "part \<Rightarrow> bool" where
  "sendable_part p \<longleftrightarrow>
     part_text p \<noteq> Some [] \<and>
     (case part_call p of None \<Rightarrow> True | Some c \<Rightarrow> call_name c \<noteq> []) \<and>
     (case part_response p of None \<Rightarrow> True | Some r \<Rightarrow> resp_name r \<noteq> []) \<and>
     (part_text p \<noteq> None \<or> part_call p \<noteq> None \<or> part_response p \<noteq> None)"

definition sendable :: "message \<Rightarrow> bool" where
  "sendable m \<longleftrightarrow> msg_parts m \<noteq> [] \<and> list_all sendable_part (msg_parts m)"

lemma field_values [simp]:
  "opt_text_field (opt_pystr i) = Inr i" "name_field (PStr n) = Inr n" "dict_field (PDict d) = Inr d"
  by (auto simp: opt_text_field_def opt_pystr_def name_field_def dict_field_def split: option.split)

lemma strip_encoded: "strip_never_rehydrate (encode_part p) = encode_part p"
  by (auto simp: strip_never_rehydrate_def encode_part_def never_rehydrate_fields_def filter_id_conv split: option.splits if_splits)

lemma decode_call_encoded:
  "decode_call [(''name'', PStr (call_name c)), (''id'', opt_pystr (call_id c)), (''args'', PDict (call_args c))] = Inr c"
  by (simp add: decode_call_def pget_def dget_or_def)

lemma decode_response_encoded:
  "decode_response [(''name'', PStr (resp_name r)), (''id'', opt_pystr (resp_id r)), (''response'', PDict (resp_result r))] = Inr r"
  by (simp add: decode_response_def pget_def dget_or_def)

lemma encode_part_fields:
  assumes "sendable_part p"
  shows "pget (encode_part p) ''text'' = opt_pystr (part_text p)"
    and "optional_dict decode_call (pget (encode_part p) ''function_call'') = Inr (part_call p)"
    and "optional_dict decode_response (pget (encode_part p) ''function_response'') = Inr (part_response p)"
    and "encode_part p \<noteq> []"
proof -
  have field: "pget (xs @ ys) k = (if k \<in> fst ` set xs then pget xs k else pget ys k)" for xs ys :: "(string, pyval) dict" and k
    by (induction xs) (force simp: pget_def dget_or_def)+
  note parts = field pget_def dget_or_def some_text_def
  note ready = assms [unfolded sendable_part_def]
  show "pget (encode_part p) ''text'' = opt_pystr (part_text p)"
    using ready by (auto simp: encode_part_def parts opt_pystr_def split: option.splits)
  show "optional_dict decode_call (pget (encode_part p) ''function_call'') = Inr (part_call p)"
    using ready by (auto simp: encode_part_def parts optional_dict_def decode_call_encoded split: option.splits)
  show "optional_dict decode_response (pget (encode_part p) ''function_response'') = Inr (part_response p)"
    using ready by (auto simp: encode_part_def parts optional_dict_def decode_response_encoded split: option.splits)
  show "encode_part p \<noteq> []"
    using ready by (auto simp: encode_part_def some_text_def)
qed

lemma decode_part_encoded: "sendable_part p \<Longrightarrow> decode_part (PDict (encode_part p)) = Inr (Some p)"
  using encode_part_fields [of p]
  by (cases p) (auto simp: decode_part_def strip_encoded Let_def opt_pystr_def sendable_part_def split: option.split)

lemma decode_parts_encoded:
  assumes "ps \<noteq> []" and "list_all sendable_part ps"
    and "loads (encode_parts_blob ft ps) = Some (encoded_parts ps)"
  shows "decode_parts_blob loads (EntryBytes (encode_parts_blob ft ps)) = Inr (Some ps)"
proof -
  have "filter (\<lambda>e. e \<noteq> []) (map encode_part ps) = map encode_part ps"
    using assms(2) encode_part_fields(4) by (auto simp: filter_id_conv list_all_iff)
  moreover have "decode_entries (map PDict (map encode_part ps)) = Inr ps"
    using assms(2) by (induction ps) (simp_all add: decode_part_encoded)
  ultimately show ?thesis using assms(1,3) by (simp add: decode_parts_blob_def raw_blob_def encoded_parts_def)
qed

definition stored_row :: "(pyfloat \<Rightarrow> string) \<Rightarrow> message \<Rightarrow> chat_entry" where
  "stored_row ft m =
     [(''role'', EntryVal (PStr (if msg_role m = ModelRole then ''agent'' else ''user''))),
      (''parts_blob'', EntryBytes (encode_parts_blob ft (msg_parts m)))]"

lemma stored_row_read:
  assumes "sendable m" and "loads (encode_parts_blob ft (msg_parts m)) = Some (encoded_parts (msg_parts m))"
  shows "contents_row loads (stored_row ft m) = Inr (Some m)"
proof -
  have "strip_never_rehydrate (stored_row ft m) = stored_row ft m"
    by (simp add: strip_never_rehydrate_def stored_row_def never_rehydrate_fields_def)
  moreover have "ir_role (stored_row ft m) = msg_role m"
    by (cases "msg_role m") (simp_all add: ir_role_def stored_row_def dget_or_def)
  moreover have "entry_field (stored_row ft m) ''parts_blob'' = EntryBytes (encode_parts_blob ft (msg_parts m))"
    by (simp add: entry_field_def stored_row_def dget_or_def)
  moreover have "decode_parts_blob loads (EntryBytes (encode_parts_blob ft (msg_parts m))) = Inr (Some (msg_parts m))"
    using assms(1) by (intro decode_parts_encoded assms(2)) (simp_all add: sendable_def)
  ultimately show ?thesis by (simp add: contents_row_def)
qed

text \<open>
  C23: a conversation whose messages can be sent, stored as role and blob, is read back as it was,
  followed by the user's text, where the decoder reads what the encoder wrote of each message.
\<close>

theorem stored_conversation_replays:
  assumes "list_all sendable cs"
    and "\<And>m. m \<in> set cs \<Longrightarrow> loads (encode_parts_blob ft (msg_parts m)) = Some (encoded_parts (msg_parts m))"
  shows "build_contents_from_history loads u (map (stored_row ft) cs) = Inr (cs @ [user_text_message u])"
proof -
  have "contents_rows loads (map (stored_row ft) cs) = Inr cs"
    using assms by (induction cs) (simp_all add: stored_row_read)
  then show ?thesis by (simp add: build_contents_from_history_def)
qed

theorem stored_conversation_replays_witness:
  "build_contents_from_history (\<lambda>s. Some (encoded_parts (msg_parts (call_message ''f'' None (Some ''a''))))) ''go''
      (map (stored_row (\<lambda>f. [])) [call_message ''f'' None (Some ''a'')]) =
    Inr [call_message ''f'' None (Some ''a''), user_text_message ''go'']"
  using stored_conversation_replays [of "[call_message ''f'' None (Some ''a'')]"
      "\<lambda>s. Some (encoded_parts (msg_parts (call_message ''f'' None (Some ''a''))))" "\<lambda>f. []" "''go''"]
  by (simp add: sendable_def sendable_part_def call_message_def call_part_def)

section \<open>Reasoning text stays out\<close>

text \<open>The histories a writer could leave: reasoning text under \<open>thinking\<close>, beside a row and inside its blob.\<close>

definition leak_value :: "pyval \<Rightarrow> pyval \<Rightarrow> pyval" where
  "leak_value t v =
     (case v of
        PDict d \<Rightarrow> PDict (dput ''thinking'' t d)
      | PList xs \<Rightarrow> PList (map (\<lambda>x. case x of PDict d \<Rightarrow> PDict (dput ''thinking'' t d) | _ \<Rightarrow> x) xs)
      | _ \<Rightarrow> v)"

definition leaky_loads :: "pyval \<Rightarrow> (string \<Rightarrow> pyval option) \<Rightarrow> string \<Rightarrow> pyval option" where
  "leaky_loads t loads s = map_option (leak_value t) (loads s)"

definition leak_blob :: "pyval \<Rightarrow> history_value \<Rightarrow> history_value" where
  "leak_blob t b = (case b of EntryBytes s \<Rightarrow> EntryBytes s | EntryVal v \<Rightarrow> EntryVal (leak_value t v))"

definition leak_entry :: "pyval \<Rightarrow> chat_entry \<Rightarrow> chat_entry" where
  "leak_entry t e =
     dput ''thinking'' (EntryVal t)
       (case dget e ''parts_blob'' of None \<Rightarrow> e | Some b \<Rightarrow> dput ''parts_blob'' (leak_blob t b) e)"

lemma strip_put_thinking [simp]: "strip_never_rehydrate (dput ''thinking'' v d) = strip_never_rehydrate d"
  by (induction d) (auto simp: strip_never_rehydrate_def dput_def never_rehydrate_fields_def)

lemma strip_get: "k \<noteq> ''thinking'' \<Longrightarrow> dget (strip_never_rehydrate d) k = dget d k"
  by (induction d) (auto simp: strip_never_rehydrate_def dget_def never_rehydrate_fields_def)

lemma decode_part_leak: "decode_part (PDict (dput ''thinking'' t d)) = decode_part (PDict d)"
  by (simp add: decode_part_def)

lemma decode_blob_leak: "decode_parts_blob (leaky_loads t loads) (leak_blob t b) = decode_parts_blob loads b"
proof -
  have entries: "decode_entries (map (\<lambda>x. case x of PDict d \<Rightarrow> PDict (dput ''thinking'' t d) | _ \<Rightarrow> x) xs) = decode_entries xs" for xs
  proof -
    have "decode_part (case x of PDict d \<Rightarrow> PDict (dput ''thinking'' t d) | _ \<Rightarrow> x) = decode_part x" for x
      by (cases x) (simp_all add: decode_part_leak)
    then show ?thesis by (induction xs) (simp_all split: sum.split)
  qed
  have raw: "raw_blob (leaky_loads t loads) (leak_blob t b) = map_option (leak_value t) (raw_blob loads b)"
    by (auto simp: raw_blob_def leak_blob_def leaky_loads_def leak_value_def split: history_value.split pyval.split)
  show ?thesis unfolding decode_parts_blob_def raw
    by (auto simp: leak_value_def entries decode_part_leak split: option.split pyval.split)
qed

lemma contents_row_leak: "contents_row (leaky_loads t loads) (leak_entry t e) = contents_row loads e"
proof -
  have field: "dget (leak_entry t e) k = (if k = ''parts_blob'' then map_option (leak_blob t) (dget e k) else dget e k)"
    if "k \<noteq> ''thinking''" for k
    using that by (auto simp: leak_entry_def split: option.split)
  have none: "leak_blob t b = EntryVal PNone \<longleftrightarrow> b = EntryVal PNone" for b
    by (auto simp: leak_blob_def leak_value_def split: history_value.split pyval.split)
  let ?e = "strip_never_rehydrate e" and ?l = "strip_never_rehydrate (leak_entry t e)"
  have role: "ir_role ?l = ir_role ?e" by (simp add: ir_role_def dget_or_def strip_get field)
  have blob: "entry_field ?l ''parts_blob'' = leak_blob t (entry_field ?e ''parts_blob'')"
    by (simp add: entry_field_def dget_or_def field strip_get leak_blob_def leak_value_def split: option.split)
  have said: "dget_or ?l ''text'' v = dget_or ?e ''text'' v" for v by (simp add: dget_or_def strip_get field)
  show ?thesis unfolding contents_row_def Let_def blob none decode_blob_leak role said ..
qed

text \<open>
  C24: reasoning text never reaches the model: put beside a row, or into any entry of a blob, it
  changes nothing in the contents; and a row of a Case gives the same entry whatever it thought.
\<close>

theorem thinking_never_reaches_contents:
  "build_contents_from_history (leaky_loads t loads) u (map (leak_entry t) history) =
     build_contents_from_history loads u history \<and>
   rehydrate_row tf loads (RowObj (a\<lparr>row_thinking := t\<rparr>)) = rehydrate_row tf loads (RowObj a) \<and>
   rehydrate_row tf loads (RowVal (PDict (dput ''thinking'' t d))) = rehydrate_row tf loads (RowVal (PDict d))"
proof (intro conjI)
  have "contents_rows (leaky_loads t loads) (map (leak_entry t) history) = contents_rows loads history"
    by (induction history) (simp_all add: contents_row_leak split: sum.split)
  then show "build_contents_from_history (leaky_loads t loads) u (map (leak_entry t) history) =
     build_contents_from_history loads u history" by (simp add: build_contents_from_history_def)
qed (simp_all add: rehydrate_row_def row_fields_def pget_def)

section \<open>What a reopened Case starts with\<close>

lemma rehydrated_entry: "rehydrate_row tf loads row = Inr (Some e) \<Longrightarrow> \<exists>r t. e = text_entry r t \<and> t \<noteq> []"
proof -
  assume row: "rehydrate_row tf loads row = Inr (Some e)"
  obtain r c k where f: "row_fields row = (r, c, k)" using prod_cases3 by blast
  define said where "said who = (case py_or c (PStr []) of
      PStr t \<Rightarrow> Inr (if py_strip t \<noteq> [] then Some (text_entry who t) else None)
    | _ \<Rightarrow> Inl NotAString)" for who
  have said: "\<exists>t. e = text_entry who t \<and> t \<noteq> []" if "said who = Inr (Some e)" for who
    using that by (auto simp: said_def py_strip_Nil_iff split: pyval.splits if_splits)
  from row show ?thesis
    unfolding rehydrate_row_def Let_def f prod.case said_def [symmetric]
    by (auto dest!: said split: if_splits)
qed

lemma text_entry_contents:
  "t \<noteq> [] \<Longrightarrow> \<exists>m. contents_row loads (text_entry r t) = Inr (Some m) \<and> msg_parts m = [text_part t]"
  by (simp add: contents_row_def text_entry_def strip_never_rehydrate_def never_rehydrate_fields_def entry_field_def
      dget_or_def text_row_def Let_def)

lemma rehydrated_contents:
  "rehydrate_rows tf loads rows = Inr es \<Longrightarrow>
   \<exists>ms. contents_rows loads es = Inr ms \<and> length ms \<le> length rows \<and>
        list_all (\<lambda>m. \<exists>t. msg_parts m = [text_part t]) ms"
proof (induction rows arbitrary: es)
  case (Cons x xs)
  from Cons.prems obtain m es' where row: "rehydrate_row tf loads x = Inr m" "rehydrate_rows tf loads xs = Inr es'"
    "es = (case m of None \<Rightarrow> es' | Some r \<Rightarrow> r # es')" by (auto split: sum.splits)
  from Cons.IH [OF row(2)] obtain ms where ms: "contents_rows loads es' = Inr ms" "length ms \<le> length xs"
    "list_all (\<lambda>m. \<exists>t. msg_parts m = [text_part t]) ms" by blast
  show ?case
  proof (cases m)
    case None
    with row(3) ms show ?thesis by auto
  next
    case (Some e)
    with rehydrated_entry [of tf loads x e] row(1) obtain r t where e: "e = text_entry r t" "t \<noteq> []" by auto
    from text_entry_contents [OF e(2)] obtain k where k: "contents_row loads e = Inr (Some k)" "msg_parts k = [text_part t]"
      unfolding e(1) by blast
    then have "contents_rows loads es = Inr (k # ms)" by (simp add: row(3) Some ms(1))
    moreover have "list_all (\<lambda>m. \<exists>t. msg_parts m = [text_part t]) (k # ms)" using ms(3) k(2) by auto
    ultimately show ?thesis using ms(2) by fastforce
  qed
qed simp

lemma contents_rows_append:
  "contents_rows loads es = Inr ms \<Longrightarrow> contents_rows loads fs = Inr ns \<Longrightarrow> contents_rows loads (es @ fs) = Inr (ms @ ns)"
  by (induction es arbitrary: ms) (auto split: sum.splits option.splits)

lemma capped_rows_bound: "0 < cap \<Longrightarrow> capped_rows cap rows = (kept, dropped) \<Longrightarrow>
    int (length kept) \<le> min cap (int (length rows)) \<and> dropped = max 0 (int (length rows) - cap)"
  by (auto simp: capped_rows_def split: if_splits)

text \<open>
  a reopened Case with a note starts its turn with at most the capped number of rows, all
  narration that compaction may drop, then the Case-state note and the user's text; and these
  two stay last, a model and a user text, whatever compaction does.
\<close>

theorem reopened_case_contents:
  assumes "rehydrate_history_from_case tf loads rows layers cap bbox = Inr (h, dropped)"
    and "build_layers_present_note tf layers bbox = Inr (Some note)" and "0 < cap"
  shows "\<exists>ms. build_contents_from_history loads u h = Inr (ms @ [model_text_message note, user_text_message u]) \<and>
     int (length ms) \<le> min cap (int (length rows)) \<and> dropped = max 0 (int (length rows) - cap) \<and>
     list_all is_droppable_row ms \<and>
     (\<exists>front n' u'. res_contents (compact_contents env (ms @ [model_text_message note, user_text_message u]) bt tr ho no) =
          front @ [n', u'] \<and> skeleton n' = skeleton (model_text_message note) \<and> skeleton u' = skeleton (user_text_message u))"
proof -
  obtain kept where kept: "capped_rows cap rows = (kept, dropped)"
    using assms(1) by (auto simp: rehydrate_history_from_case_def Let_def split: prod.splits sum.splits option.splits)
  with assms(1,2) obtain es where es: "rehydrate_rows tf loads kept = Inr es" "h = es @ [text_entry ''model'' note]"
    by (auto simp: rehydrate_history_from_case_def Let_def split: sum.splits)
  from rehydrated_contents [OF es(1)] obtain ms where ms: "contents_rows loads es = Inr ms" "length ms \<le> length kept"
    "list_all (\<lambda>m. \<exists>t. msg_parts m = [text_part t]) ms" by blast
  have "note \<noteq> []" using assms(2) by (auto simp: build_layers_present_note_def split: sum.splits if_splits)
  then have "contents_row loads (text_entry ''model'' note) = Inr (Some (model_text_message note))"
    by (simp add: contents_row_def text_entry_def strip_never_rehydrate_def never_rehydrate_fields_def entry_field_def
        dget_or_def text_row_def Let_def ir_role_def model_text_message_def)
  then have "contents_rows loads [text_entry ''model'' note] = Inr [model_text_message note]" by simp
  from contents_rows_append [OF ms(1) this]
  have build: "build_contents_from_history loads u h = Inr (ms @ [model_text_message note, user_text_message u])"
    by (simp add: build_contents_from_history_def es(2))
  let ?cs = "ms @ [model_text_message note, user_text_message u]"
  have "list_all message_ok ?cs" using ms(3) by (auto simp: list_all_iff message_ok_def model_text_message_def user_text_message_def)
  from compaction_keeps_tail [OF this, of env bt tr ho no] obtain front tail where
    tail: "res_contents (compact_contents env ?cs bt tr ho no) = front @ tail" "length tail = 2"
    "map skeleton tail = map skeleton [model_text_message note, user_text_message u]" by auto
  then obtain n' u' where "tail = [n', u']" by (auto simp: length_Suc_conv numeral_2_eq_2)
  moreover have "list_all is_droppable_row ms"
    using ms(3) by (fastforce simp: list_all_iff is_droppable_row_def text_part_def)
  ultimately show ?thesis
    using build tail capped_rows_bound [OF assms(3) kept] ms(2) by (intro exI [of _ ms]) auto
qed

definition plain_texts :: text_fns where
  "plain_texts = \<lparr>tf_rep = (\<lambda>v. []), tf_float = (\<lambda>f. ''0.0''), tf_round4 = (\<lambda>f. ''0.0'')\<rparr>"

theorem reopened_case_contents_witness:
  "\<exists>h d note ms. rehydrate_history_from_case plain_texts (\<lambda>s. None)
      [RowObj \<lparr>row_role = PStr ''user'', row_content = PStr ''hi'', row_card = CardVal PNone, row_thinking = PNone\<rparr>]
      [PDict [(''layer_id'', PStr ''dem'')]] 40 PNone = Inr (h, d) \<and>
    build_contents_from_history (\<lambda>s. None) ''go'' h = Inr (ms @ [model_text_message note, user_text_message ''go''])"
proof -
  let ?rows = "[RowObj \<lparr>row_role = PStr ''user'', row_content = PStr ''hi'', row_card = CardVal PNone, row_thinking = PNone\<rparr>]"
  let ?layers = "[PDict [(''layer_id'', PStr ''dem'')]]"
  have hi: "py_strip ''hi'' = ''hi''" by (simp add: py_strip_id is_space_def char_code_def)
  have "\<exists>line. layer_lines plain_texts ?layers = Inr [line]"
    by (simp add: layer_line_def pget_def dget_or_def py_or_def format_layer_bbox_def box_text_def box_items_def Let_def)
  then obtain said where said: "build_layers_present_note plain_texts ?layers PNone = Inr (Some said)"
    by (auto simp: build_layers_present_note_def format_aoi_bbox_line_def box_text_def box_items_def)
  have "rehydrate_rows plain_texts (\<lambda>s. None) ?rows = Inr [text_entry ''user'' ''hi'']"
    by (simp add: rehydrate_row_def row_fields_def py_or_def hi Let_def)
  then have h: "rehydrate_history_from_case plain_texts (\<lambda>s. None) ?rows ?layers 40 PNone =
      Inr ([text_entry ''user'' ''hi'', text_entry ''model'' said], 0)"
    by (simp add: rehydrate_history_from_case_def capped_rows_def said)
  obtain ms where "build_contents_from_history (\<lambda>s. None) ''go'' [text_entry ''user'' ''hi'', text_entry ''model'' said] =
      Inr (ms @ [model_text_message said, user_text_message ''go''])"
    using reopened_case_contents [OF h said, where u = "''go''" and env = sample_env and bt = 100 and tr = 1 and ho = None and no = None]
    by auto
  with h show ?thesis by blast
qed

text \<open>
  A cap of zero reports every row dropped and replays every row.
\<close>

lemma zero_cap_replays_all:
  "rehydrate_history_from_case tf loads rows layers 0 bbox =
     (case rehydrate_history_from_case tf loads rows layers (-1) bbox of
        Inl e \<Rightarrow> Inl e
      | Inr (history, dropped) \<Rightarrow> Inr (history, int (length rows)))"
  by (cases rows) (auto simp: rehydrate_history_from_case_def capped_rows_def split: sum.split option.split)

text \<open>
  one stored call whose name is no string makes every later turn of the Case raise, whatever
  else the history holds, where a malformed row is meant to be dropped.
\<close>

theorem malformed_call_breaks_history:
  "\<exists>e. build_contents_from_history loads u
     (before @ [[(''role'', EntryVal (PStr ''agent'')),
        (''parts_blob'', EntryVal (PDict [(''function_call'', PDict [(''name'', PInt 5)])]))]] @ after) = Inl e"
proof -
  let ?bad = "[(''role'', EntryVal (PStr ''agent'')),
        (''parts_blob'', EntryVal (PDict [(''function_call'', PDict [(''name'', PInt 5)])]))]"
  have bad: "contents_row loads ?bad = Inl InvalidModel"
    by (simp add: contents_row_def strip_never_rehydrate_def never_rehydrate_fields_def entry_field_def dget_or_def
        decode_parts_blob_def raw_blob_def decode_part_def optional_dict_def decode_call_def name_field_def pget_def Let_def)
  have "\<exists>e. contents_rows loads (before @ [?bad] @ after) = Inl e"
    by (induction before) (auto simp: bad split: sum.split)
  then show ?thesis by (auto simp: build_contents_from_history_def)
qed

end
