(* ===== verification/ToolSummary.thy ===== *)
theory ToolSummary
  imports ToolFaults JsonText
begin

text \<open>
  What the model reads of a tool call, of trid3nt_server/model/adapters/adapter.py: the summary of
  a result or an exception within the result budget, the provenance line of contracts
  (common.py), and whether the result was usable.
\<close>

section \<open>Objects\<close>

text \<open>
  What Python says of a value that is no JSON: an attribute, its \<open>repr\<close>, its \<open>model_dump\<close>
  (\<open>None\<close> where it has none or it raises); and the text of a number formatted with \<open>g\<close>.
\<close>

record object_fns =
  of_attr :: "pyval \<Rightarrow> string \<Rightarrow> pyval option"
  of_repr :: "pyval \<Rightarrow> string"
  of_dump :: "pyval \<Rightarrow> pyval option"
  of_general :: "pyval \<Rightarrow> string"
  of_float :: "pyfloat \<Rightarrow> string"

definition get_attr :: "object_fns \<Rightarrow> pyval \<Rightarrow> string \<Rightarrow> pyval" where
  "get_attr F v name = (case of_attr F v name of None \<Rightarrow> PNone | Some a \<Rightarrow> a)"

definition text_of :: "object_fns \<Rightarrow> pyval \<Rightarrow> string" where
  "text_of F v = py_str (of_repr F) v"

text \<open>The character U+2026, which a \<open>char\<close> has no code for, is written as the middle dot.\<close>

definition ellipsis :: char where
  "ellipsis = CHR 0xB7"

section \<open>Summary values\<close>

definition opaque_fields :: "string list" where
  "opaque_fields = [''raw_bytes'', ''raw_body'', ''binary'', ''geometry_wkb'', ''pixels'']"

definition cut_mark :: string where
  "cut_mark = ''...[cut to the result budget]''"

definition suppressed :: "string \<Rightarrow> pyval" where
  "suppressed k = PStr (''['' @ k @ '' suppressed]'')"

definition more_items :: "'a list \<Rightarrow> pyval list" where
  "more_items xs =
     (if 5 < length xs then [PStr (ellipsis # ''[+'' @ show_nat (length xs - 5) @ '' more items]'')] else [])"

fun coerce_to_summary_value :: "object_fns \<Rightarrow> nat \<Rightarrow> pyval \<Rightarrow> pyval"
  and coerce_items :: "object_fns \<Rightarrow> nat \<Rightarrow> pyval list \<Rightarrow> pyval list"
  and coerce_fields :: "object_fns \<Rightarrow> nat \<Rightarrow> (string \<times> pyval) list \<Rightarrow> (string \<times> pyval) list" where
  "coerce_to_summary_value F depth (PStr s) =
     (if 500 < length s then PStr (take 500 s @ ellipsis # ''[truncated]'') else PStr s)"
| "coerce_to_summary_value F depth (PList xs) =
     (if 2 \<le> depth then PStr (''[list len='' @ show_nat (length xs) @ '']'')
      else PList (take 5 (coerce_items F (Suc depth) xs) @ more_items xs))"
| "coerce_to_summary_value F depth (PTuple xs) =
     (if 2 \<le> depth then PStr (''[list len='' @ show_nat (length xs) @ '']'')
      else PList (take 5 (coerce_items F (Suc depth) xs) @ more_items xs))"
| "coerce_to_summary_value F depth (PDict d) =
     (if 2 \<le> depth then PStr (''{dict keys='' @ of_repr F (PList (map PStr (take 8 (map fst d)))) @ ''}'')
      else PDict (coerce_fields F (Suc depth) d))"
| "coerce_to_summary_value F depth (PObj t) =
     (let s = of_repr F (PObj t) in PStr (if 200 < length s then take 200 s @ [ellipsis] else s))"
| "coerce_to_summary_value F depth v = v"
| "coerce_items F depth [] = []"
| "coerce_items F depth (x # xs) = coerce_to_summary_value F depth x # coerce_items F depth xs"
| "coerce_fields F depth [] = []"
| "coerce_fields F depth ((k, v) # d) =
     (k, if k \<in> set opaque_fields then suppressed k else coerce_to_summary_value F depth v) # coerce_fields F depth d"

fun whole_value :: "object_fns \<Rightarrow> pyval \<Rightarrow> pyval"
  and whole_items :: "object_fns \<Rightarrow> pyval list \<Rightarrow> pyval list"
  and whole_fields :: "object_fns \<Rightarrow> (string \<times> pyval) list \<Rightarrow> (string \<times> pyval) list" where
  "whole_value F (PDict d) = PDict (whole_fields F d)"
| "whole_value F (PList xs) = PList (whole_items F xs)"
| "whole_value F (PTuple xs) = PList (whole_items F xs)"
| "whole_value F (PObj t) = PStr (of_repr F (PObj t))"
| "whole_value F v = v"
| "whole_items F [] = []"
| "whole_items F (x # xs) = whole_value F x # whole_items F xs"
| "whole_fields F [] = []"
| "whole_fields F ((k, v) # d) =
     (k, if k \<in> set opaque_fields then suppressed k else whole_value F v) # whole_fields F d"

text \<open>\<open>json.dumps(v, default=str)\<close>.\<close>

definition encoded :: "object_fns \<Rightarrow> (string, pyval) dict \<Rightarrow> string" where
  "encoded F d = json_text (plain_style (of_float F)) (PDict d)"

definition within_budget :: "object_fns \<Rightarrow> int \<Rightarrow> (string, pyval) dict \<Rightarrow> string \<Rightarrow> (string, pyval) dict" where
  "within_budget F budget envelope field_name =
     (let over = int (length (encoded F envelope)) - budget
      in case pget envelope field_name of
           PStr t \<Rightarrow>
             if 0 < over
             then dput field_name (PStr (take (nat (max (int (length t) - over - int (length cut_mark)) 0)) t @ cut_mark)) envelope
             else envelope
         | _ \<Rightarrow> envelope)"

section \<open>Errors\<close>

definition classify_error :: "py_exn \<Rightarrow> string \<times> bool" where
  "classify_error error =
     (let code = (case exn_attr error ''error_code'' of
            PStr c \<Rightarrow> if c \<noteq> [] then c else py_upper (class_name (exc_class error))
          | _ \<Rightarrow> py_upper (class_name (exc_class error)))
      in (code,
          case exn_attr error ''retryable'' of
            PBool b \<Rightarrow> b
          | _ \<Rightarrow> (if isinstance error [ExcTimeoutError] then True
                  else if isinstance error [ExcConnectionError, ExcOSError] then True
                  else \<not> isinstance error [ExcValueError, ExcTypeError, ExcKeyError, ExcAttributeError])))"

fun actionability_text :: "actionability \<Rightarrow> string" where
  "actionability_text AgentClass = ''agent''"
| "actionability_text UserClass = ''user''"
| "actionability_text OperatorClass = ''operator''"

definition decline_guidance :: string where
  "decline_guidance =
     ''This is the user'' @ CHR 0x27 # ''s own decision and not an error: say plainly that they '' @
     ''declined, state what you were about to do, and ask what they would like '' @
     ''instead. Do not apologise for a failure and do not re-issue the same call '' @
     ''unless they ask for it.''"

definition recovery_suggestions :: "object_fns \<Rightarrow> pyval \<Rightarrow> string list" where
  "recovery_suggestions F raw =
     (let items = (case raw of PList xs \<Rightarrow> xs | PTuple xs \<Rightarrow> xs | _ \<Rightarrow> [])
      in take 8 (filter (\<lambda>t. py_strip t \<noteq> []) (map (text_of F) items)))"

text \<open>A declined card carries its own note.\<close>

definition summarize_error :: "object_fns \<Rightarrow> exn_class \<Rightarrow> int \<Rightarrow> string \<Rightarrow> py_exn \<Rightarrow> (string, pyval) dict" where
  "summarize_error F validation_error budget tool_name error =
     (if py_truth (exn_attr error ''declined'')
      then [(''tool'', PStr tool_name), (''status'', PStr ''declined''),
            (''error_code'', dget_or (exc_attrs error) ''error_code'' (PStr ''USER_INPUT_CANCELLED'')),
            (''message'', PStr (text_of F (exn_attr error ''decline_note'') @ '' '' @ decline_guidance)),
            (''retryable'', PBool False)]
      else
        (let (code, retryable) = classify_error error;
             act = classify_actionability validation_error tool_name error;
             message = (if act = OperatorClass then ''internal error, logged'' else exc_text error);
             suggestions = recovery_suggestions F (exn_attr error ''suggestions'')
         in within_budget F budget
              ([(''tool'', PStr tool_name), (''status'', PStr ''error''), (''error_code'', PStr code),
                (''message'', PStr message), (''retryable'', PBool retryable),
                (''error_type'', PStr (class_name (exc_class error))), (''actionability'', PStr (actionability_text act))] @
               (if suggestions = [] then [] else [(''suggestions'', PList (map PStr suggestions))]))
              ''message''))"

section \<open>Charts\<close>

definition summarize_chart_emission :: "string \<Rightarrow> (string, pyval) dict \<Rightarrow> (string, pyval) dict" where
  "summarize_chart_emission tool_name result =
     (let spec = (case pget result ''vega_lite_spec'' of PDict s \<Rightarrow> s | _ \<Rightarrow> []);
          chart_type = (case pget spec ''mark'' of PDict m \<Rightarrow> pget m ''type'' | PStr t \<Rightarrow> PStr t | _ \<Rightarrow> PNone);
          n_rows = (case pget spec ''data'' of
              PDict data \<Rightarrow> (case pget data ''values'' of PList rows \<Rightarrow> PInt (int (length rows)) | _ \<Rightarrow> PNone)
            | _ \<Rightarrow> PNone)
      in [(''tool'', PStr tool_name), (''status'', PStr ''ok''),
          (''result'', PDict
            [(''chart_emitted'', PBool True), (''chart_id'', pget result ''chart_id''), (''title'', pget result ''title''),
             (''caption'', pget result ''caption''), (''chart_type'', chart_type), (''n_data_rows'', n_rows),
             (''source_layer_uri'', pget result ''source_layer_uri''),
             (''note'', PStr (''A chart has been rendered for the user. Narrate what it shows '' @
                ''using the numbers in '' @ CHR 0x27 # ''caption'' @ CHR 0x27 # ''; do NOT restate the raw data rows.''))])])"

section \<open>Modelled runs\<close>

definition no_layers_code :: string where
  "no_layers_code = ''MODEL_RUN_PRODUCED_NO_LAYERS''"

definition metrics_of :: "pyval \<Rightarrow> (string, pyval) dict option" where
  "metrics_of payload =
     (case payload of PDict p \<Rightarrow> (case pget p ''metrics'' of PDict m \<Rightarrow> Some m | _ \<Rightarrow> None) | _ \<Rightarrow> None)"

definition code_or_default :: "string \<Rightarrow> string" where
  "code_or_default t = (if py_strip t = [] then no_layers_code else py_strip t)"

definition solver_failure :: "(string, pyval) dict \<Rightarrow> string option" where
  "solver_failure metrics =
     (case pget metrics ''solver_version'' of
        PStr sv \<Rightarrow> if starts_with ''failed:'' sv then Some (code_or_default (drop 7 sv)) else None
      | _ \<Rightarrow> None)"

definition workflow_failure :: "(string, pyval) dict \<Rightarrow> string option" where
  "workflow_failure result =
     (case pget result ''workflow_name'' of
        PStr name \<Rightarrow> map_option code_or_default (after_first '':FAILED:'' name)
      | _ \<Rightarrow> None)"

definition failed_modeled_envelope_error_code :: "(string, pyval) dict \<Rightarrow> string option" where
  "failed_modeled_envelope_error_code result =
     first_some (workflow_failure result # map (\<lambda>m. Option.bind m solver_failure) (map (metrics_of \<circ> snd) result))"

definition metrics_phrase :: "object_fns \<Rightarrow> (string, pyval) dict \<Rightarrow> string" where
  "metrics_phrase F result =
     (case first_some (map (metrics_of \<circ> snd) result) of
        None \<Rightarrow> []
      | Some metrics \<Rightarrow>
          join '', '' (map (\<lambda>(name, value). name @ '' '' @ of_general F value)
            (filter (\<lambda>(name, value). case value of PInt n \<Rightarrow> True | PFloat f \<Rightarrow> True | _ \<Rightarrow> False) metrics)))"

definition empty_model_run :: "(string, pyval) dict \<Rightarrow> bool" where
  "empty_model_run result \<longleftrightarrow> pget result ''envelope_type'' = PStr ''modeled'' \<and> \<not> py_truth (pget result ''layers'')"

definition summarize_empty_run :: "object_fns \<Rightarrow> string \<Rightarrow> (string, pyval) dict \<Rightarrow> (string, pyval) dict" where
  "summarize_empty_run F tool_name result =
     (let envelope = (\<lambda>code message kind.
            [(''tool'', PStr tool_name), (''status'', PStr ''error''), (''error_code'', PStr code), (''message'', PStr message),
             (''retryable'', PBool False), (''error'', PStr message), (''error_type'', PStr kind)])
      in case failed_modeled_envelope_error_code result of
           Some code \<Rightarrow> envelope code
             (tool_name @ '' produced no layers and the model did NOT run successfully ('' @ code @ '').'') ''FailedModelEnvelope''
         | None \<Rightarrow> envelope ''NO_RENDERABLE_LAYER''
             (let phrase = metrics_phrase F result in
              if phrase \<noteq> []
              then ''The simulation completed ('' @ phrase @ '') but the result '' @
                   ''layer could not be published/rendered - it is not on the map.''
              else tool_name @ '' completed but produced no renderable layer - '' @ ''the result is not on the map.'')
             ''NoRenderableLayer'')"

section \<open>Where the inputs came from\<close>

definition entry_dicts :: "object_fns \<Rightarrow> pyval \<Rightarrow> (string, pyval) dict list" where
  "entry_dicts F v =
     List.map_filter (\<lambda>entry. case entry of
          PDict d \<Rightarrow> Some d
        | _ \<Rightarrow> (case of_dump F entry of Some (PDict d) \<Rightarrow> Some d | _ \<Rightarrow> None))
       (case v of PList xs \<Rightarrow> xs | PTuple xs \<Rightarrow> xs | _ \<Rightarrow> [])"

fun first_entries :: "(string, pyval) dict list list \<Rightarrow> (string, pyval) dict list" where
  "first_entries [] = []"
| "first_entries (e # es) = (if e \<noteq> [] then e else first_entries es)"

definition sequence_items :: "pyval \<Rightarrow> pyval list" where
  "sequence_items v = (case v of PList xs \<Rightarrow> xs | PTuple xs \<Rightarrow> xs | _ \<Rightarrow> [])"

text \<open>A number under \<open>layers\<close> is not iterable.\<close>

definition not_iterable :: "pyval \<Rightarrow> bool" where
  "not_iterable v \<longleftrightarrow> py_truth v \<and> (case v of PInt n \<Rightarrow> True | PBool b \<Rightarrow> True | PFloat f \<Rightarrow> True | _ \<Rightarrow> False)"

definition not_iterable_error :: py_exn where
  "not_iterable_error = plain_exn ExcTypeError ''object is not iterable''"

definition extract_synthetic_inputs :: "object_fns \<Rightarrow> pyval \<Rightarrow> py_exn + (string, pyval) dict list" where
  "extract_synthetic_inputs F result =
     (let of_object = (\<lambda>v. entry_dicts F (get_attr F v ''synthetic_inputs'')) in
      case result of
        PDict r \<Rightarrow>
          (let stated = first_entries (of_object result # entry_dicts F (pget r ''synthetic_inputs'') #
                 map (\<lambda>key. case pget r key of PDict sub \<Rightarrow> entry_dicts F (pget sub ''synthetic_inputs'') | _ \<Rightarrow> [])
                   [''summary'', ''derived_params''])
           in if stated \<noteq> [] then Inr stated
              else if not_iterable (pget r ''layers'') then Inl not_iterable_error
              else Inr (first_entries (map of_object (sequence_items (pget r ''layers'')))))
      | _ \<Rightarrow> Inr (first_entries (of_object result #
             map of_object (sequence_items (get_attr F result ''layers'')) @
             map (\<lambda>name. of_object (get_attr F result name)) [''asr_layer'', ''primary'', ''layer'', ''peak''])))"

text \<open>\<open>ORIGIN_LABELS\<close>; a basis that is none of the origins raises in \<open>Origin(...)\<close>.\<close>

definition origin_labels :: "(string \<times> string) list" where
  "origin_labels = [(''user'', ''user''), (''producer'', ''produced''), (''derived'', ''derived''),
     (''template'', ''template value, not a site measurement'')]"

definition known_basis :: "(string, pyval) dict \<Rightarrow> bool" where
  "known_basis e \<longleftrightarrow> pget e ''basis'' \<in> set (map (PStr \<circ> fst) origin_labels)"

definition assumption_text :: "object_fns \<Rightarrow> (string, pyval) dict \<Rightarrow> string" where
  "assumption_text F e =
     (let stated = (if pget e ''value'' = PNone then []
            else ''='' @ text_of F (pget e ''value'') @
                 (if py_truth (pget e ''units'') then '' '' @ text_of F (pget e ''units'') else []))
      in text_of F (pget e ''param'') @ stated @
         (if py_truth (pget e ''real_source_if_any'') then '' (by '' @ text_of F (pget e ''real_source_if_any'') @ '')'' else []))"

definition basis_error :: py_exn where
  "basis_error = plain_exn ExcValueError ''not a valid Origin''"

definition render_assumptions_line :: "object_fns \<Rightarrow> (string, pyval) dict list \<Rightarrow> py_exn + string option" where
  "render_assumptions_line F entries =
     (if entries = [] then Inr None
      else if \<not> list_all known_basis entries then Inl basis_error
      else (let segments = List.map_filter (\<lambda>(origin, label).
                   (let mine = filter (\<lambda>e. pget e ''basis'' = PStr origin) entries
                    in if mine = [] then None else Some (label @ '': '' @ join '', '' (map (assumption_text F) mine))))
                 origin_labels
            in Inr (Some (''Input provenance -- '' @ join ''; '' segments @ ''.''))))"

definition hoist_synthetic_inputs :: "object_fns \<Rightarrow> (string, pyval) dict \<Rightarrow> pyval \<Rightarrow> py_exn + (string, pyval) dict" where
  "hoist_synthetic_inputs F payload result =
     (case extract_synthetic_inputs F result of
        Inl e \<Rightarrow> Inl e
      | Inr entries \<Rightarrow>
          (if entries = [] then Inr payload
           else (case render_assumptions_line F entries of
                   Inl e \<Rightarrow> Inl e
                 | Inr line \<Rightarrow>
                     (let payload1 = (case line of None \<Rightarrow> payload | Some t \<Rightarrow> dput ''assumptions_summary'' (PStr t) payload)
                      in Inr (dput ''synthetic_inputs'' (PList (map PDict (take 12 entries))) payload1)))))"

section \<open>The summary\<close>

definition base_payload :: "object_fns \<Rightarrow> string \<Rightarrow> pyval \<Rightarrow> (string, pyval) dict" where
  "base_payload F tool_name result =
     (let head = [(''tool'', PStr tool_name), (''status'', PStr ''ok'')];
          notes = (case get_attr F result ''notes'' of PList ns \<Rightarrow> ns | _ \<Rightarrow> []);
          warning = (case get_attr F result ''fallback_warning'' of PStr w \<Rightarrow> w | _ \<Rightarrow> [])
      in case result of
           PDict d \<Rightarrow> head @ [(''result'', whole_value F result)]
         | _ \<Rightarrow> head @
             [(''result'', case result of PList xs \<Rightarrow> whole_value F result | PTuple xs \<Rightarrow> whole_value F result
                           | _ \<Rightarrow> coerce_to_summary_value F 0 result)] @
             (if notes = [] then [] else [(''notes'', PList (map (PStr \<circ> text_of F) notes))]) @
             (if warning = [] then [] else [(''fallback_warning'', PStr warning)]))"

text \<open>
  A payload of these values always encodes, so the fallback for one that does not is not modelled.
\<close>

definition fit_payload :: "object_fns \<Rightarrow> int \<Rightarrow> string \<Rightarrow> pyval \<Rightarrow> (string, pyval) dict \<Rightarrow> (string, pyval) dict" where
  "fit_payload F budget tool_name result payload =
     (let payload1 = (if budget < int (length (encoded F payload)) \<and> dhas payload ''result''
                      then dput ''result'' (coerce_to_summary_value F 0 result) payload else payload)
      in if budget < int (length (encoded F payload1))
         then [(''tool'', PStr tool_name), (''status'', PStr ''ok''),
               (''result_summary'', PStr (take (nat budget) (encoded F payload1) @ ellipsis # ''[clipped]'')),
               (''note'', PStr ''full result exceeded char budget; clipped for LLM context'')]
         else payload1)"

definition chart_result :: "(string, pyval) dict \<Rightarrow> bool" where
  "chart_result r \<longleftrightarrow> pget r ''envelope_type'' = PStr ''chart-emission'' \<and> is_dict (pget r ''vega_lite_spec'')"

definition summarize_value :: "object_fns \<Rightarrow> int \<Rightarrow> string \<Rightarrow> pyval \<Rightarrow> py_exn + (string, pyval) dict" where
  "summarize_value F budget tool_name result =
     (case hoist_synthetic_inputs F (base_payload F tool_name result) result of
        Inl e \<Rightarrow> Inl e
      | Inr payload \<Rightarrow> Inr (fit_payload F budget tool_name result payload))"

definition returned_refusal :: "object_fns \<Rightarrow> string \<Rightarrow> (string, pyval) dict \<Rightarrow> (string, pyval) dict" where
  "returned_refusal F tool_name r = fold (\<lambda>(k, v) d. dput k v d) (whole_fields F r) [(''tool'', PStr tool_name)]"

definition summarize_tool_result ::
  "object_fns \<Rightarrow> exn_class \<Rightarrow> int \<Rightarrow> string \<Rightarrow> pyval \<Rightarrow> py_exn option \<Rightarrow> py_exn + (string, pyval) dict" where
  "summarize_tool_result F validation_error budget tool_name result error =
     (case error of
        Some e \<Rightarrow> Inr (summarize_error F validation_error budget tool_name e)
      | None \<Rightarrow>
          (case result of
             PNone \<Rightarrow> Inr [(''tool'', PStr tool_name), (''status'', PStr ''no_result'')]
           | PDict r \<Rightarrow>
               if chart_result r then Inr (summarize_chart_emission tool_name r)
               else if empty_model_run r then Inr (summarize_empty_run F tool_name r)
               else if pget r ''status'' = PStr ''error''
               then Inr (within_budget F budget (returned_refusal F tool_name r) ''error_message'')
               else summarize_value F budget tool_name result
           | _ \<Rightarrow> summarize_value F budget tool_name result))"

section \<open>Usable results\<close>

definition layer_result_keys :: "string list" where
  "layer_result_keys = [''layers'', ''layer_uri'', ''layer'', ''published_layers'', ''result_layers'']"

definition result_has_renderable_layer :: "object_fns \<Rightarrow> pyval \<Rightarrow> bool option" where
  "result_has_renderable_layer F result =
     (case result of
        PDict r \<Rightarrow>
          (if pget r ''envelope_type'' \<noteq> PNone then Some (py_truth (pget r ''layers''))
           else if list_ex (\<lambda>key. py_truth (pget r key)) layer_result_keys then Some True
           else if list_ex (\<lambda>key. dhas r key) layer_result_keys then Some False
           else None)
      | PStr s \<Rightarrow> None
      | PNone \<Rightarrow> None
      | _ \<Rightarrow>
          (if of_attr F result ''layer_id'' \<noteq> None \<and> of_attr F result ''uri'' \<noteq> None
           then Some (py_truth (get_attr F result ''uri'')) else None))"

definition classify_result_usable :: "object_fns \<Rightarrow> pyval \<Rightarrow> (string, pyval) dict option \<Rightarrow> bool option" where
  "classify_result_usable F result summary =
     (if (case summary of Some s \<Rightarrow> pget s ''error_code'' = PStr ''NO_RENDERABLE_LAYER'' | None \<Rightarrow> False) then Some False
      else (case result of
              PDict r \<Rightarrow>
                (if pget r ''envelope_type'' = PStr ''modeled'' then Some (py_truth (pget r ''layers''))
                 else (case result_has_renderable_layer F result of
                         Some b \<Rightarrow> Some b
                       | None \<Rightarrow> if list_ex (\<lambda>k. k \<notin> set [''status'', ''tool'', ''envelope_type'']) (dkeys r)
                                 then Some True else None))
            | _ \<Rightarrow>
                (case result_has_renderable_layer F result of
                   Some b \<Rightarrow> Some b
                 | None \<Rightarrow>
                     (case result of
                        PNone \<Rightarrow> None
                      | PList xs \<Rightarrow> Some (xs \<noteq> [])
                      | PTuple xs \<Rightarrow> Some (xs \<noteq> [])
                      | PStr s \<Rightarrow> Some (s \<noteq> [])
                      | _ \<Rightarrow> Some True))))"

section \<open>The length of JSON text\<close>

lemma json_escape_length: "1 \<le> length (json_escape c) \<and> length (json_escape c) \<le> 6"
  by (simp add: json_escape_def Let_def)

definition escaped_length :: "string \<Rightarrow> nat" where
  "escaped_length s = sum_list (map (length \<circ> json_escape) s)"

lemma json_string_length: "length (json_string s) = escaped_length s + 2"
  by (simp add: json_string_def escaped_length_def length_concat comp_def)

lemma escaped_length_append [simp]: "escaped_length (a @ b) = escaped_length a + escaped_length b"
  by (simp add: escaped_length_def)

lemma escaped_length_bounds: "length s \<le> escaped_length s \<and> escaped_length s \<le> 6 * length s"
proof (induction s)
  case (Cons c s)
  then show ?case using json_escape_length [of c] by (simp add: escaped_length_def)
qed (simp add: escaped_length_def)

lemma escaped_take: "n \<le> length s \<Longrightarrow> escaped_length (take n s) + (length s - n) \<le> escaped_length s"
proof -
  assume "n \<le> length s"
  have "escaped_length s = escaped_length (take n s) + escaped_length (drop n s)"
    by (metis append_take_drop_id escaped_length_append)
  then show ?thesis using escaped_length_bounds [of "drop n s"] by simp
qed

lemma cut_mark_escaped: "escaped_length cut_mark = length cut_mark"
  by (simp add: cut_mark_def escaped_length_def json_escape_def char_code_def)

lemma join_length: "length (join sep xs) = sum_list (map length xs) + (length xs - 1) * length sep"
proof (induction sep xs rule: join.induct)
  case (3 sep x y zs)
  then show ?case by (simp add: algebra_simps)
qed simp_all

text \<open>Writing a key that is there changes the length by the difference of the two values.\<close>

definition field_length :: "object_fns \<Rightarrow> string \<times> pyval \<Rightarrow> nat" where
  "field_length F kv = length (json_string (fst kv)) + 2 + length (json_text (plain_style (of_float F)) (snd kv))"

lemma encoded_length: "length (encoded F d) = 2 + sum_list (map (field_length F) d) + (length d - 1) * 2"
proof -
  have "sum_list (map (length \<circ> (\<lambda>(k, t). json_string k @ '': '' @ t)) (json_fields (plain_style (of_float F)) d)) =
      sum_list (map (field_length F) d)"
    by (induction d) (auto simp: field_length_def)
  then show ?thesis by (simp add: encoded_def join_length key_order_def json_fields_map plain_style_def comp_def)
qed

lemma field_lengths_update:
  "dget d k = Some v \<Longrightarrow>
     sum_list (map (field_length F) (dput k w d)) + length (json_text (plain_style (of_float F)) v) =
     sum_list (map (field_length F) d) + length (json_text (plain_style (of_float F)) w) \<and> length (dput k w d) = length d"
proof (induction d)
  case (Cons p d)
  then show ?case by (cases p) (auto simp: dput_def dget_def field_length_def split: if_splits)
qed simp

lemma encoded_update:
  "dget d k = Some v \<Longrightarrow>
     length (encoded F (dput k w d)) + length (json_text (plain_style (of_float F)) v) =
     length (encoded F d) + length (json_text (plain_style (of_float F)) w)"
  using field_lengths_update [of d k v F w] by (simp add: encoded_length)

section \<open>Errors fit the budget\<close>

lemma pget_PStr_dget: "pget d k = PStr t \<Longrightarrow> dget d k = Some (PStr t)"
  by (simp add: pget_def dget_or_def split: option.splits)

lemma within_budget_fits:
  assumes "pget envelope field = PStr t"
  shows "int (length (encoded F (within_budget F budget envelope field))) \<le> budget \<or>
     pget (within_budget F budget envelope field) field = PStr cut_mark"
proof -
  define over where "over = int (length (encoded F envelope)) - budget"
  define n where "n = nat (max (int (length t) - over - int (length cut_mark)) 0)"
  show ?thesis
  proof (cases "0 < over")
    case True
    let ?new = "take n t @ cut_mark"
    have envelope: "within_budget F budget envelope field = dput field (PStr ?new) envelope"
      using True assms by (simp add: within_budget_def over_def n_def)
    show ?thesis
    proof (cases "n = 0")
      case True
      then show ?thesis by (simp add: envelope pget_def)
    next
      case False
      then have n: "int n = int (length t) - over - int (length cut_mark)" "n \<le> length t"
        using \<open>0 < over\<close> by (auto simp: n_def)
      have "length (encoded F (dput field (PStr ?new) envelope)) + (escaped_length t + 2) =
          length (encoded F envelope) + (escaped_length ?new + 2)"
        using encoded_update [OF pget_PStr_dget [OF assms], of F "PStr ?new"] by (simp add: json_string_length)
      moreover have "escaped_length ?new + (length t - n) \<le> escaped_length t + length cut_mark"
        using escaped_take [OF n(2)] by (simp add: cut_mark_escaped)
      ultimately have "length (encoded F (dput field (PStr ?new) envelope)) + (length t - n) \<le>
          length (encoded F envelope) + length cut_mark" by linarith
      then have "int (length (encoded F (dput field (PStr ?new) envelope))) \<le> budget"
        using n unfolding over_def by linarith
      then show ?thesis by (simp add: envelope)
    qed
  qed (use assms in \<open>simp add: within_budget_def over_def\<close>)
qed

lemma within_budget_keeps: "k \<noteq> field \<Longrightarrow> pget (within_budget F budget envelope field) k = pget envelope k"
  by (simp add: within_budget_def pget_def Let_def split: pyval.split)

lemma within_budget_text:
  "pget envelope field = PStr t \<Longrightarrow>
     \<exists>n. pget (within_budget F budget envelope field) field \<in> {PStr t, PStr (take n t @ cut_mark)}"
  by (auto simp: within_budget_def pget_def Let_def)

text \<open>
  C30: the summary of a tool's exception (a declined card apart) is an error with the exception's
  code, says what the exception says, cut at the mark or whole (of an operator fault, nothing),
  and fits the result budget whatever that is, unless the mark is all that is left.
\<close>

theorem error_summary_fits:
  "if py_truth (exn_attr e ''declined'') then True
   else (\<exists>s full n. summarize_tool_result F validation_error budget tool_name result (Some e) = Inr s \<and>
      pget s ''status'' = PStr ''error'' \<and> pget s ''error_code'' = PStr (fst (classify_error e)) \<and>
      pget s ''retryable'' = PBool (snd (classify_error e)) \<and>
      full = (if classify_actionability validation_error tool_name e = OperatorClass
              then ''internal error, logged'' else exc_text e) \<and>
      pget s ''message'' \<in> {PStr full, PStr (take n full @ cut_mark)} \<and>
      (int (length (encoded F s)) \<le> budget \<or> pget s ''message'' = PStr cut_mark))"
proof (cases "py_truth (exn_attr e ''declined'')")
  case False
  let ?full = "if classify_actionability validation_error tool_name e = OperatorClass
      then ''internal error, logged'' else exc_text e"
  define env where "env =
    [(''tool'', PStr tool_name), (''status'', PStr ''error''), (''error_code'', PStr (fst (classify_error e))),
     (''message'', PStr ?full), (''retryable'', PBool (snd (classify_error e))),
     (''error_type'', PStr (class_name (exc_class e))),
     (''actionability'', PStr (actionability_text (classify_actionability validation_error tool_name e)))] @
    (let suggestions = recovery_suggestions F (exn_attr e ''suggestions'')
     in if suggestions = [] then [] else [(''suggestions'', PList (map PStr suggestions))])"
  have s: "summarize_tool_result F validation_error budget tool_name result (Some e) = Inr (within_budget F budget env ''message'')"
    using False by (simp add: summarize_tool_result_def summarize_error_def env_def Let_def split: prod.split)
  have message: "pget env ''message'' = PStr ?full" by (simp add: env_def pget_def dget_or_def)
  have "pget env ''status'' = PStr ''error''" "pget env ''error_code'' = PStr (fst (classify_error e))"
    "pget env ''retryable'' = PBool (snd (classify_error e))" by (simp_all add: env_def pget_def dget_or_def)
  then show ?thesis
    using False within_budget_fits [OF message] within_budget_text [OF message, of F budget]
    by (simp add: s within_budget_keeps)
qed simp

section \<open>A run with no layer is never reported as done\<close>

text \<open>
  C31: whatever a modelled envelope without layers holds, its summary is an error that may not be
  retried, with the failure code it carries or the code of a layer that was not rendered, the
  metrics in the message; and the call counts as not usable. With a layer and no error status the
  summary is not an error and the call is usable.
\<close>

theorem modeled_run_reported_honestly:
  assumes "pget r ''envelope_type'' = PStr ''modeled''"
  shows "if empty_model_run r
    then (\<exists>s code. summarize_tool_result F validation_error budget tool_name (PDict r) None = Inr s \<and>
       pget s ''status'' = PStr ''error'' \<and> pget s ''retryable'' = PBool False \<and> pget s ''error_code'' = PStr code \<and>
       code = (case failed_modeled_envelope_error_code r of Some c \<Rightarrow> c | None \<Rightarrow> ''NO_RENDERABLE_LAYER'') \<and>
       (\<exists>message. pget s ''message'' = PStr message \<and>
          (failed_modeled_envelope_error_code r = None \<and> metrics_phrase F r \<noteq> [] \<and> contains (metrics_phrase F r) message \<or>
           failed_modeled_envelope_error_code r = None \<and> metrics_phrase F r = [] \<or>
           failed_modeled_envelope_error_code r \<noteq> None \<and> contains code message)) \<and>
       classify_result_usable F (PDict r) (Some s) = Some False)
    else (classify_result_usable F (PDict r) None = Some True \<and>
       (pget r ''status'' = PStr ''error'' \<or>
        (case summarize_tool_result F validation_error budget tool_name (PDict r) None of
           Inr s \<Rightarrow> pget s ''status'' = PStr ''ok'' | Inl e \<Rightarrow> e \<in> {basis_error, not_iterable_error})))"
proof (cases "empty_model_run r")
  case True
  have "\<not> chart_result r" using assms by (simp add: chart_result_def)
  moreover have "contains p (a @ p @ b)" for p a b by (auto simp: contains_iff)
  then have "contains c (tool_name @ '' produced no layers and the model did NOT run successfully ('' @ c @ '').'')"
      "contains p (''The simulation completed ('' @ p @ '') but the result '' @
           ''layer could not be published/rendered - it is not on the map.'')" for c p
    unfolding contains_iff by (metis append.assoc)+
  ultimately show ?thesis using True assms
    by (auto simp: summarize_tool_result_def summarize_empty_run_def Let_def pget_def dget_or_def empty_model_run_def
        classify_result_usable_def split: option.split)
next
  case False
  have usable: "classify_result_usable F (PDict r) None = Some True"
    using False assms by (simp add: classify_result_usable_def empty_model_run_def)
  have kept: "pget (dput k v d) ''status'' = pget d ''status''" if "k \<noteq> ''status''" for k v and d :: "(string, pyval) dict"
    using that by (simp add: pget_def)
  have fit: "pget (fit_payload F budget tool_name (PDict r) p) ''status'' = PStr ''ok''" if "pget p ''status'' = PStr ''ok''" for p
    using that by (simp add: fit_payload_def Let_def kept) (simp add: pget_def dget_or_def)
  have hoist: "case hoist_synthetic_inputs F p (PDict r) of Inr q \<Rightarrow> pget q ''status'' = pget p ''status''
      | Inl e \<Rightarrow> e \<in> {basis_error, not_iterable_error}" for p
    by (simp add: hoist_synthetic_inputs_def render_assumptions_line_def extract_synthetic_inputs_def Let_def kept
        split: sum.split option.split)
  have base: "pget (base_payload F tool_name (PDict r)) ''status'' = PStr ''ok''"
    by (simp add: base_payload_def pget_def dget_or_def)
  have "\<not> chart_result r" using assms by (simp add: chart_result_def)
  then have "pget r ''status'' = PStr ''error'' \<or> summarize_tool_result F validation_error budget tool_name (PDict r) None =
      summarize_value F budget tool_name (PDict r)"
    using False by (simp add: summarize_tool_result_def)
  moreover have "case summarize_value F budget tool_name (PDict r) of
           Inr s \<Rightarrow> pget s ''status'' = PStr ''ok'' | Inl e \<Rightarrow> e \<in> {basis_error, not_iterable_error}"
    using hoist [of "base_payload F tool_name (PDict r)"] base fit
    by (auto simp: summarize_value_def split: sum.splits)
  ultimately show ?thesis using False usable by auto
qed

text \<open>A result is made of plain functions of objects in the witnesses.\<close>

definition plain_objects :: object_fns where
  "plain_objects = \<lparr>of_attr = (\<lambda>v n. None), of_repr = (\<lambda>v. []), of_dump = (\<lambda>v. None), of_general = (\<lambda>v. ''1.5''),
     of_float = (\<lambda>f. ''0.0'')\<rparr>"

theorem modeled_run_reported_honestly_witness:
  "let r = [(''envelope_type'', PStr ''modeled''), (''layers'', PList []),
            (''flood'', PDict [(''metrics'', PDict [(''depth_m'', PFloat (Fin (3/2)))])])]
   in empty_model_run r \<and> metrics_phrase plain_objects r = ''depth_m 1.5'' \<and>
      (\<exists>s. summarize_tool_result plain_objects ExcValueError 4000 ''run'' (PDict r) None = Inr s \<and>
         pget s ''status'' = PStr ''error'' \<and> classify_result_usable plain_objects (PDict r) (Some s) = Some False)"
proof -
  let ?r = "[(''envelope_type'', PStr ''modeled''), (''layers'', PList []),
            (''flood'', PDict [(''metrics'', PDict [(''depth_m'', PFloat (Fin (3/2)))])])]"
  have "pget ?r ''envelope_type'' = PStr ''modeled''" "empty_model_run ?r"
    by (simp_all add: pget_def dget_or_def empty_model_run_def)
  with modeled_run_reported_honestly [of ?r plain_objects ExcValueError 4000 "''run''"] show ?thesis
    by (auto simp: metrics_phrase_def metrics_of_def plain_objects_def pget_def dget_or_def Let_def)
qed

section \<open>Opaque bytes are never summarized\<close>

text \<open>A value with what every opaque field holds, at any depth, replaced.\<close>

fun swap_opaque :: "(string \<Rightarrow> pyval) \<Rightarrow> pyval \<Rightarrow> pyval"
  and swap_items :: "(string \<Rightarrow> pyval) \<Rightarrow> pyval list \<Rightarrow> pyval list"
  and swap_fields :: "(string \<Rightarrow> pyval) \<Rightarrow> (string \<times> pyval) list \<Rightarrow> (string \<times> pyval) list" where
  "swap_opaque g (PDict d) = PDict (swap_fields g d)"
| "swap_opaque g (PList xs) = PList (swap_items g xs)"
| "swap_opaque g (PTuple xs) = PTuple (swap_items g xs)"
| "swap_opaque g v = v"
| "swap_items g [] = []"
| "swap_items g (x # xs) = swap_opaque g x # swap_items g xs"
| "swap_fields g [] = []"
| "swap_fields g ((k, v) # d) = (k, if k \<in> set opaque_fields then g k else swap_opaque g v) # swap_fields g d"

lemma swap_lengths [simp]: "length (swap_items g xs) = length xs" "map fst (swap_fields g d) = map fst d"
proof -
  show "length (swap_items g xs) = length xs" by (induction xs) simp_all
  show "map fst (swap_fields g d) = map fst d" by (induction d) auto
qed

lemma more_items_swap [simp]: "more_items (swap_items g xs) = more_items xs"
  by (simp add: more_items_def)

lemma whole_swap:
  "whole_value F (swap_opaque g v) = whole_value F v"
  "whole_items F (swap_items g xs) = whole_items F xs"
  "whole_fields F (swap_fields g d) = whole_fields F d"
  by (induction F v and F xs and F d rule: whole_value_whole_items_whole_fields.induct) simp_all

lemma coerce_swap:
  "coerce_to_summary_value F n (swap_opaque g v) = coerce_to_summary_value F n v"
  "coerce_items F n (swap_items g xs) = coerce_items F n xs"
  "coerce_fields F n (swap_fields g d) = coerce_fields F n d"
  by (induction F n v and F n xs and F n d
        rule: coerce_to_summary_value_coerce_items_coerce_fields.induct) simp_all

text \<open>
  what a returned dictionary holds under an opaque field, at any depth, reaches the model in
  neither form of its summary.
\<close>

theorem opaque_fields_suppressed:
  "whole_value F (swap_opaque g v) = whole_value F v \<and>
   coerce_to_summary_value F 0 (swap_opaque g v) = coerce_to_summary_value F 0 v"
  by (simp add: whole_swap coerce_swap)

section \<open>The budget of a result\<close>

lemma fit_payload_budget:
  assumes "0 \<le> budget"
  shows "let s = fit_payload F budget tool_name result payload in
     if dhas s ''result_summary'' \<and> \<not> dhas payload ''result_summary''
     then budget < int (length (encoded F s)) \<and>
          int (length (encoded F s)) \<le> 6 * budget + 6 * int (length tool_name) + 134 \<and>
          (\<exists>t. pget s ''result_summary'' = PStr (t @ ellipsis # ''[clipped]'') \<and> int (length t) \<le> budget)
     else int (length (encoded F s)) \<le> budget \<or> dhas payload ''result_summary''"
proof -
  define p where "p = (if budget < int (length (encoded F payload)) \<and> dhas payload ''result''
                      then dput ''result'' (coerce_to_summary_value F 0 result) payload else payload)"
  define t where "t = take (nat budget) (encoded F p)"
  define s where "s = [(''tool'', PStr tool_name), (''status'', PStr ''ok''),
               (''result_summary'', PStr (t @ ellipsis # ''[clipped]'')),
               (''note'', PStr ''full result exceeded char budget; clipped for LLM context'')]"
  have fit: "fit_payload F budget tool_name result payload = (if budget < int (length (encoded F p)) then s else p)"
    by (simp add: fit_payload_def p_def s_def t_def Let_def)
  have keys: "dhas p ''result_summary'' = dhas payload ''result_summary''" by (simp add: p_def dhas_def)
  have mark: "escaped_length (ellipsis # ''[clipped]'') = 15"
    by (simp add: escaped_length_def json_escape_def ellipsis_def char_code_def)
  have texts: "escaped_length ''tool'' = 4" "escaped_length ''status'' = 6" "escaped_length ''ok'' = 2"
    "escaped_length ''result_summary'' = 14" "escaped_length ''note'' = 4"
    "escaped_length ''full result exceeded char budget; clipped for LLM context'' = 57"
    by (simp_all add: escaped_length_def json_escape_def char_code_def)
  have len: "length (encoded F s) = 134 + escaped_length tool_name + escaped_length t"
    using mark texts by (simp add: encoded_length s_def field_length_def json_string_length)
  show ?thesis
  proof (cases "budget < int (length (encoded F p))")
    case True
    then have "int (length t) = budget" using assms by (simp add: t_def)
    then have "budget \<le> int (escaped_length t)" "int (escaped_length t) \<le> 6 * budget"
      using escaped_length_bounds [of t] by linarith+
    moreover have "escaped_length tool_name \<le> 6 * length tool_name" using escaped_length_bounds by blast
    ultimately show ?thesis using True \<open>int (length t) = budget\<close>
      by (auto simp: Let_def fit len) (auto simp: s_def dhas_def pget_def dget_or_def)
  qed (simp add: Let_def fit keys)
qed

text \<open>
  the encoded summary of a returned value fits the budget, or is the clipped form, whose text
  is a start of the encoding with the mark; it is then over the budget all the same, by less than
  six times the budget.
\<close>

theorem value_summary_budget:
  "let budget = int b; s = fit_payload F budget tool_name result payload in
     if dhas s ''result_summary'' \<and> \<not> dhas payload ''result_summary''
     then budget < int (length (encoded F s)) \<and>
          int (length (encoded F s)) \<le> 6 * budget + 6 * int (length tool_name) + 134 \<and>
          (\<exists>t. pget s ''result_summary'' = PStr (t @ ellipsis # ''[clipped]'') \<and> int (length t) \<le> budget)
     else int (length (encoded F s)) \<le> budget \<or> dhas payload ''result_summary''"
  using fit_payload_budget [of "int b" F tool_name result payload] by (simp add: Let_def)

section \<open>Where the code departs from its comments\<close>

text \<open>
  An envelope whose bulk is not its message loses the whole message to the mark, and is over the
  budget still.
\<close>

lemma short_message_is_lost:
  assumes "pget envelope field = PStr t" and "over = int (length (encoded F envelope)) - budget" and "0 < over"
    and "int (length t) \<le> over + int (length cut_mark)"
  shows "pget (within_budget F budget envelope field) field = PStr cut_mark \<and>
    length (encoded F (within_budget F budget envelope field)) + escaped_length t = length (encoded F envelope) + length cut_mark"
proof -
  have e: "within_budget F budget envelope field = dput field (PStr cut_mark) envelope"
    using assms by (simp add: within_budget_def)
  have "length (encoded F (dput field (PStr cut_mark) envelope)) + (escaped_length t + 2) =
      length (encoded F envelope) + (escaped_length cut_mark + 2)"
    using encoded_update [OF pget_PStr_dget [OF assms(1)], of F "PStr cut_mark"] by (simp add: json_string_length)
  then show ?thesis by (simp add: e cut_mark_escaped pget_def)
qed

text \<open>A refusal a tool returned is summarized as an error and counted as usable.\<close>

lemma returned_refusal_counts_as_usable:
  "\<exists>s. summarize_tool_result plain_objects ExcValueError 4000 ''fill''
         (PDict [(''status'', PStr ''error''), (''error_message'', PStr ''held'')]) None = Inr s \<and>
     pget s ''status'' = PStr ''error'' \<and>
     classify_result_usable plain_objects (PDict [(''status'', PStr ''error''), (''error_message'', PStr ''held'')]) (Some s) = Some True"
  by (simp add: summarize_tool_result_def chart_result_def empty_model_run_def within_budget_keeps returned_refusal_def
      classify_result_usable_def result_has_renderable_layer_def layer_result_keys_def opaque_fields_def dkeys_def
      pget_def dget_or_def dhas_def within_budget_keeps [unfolded pget_def dget_or_def])

text \<open>Declared inputs with a basis that is no origin make the summary raise, whatever the result holds.\<close>

lemma unknown_basis_raises:
  assumes "pget r ''synthetic_inputs'' = PList (map PDict entries)" and "\<not> list_all known_basis entries"
    and "get_attr F (PDict r) ''synthetic_inputs'' = PNone" and "\<not> chart_result r" "\<not> empty_model_run r"
    and "pget r ''status'' \<noteq> PStr ''error''"
  shows "summarize_tool_result F validation_error budget tool_name (PDict r) None = Inl basis_error"
proof -
  have dicts: "entry_dicts F (PList (map PDict entries)) = entries"
    by (simp add: entry_dicts_def) (induction entries; simp add: List.map_filter_simps)
  have "entries \<noteq> []" using assms(2) by auto
  then show ?thesis using assms
    by (simp add: summarize_tool_result_def summarize_value_def hoist_synthetic_inputs_def extract_synthetic_inputs_def
        Let_def dicts render_assumptions_line_def entry_dicts_def [of F PNone] List.map_filter_simps)
qed

end
