(* ===== verification/ToolSchemas.thy ===== *)
theory ToolSchemas
  imports ContextWindow
begin

text \<open>
  The tool catalog a model round offers: the schemas read off a registry, the prompt's tool list
  and the declarations of trid3nt_server/model/adapters/adapter.py, and the conversion of the
  declarations to the two providers' tools (openai_adapter.py with its description caps,
  anthropic_adapter.py).
\<close>

section \<open>Annotations\<close>

text \<open>
  A resolved annotation of a parameter. A container is bare (\<open>list\<close>) or has arguments
  (\<open>list[int]\<close>); \<open>AnnString\<close> is an annotation left as text; \<open>AnnOther\<close> is any annotation object
  the code asks nothing of.
\<close>

datatype container = ListC | SetC | FrozensetC | TupleC

datatype tool_annotation =
    AnnEmpty | AnnAny | AnnNone | AnnEllipsis
  | AnnStr | AnnBool | AnnInt | AnnFloat | AnnBytes
  | AnnClass string
  | AnnUnion "tool_annotation list"
  | AnnLiteral "pyval list"
  | AnnBare container
  | AnnOf container "tool_annotation list"
  | AnnDict
  | AnnString string
  | AnnOther

definition is_custom_class :: "tool_annotation \<Rightarrow> bool" where
  "is_custom_class a \<longleftrightarrow> (case a of AnnClass n \<Rightarrow> True | AnnBare FrozensetC \<Rightarrow> True | _ \<Rightarrow> False)"

definition string_node :: pyval where
  "string_node = PDict [(''type'', PStr ''string'')]"

definition typed_node :: "string \<Rightarrow> pyval" where
  "typed_node t = PDict [(''type'', PStr t)]"

text \<open>\<open>_JSON_TYPES.get(annotation, "string")\<close>.\<close>

definition json_type :: "tool_annotation \<Rightarrow> string" where
  "json_type a =
     (case a of
        AnnStr \<Rightarrow> ''string'' | AnnBool \<Rightarrow> ''boolean'' | AnnInt \<Rightarrow> ''integer'' | AnnFloat \<Rightarrow> ''number''
      | AnnBytes \<Rightarrow> ''string'' | _ \<Rightarrow> ''string'')"

text \<open>
  The class of a literal's value: a string, bytes, a number, a boolean, \<open>None\<close> or an enum member.
\<close>

definition type_of_value :: "pyval \<Rightarrow> tool_annotation" where
  "type_of_value v =
     (case v of
        PStr s \<Rightarrow> AnnStr | PBool b \<Rightarrow> AnnBool | PInt n \<Rightarrow> AnnInt | PNone \<Rightarrow> AnnNone
      | _ \<Rightarrow> AnnClass (py_str (\<lambda>u. []) v))"

fun is_list_of :: "tool_annotation \<Rightarrow> bool" where
  "is_list_of (AnnOf ListC xs) = True"
| "is_list_of a = False"

fun is_tuple_of :: "tool_annotation \<Rightarrow> bool" where
  "is_tuple_of (AnnOf TupleC xs) = True"
| "is_tuple_of a = False"

definition array_node :: "pyval \<Rightarrow> pyval" where
  "array_node items = PDict [(''type'', PStr ''array''), (''items'', items)]"

text \<open>
  The member of a union the schema speaks of: its list, where it has one; \<open>None\<close> where it is
  text for another reason.
\<close>

definition union_members :: "tool_annotation list \<Rightarrow> tool_annotation list" where
  "union_members xs = filter (\<lambda>a. a \<noteq> AnnNone) xs"

definition chosen_member :: "tool_annotation list \<Rightarrow> tool_annotation option" where
  "chosen_member members =
     (case members of
        [] \<Rightarrow> None
      | [m] \<Rightarrow> Some m
      | m # ms \<Rightarrow>
          (case find is_list_of (m # ms) of
             Some l \<Rightarrow> Some l
           | None \<Rightarrow> if AnnStr \<in> set (m # ms) then None else Some m))"

definition first_argument :: "tool_annotation list \<Rightarrow> tool_annotation" where
  "first_argument args = (case filter (\<lambda>a. a \<noteq> AnnEllipsis) args of [] \<Rightarrow> AnnStr | a # as \<Rightarrow> a)"

lemma chosen_member_in: "chosen_member (union_members xs) = Some m \<Longrightarrow> m \<in> set xs"
proof -
  assume m: "chosen_member (union_members xs) = Some m"
  have "m \<in> set (union_members xs)"
    using m by (auto simp: chosen_member_def find_Some_iff split: list.splits option.splits if_splits dest: nth_mem)
  then show ?thesis by (simp add: union_members_def)
qed

lemma first_argument_cases: "first_argument args = AnnStr \<or> first_argument args \<in> set args"
proof (cases "filter (\<lambda>a. a \<noteq> AnnEllipsis) args")
  case (Cons a as)
  from arg_cong [OF this, of set] have "a \<in> set args" by auto
  with Cons show ?thesis by (simp add: first_argument_def)
qed (simp add: first_argument_def)

lemma chosen_member_size: "chosen_member (union_members xs) = Some m \<Longrightarrow> size m < Suc (size_list size xs)"
  by (meson chosen_member_in less_Suc_eq_le order_trans size_list_estimation' order_refl)

lemma first_argument_size: "size (first_argument args) < Suc (size_list size args)"
  using first_argument_cases [of args] by (auto simp: less_Suc_eq_le intro: size_list_estimation' order_refl)

function json_schema_for_annotation :: "tool_annotation \<Rightarrow> pyval" where
  "json_schema_for_annotation a =
     (if a = AnnEmpty \<or> a = AnnAny \<or> is_custom_class a then string_node
      else case a of
        AnnUnion xs \<Rightarrow>
          (case chosen_member (union_members xs) of
             None \<Rightarrow> string_node
           | Some m \<Rightarrow> json_schema_for_annotation m)
      | AnnLiteral values \<Rightarrow>
          PDict [(''type'', PStr (case values of [] \<Rightarrow> ''string'' | v # vs \<Rightarrow> json_type (type_of_value v))),
                 (''enum'', PList values)]
      | AnnOf c args \<Rightarrow> array_node (json_schema_for_annotation (first_argument args))
      | AnnBare c \<Rightarrow> array_node (json_schema_for_annotation AnnStr)
      | AnnDict \<Rightarrow> PDict [(''type'', PStr ''object''), (''properties'', PDict [])]
      | _ \<Rightarrow> typed_node (json_type a))"
  by pat_completeness auto

termination
  by (relation "measure (\<lambda>a. size a + (if a = AnnStr then 0 else 1))") (auto dest: chosen_member_size intro: first_argument_size less_SucI)

declare json_schema_for_annotation.simps [simp del]

section \<open>The schema of a tool\<close>

datatype tool_param_kind = PlainParam | VarPositional | VarKeyword

record sig_param =
  sp_name :: string
  sp_kind :: tool_param_kind
  sp_annotation :: tool_annotation
  sp_default :: "pyval option"

text \<open>The node of a parameter, and whether the model must fill it.\<close>

definition parameter_schema :: "tool_annotation \<Rightarrow> pyval option \<Rightarrow> pyval \<times> bool" where
  "parameter_schema a dflt =
     (let unfilled = (dflt = None \<or> dflt = Some PNone) in
      if a = AnnEmpty \<or> a = AnnAny \<or> is_custom_class a then (string_node, False)
      else (case a of
              AnnUnion xs \<Rightarrow>
                (let members = union_members xs in
                 if 1 < length members \<and> list_ex is_tuple_of members then (string_node, unfilled)
                 else (json_schema_for_annotation a, unfilled \<and> length members = length xs))
            | _ \<Rightarrow> (json_schema_for_annotation a, unfilled)))"

text \<open>
  The signature of a tool's function and its resolved hints are what \<open>inspect.signature\<close> and
  \<open>get_type_hints\<close> say of it: no signature is \<open>None\<close>, hints that do not resolve are empty.
\<close>

record tool_fn =
  fn_signature :: "sig_param list option"
  fn_hints :: "(string, tool_annotation) dict"
  fn_doc :: "string option"
  fn_routing_doc :: "string option"

definition resolved_annotation :: "(string, tool_annotation) dict \<Rightarrow> sig_param \<Rightarrow> tool_annotation" where
  "resolved_annotation hints p =
     (case dget_or hints (sp_name p) (sp_annotation p) of AnnString t \<Rightarrow> AnnEmpty | a \<Rightarrow> a)"

definition public_param :: "sig_param \<Rightarrow> bool" where
  "public_param p \<longleftrightarrow>
     \<not> starts_with ''_'' (sp_name p) \<and> sp_name p \<notin> set [''self'', ''cls''] \<and> sp_kind p = PlainParam"

definition tool_schema :: "tool_fn \<Rightarrow> (string, pyval) dict" where
  "tool_schema fn =
     (case fn_signature fn of
        None \<Rightarrow> [(''type'', PStr ''object''), (''properties'', PDict [])]
      | Some params \<Rightarrow>
          (let nodes = map (\<lambda>p. (sp_name p, parameter_schema (resolved_annotation (fn_hints fn) p) (sp_default p)))
                         (filter public_param params);
               required = map fst (filter (\<lambda>n. snd (snd n)) nodes)
           in [(''type'', PStr ''object''), (''properties'', PDict (map (\<lambda>n. (fst n, fst (snd n))) nodes))] @
              (if required \<noteq> [] then [(''required'', PList (map PStr required))] else [])))"

section \<open>The catalog\<close>

record tool_declaration =
  td_name :: string
  td_description :: string
  td_schema :: "(string, pyval) dict"

record registry_entry =
  re_fn :: tool_fn
  re_tier :: string

definition build_tool_declarations :: "(string, registry_entry) dict \<Rightarrow> tool_declaration list" where
  "build_tool_declarations registry =
     map (\<lambda>(name, entry). \<lparr>td_name = name, td_description = text_or (fn_doc (re_fn entry)) (''Tool: '' @ name),
                            td_schema = tool_schema (re_fn entry)\<rparr>)
       (sort_key fst registry)"

text \<open>
  The first line of a text that is not blank, stripped: lines end at a newline, a carriage return,
  a vertical tab, a form feed, one of the three separators 0x1C to 0x1E, and 0x85.
\<close>

definition is_line_end :: "char \<Rightarrow> bool" where
  "is_line_end c \<longleftrightarrow> char_code c \<in> {10, 11, 12, 13, 28, 29, 30, 133}"

fun text_lines :: "string \<Rightarrow> string list" where
  "text_lines [] = [[]]"
| "text_lines (c # s) =
     (if is_line_end c then [] # text_lines s
      else (case text_lines s of [] \<Rightarrow> [[c]] | w # ws \<Rightarrow> (c # w) # ws))"

definition routing_line :: "tool_fn \<Rightarrow> string" where
  "routing_line fn =
     (let doc = text_or (fn_routing_doc fn) (text_or (fn_doc fn) []) in
      case filter (\<lambda>t. t \<noteq> []) (map py_strip (text_lines doc)) of [] \<Rightarrow> [] | t # ts \<Rightarrow> t)"

definition build_tool_section :: "(string, registry_entry) dict \<Rightarrow> string" where
  "build_tool_section registry =
     join [newline] (map (\<lambda>(name, entry). ''- '' @ name @ '': '' @ routing_line (re_fn entry))
       (filter (\<lambda>(name, entry). re_tier entry \<noteq> ''internal'') (sort_key fst registry)))"

definition tools_mark :: string where
  "tools_mark = ''<<TOOLS>>''"

text \<open>The prompt text of the module is the parameter \<open>prompt\<close>.\<close>

definition system_prompt_text :: "string \<Rightarrow> (string, registry_entry) dict \<Rightarrow> string" where
  "system_prompt_text prompt registry = replace_all tools_mark (build_tool_section registry) prompt"

section \<open>The catalog on the OpenAI wire\<close>

definition trunc_marker :: string where
  "trunc_marker = ''...''"

text \<open>\<open>s.rfind(" ")\<close>, and a text without its trailing whitespace.\<close>

definition last_space :: "string \<Rightarrow> int" where
  "last_space s = (if CHR '' '' \<in> set s then int (length (before_last CHR '' '' s)) else -1)"

definition rstrip :: "string \<Rightarrow> string" where
  "rstrip s = rev (dropWhile is_space (rev s))"

definition truncate_word_boundary :: "string \<Rightarrow> int \<Rightarrow> string" where
  "truncate_word_boundary t cap =
     (if cap \<le> 0 \<or> int (length t) \<le> cap then t
      else (let room = max (cap - int (length trunc_marker)) 1;
                cut = take (nat room) t;
                space = last_space cut;
                cut = (if room div 2 < space then take (nat space) cut else cut)
            in rstrip cut @ trunc_marker))"

text \<open>
  \<open>_cap_schema_descriptions\<close>: what a schema is after its descriptions were cut in place.
\<close>

fun cap_schema_descriptions :: "int \<Rightarrow> pyval \<Rightarrow> pyval"
  and cap_fields :: "int \<Rightarrow> (string \<times> pyval) list \<Rightarrow> (string \<times> pyval) list"
  and cap_values :: "int \<Rightarrow> (string \<times> pyval) list \<Rightarrow> (string \<times> pyval) list" where
  "cap_schema_descriptions cap (PDict d) = PDict (if cap \<le> 0 then d else cap_fields cap d)"
| "cap_schema_descriptions cap v = v"
| "cap_fields cap [] = []"
| "cap_fields cap ((k, v) # d) =
     (k, if k = ''description'' then (case v of PStr t \<Rightarrow> PStr (truncate_word_boundary t cap) | _ \<Rightarrow> v)
         else if k = ''properties'' then (case v of PDict props \<Rightarrow> PDict (cap_values cap props) | _ \<Rightarrow> v)
         else if k = ''items'' then cap_schema_descriptions cap v
         else v) # cap_fields cap d"
| "cap_values cap [] = []"
| "cap_values cap ((k, v) # d) = (k, cap_schema_descriptions cap v) # cap_values cap d"

text \<open>
  The declarations are shared: the parameters of a tool are a copy of the declaration's schema one
  level deep, so the cuts below that level are cuts of the declaration too. Both are the result.
\<close>

definition wire_schema :: "tool_declaration \<Rightarrow> (string, pyval) dict" where
  "wire_schema decl =
     (if pget (td_schema decl) ''type'' = PStr ''object'' then td_schema decl
      else [(''type'', PStr ''object''), (''properties'', PDict [])])"

definition openai_tool :: "int \<Rightarrow> int \<Rightarrow> tool_declaration \<Rightarrow> pyval" where
  "openai_tool tool_cap param_cap decl =
     (let described = take 1000 (if td_description decl = [] then td_name decl else td_description decl)
      in PDict
        [(''type'', PStr ''function''),
         (''function'', PDict
           [(''name'', PStr (td_name decl)),
            (''description'', PStr (if 0 < tool_cap then truncate_word_boundary described tool_cap else described)),
            (''parameters'', if 0 < tool_cap then cap_schema_descriptions param_cap (PDict (wire_schema decl))
                             else PDict (wire_schema decl))])])"

definition declaration_after :: "int \<Rightarrow> int \<Rightarrow> tool_declaration \<Rightarrow> tool_declaration" where
  "declaration_after tool_cap param_cap decl =
     (if 0 < tool_cap \<and> 0 < param_cap \<and> pget (td_schema decl) ''type'' = PStr ''object''
      then decl\<lparr>td_schema := map (\<lambda>(k, v).
             (k, if k = ''description'' then v else snd (hd (cap_fields param_cap [(k, v)])))) (td_schema decl)\<rparr>
      else decl)"

definition tool_declarations_to_openai_tools ::
  "int \<Rightarrow> int \<Rightarrow> tool_declaration list \<Rightarrow> pyval list \<times> tool_declaration list" where
  "tool_declarations_to_openai_tools tool_cap param_cap decls =
     (map (openai_tool tool_cap param_cap) decls, map (declaration_after tool_cap param_cap) decls)"

section \<open>The catalog on the Anthropic wire\<close>

definition anthropic_tool :: "tool_declaration \<Rightarrow> pyval" where
  "anthropic_tool decl =
     PDict [(''name'', PStr (td_name decl)),
            (''description'', PStr (if td_description decl = [] then td_name decl else td_description decl)),
            (''input_schema'', PDict (wire_schema decl))]"

definition tool_declarations_to_anthropic_tools :: "tool_declaration list \<Rightarrow> pyval list" where
  "tool_declarations_to_anthropic_tools decls = map anthropic_tool decls"

section \<open>Every node of a declared schema has a type\<close>

definition schema_types :: "string list" where
  "schema_types = [''string'', ''boolean'', ''integer'', ''number'', ''array'', ''object'']"

text \<open>
  What a provider takes: a known type at every node, the items of an array, and neither
  \<open>anyOf\<close> nor \<open>$ref\<close>.
\<close>

fun typed_schema :: "pyval \<Rightarrow> bool"
  and typed_fields :: "(string \<times> pyval) list \<Rightarrow> bool"
  and typed_values :: "(string \<times> pyval) list \<Rightarrow> bool" where
  "typed_schema (PDict d) \<longleftrightarrow>
     pget d ''type'' \<in> set (map PStr schema_types) \<and> \<not> dhas d ''anyOf'' \<and> \<not> dhas d ''$ref'' \<and>
     (pget d ''type'' = PStr ''array'' \<longrightarrow> dhas d ''items'') \<and> typed_fields d"
| "typed_schema v \<longleftrightarrow> False"
| "typed_fields [] \<longleftrightarrow> True"
| "typed_fields ((k, v) # d) \<longleftrightarrow>
     (k = ''items'' \<longrightarrow> typed_schema v) \<and>
     (k = ''properties'' \<longrightarrow> (case v of PDict props \<Rightarrow> typed_values props | _ \<Rightarrow> False)) \<and> typed_fields d"
| "typed_values [] \<longleftrightarrow> True"
| "typed_values ((k, v) # d) \<longleftrightarrow> typed_schema v \<and> typed_values d"

lemma typed_values_iff: "typed_values d \<longleftrightarrow> list_all (\<lambda>kv. typed_schema (snd kv)) d"
  by (induction d) auto

lemma cap_values_map: "cap_values cap d = map (\<lambda>kv. (fst kv, cap_schema_descriptions cap (snd kv))) d"
  by (induction d) auto

lemmas node_simps = string_node_def typed_node_def array_node_def pget_def dget_or_def dhas_def schema_types_def

lemma json_type_known: "json_type a \<in> {''string'', ''boolean'', ''integer'', ''number''}"
  by (cases a) (auto simp: json_type_def)

lemma string_node_typed [simp]: "typed_schema string_node"
  by (simp add: node_simps)

lemma typed_node_typed: "typed_schema (typed_node (json_type a))"
  using json_type_known [of a] by (auto simp: node_simps)

lemma array_node_typed [simp]: "typed_schema (array_node v) \<longleftrightarrow> typed_schema v"
  by (simp add: node_simps)

lemma literal_node_typed: "typed_schema (PDict [(''type'', PStr (json_type a)), (''enum'', v)])"
  using json_type_known [of a] by (auto simp: node_simps)

lemma json_schema_union:
  "json_schema_for_annotation (AnnUnion xs) =
     (case chosen_member (union_members xs) of None \<Rightarrow> string_node | Some m \<Rightarrow> json_schema_for_annotation m)"
  by (subst json_schema_for_annotation.simps) (simp add: is_custom_class_def)

lemma json_schema_of:
  "json_schema_for_annotation (AnnOf c args) = array_node (json_schema_for_annotation (first_argument args))"
  by (subst json_schema_for_annotation.simps) (simp add: is_custom_class_def)

lemma json_schema_bare:
  "json_schema_for_annotation (AnnBare c) = (if c = FrozensetC then string_node else array_node string_node)"
  by (subst json_schema_for_annotation.simps)
     (cases c; simp add: is_custom_class_def; subst json_schema_for_annotation.simps; simp add: node_simps json_type_def is_custom_class_def)

lemma json_schema_literal:
  "\<exists>t. json_schema_for_annotation (AnnLiteral vs) = PDict [(''type'', PStr (json_type t)), (''enum'', PList vs)]"
  by (subst json_schema_for_annotation.simps)
     (auto simp: is_custom_class_def json_type_def split: list.split intro: exI [of _ AnnStr])

lemma json_schema_leaf:
  "(case a of AnnUnion xs \<Rightarrow> False | AnnOf c xs \<Rightarrow> False | AnnBare c \<Rightarrow> False | AnnLiteral vs \<Rightarrow> False | _ \<Rightarrow> True) \<Longrightarrow>
   json_schema_for_annotation a \<in>
     {typed_node (json_type a), PDict [(''type'', PStr ''object''), (''properties'', PDict [])]}"
  by (subst (1) json_schema_for_annotation.simps, cases a) (auto simp: is_custom_class_def node_simps json_type_def)

lemma annotation_node_induct [case_names leaf literal array member]:
  assumes "\<And>a. json_schema_for_annotation a \<in>
       {typed_node (json_type a), string_node, PDict [(''type'', PStr ''object''), (''properties'', PDict [])]} \<Longrightarrow> P a"
    and "\<And>t vs. json_schema_for_annotation (AnnLiteral vs) = PDict [(''type'', PStr (json_type t)), (''enum'', PList vs)] \<Longrightarrow>
       P (AnnLiteral vs)"
    and "\<And>a b. P b \<Longrightarrow> json_schema_for_annotation a = array_node (json_schema_for_annotation b) \<Longrightarrow> P a"
    and "\<And>a b. P b \<Longrightarrow> json_schema_for_annotation a = json_schema_for_annotation b \<Longrightarrow> P a"
  shows "P a"
proof (induction a rule: measure_induct_rule [where f = "\<lambda>a. size a + (if a = AnnStr then 0 else 1)"])
  case (less a)
  have str: "P AnnStr" using json_schema_leaf [of AnnStr] by (intro assms(1)) auto
  show ?case
  proof (cases a)
    case (AnnUnion xs)
    show ?thesis
    proof (cases "chosen_member (union_members xs)")
      case None
      then show ?thesis by (intro assms(1)) (simp add: AnnUnion json_schema_union)
    next
      case (Some m)
      with chosen_member_size [OF this] less AnnUnion have "P m" by auto
      then show ?thesis by (rule assms(4)) (simp add: AnnUnion json_schema_union Some)
    qed
  next
    case (AnnOf c xs)
    with first_argument_size [of xs] less have "P (first_argument xs)" by auto
    then show ?thesis by (rule assms(3)) (simp add: AnnOf json_schema_of)
  next
    case (AnnBare c)
    have "json_schema_for_annotation AnnStr = string_node"
      by (subst json_schema_for_annotation.simps) (simp add: node_simps json_type_def is_custom_class_def)
    with AnnBare show ?thesis
      by (cases "c = FrozensetC") (auto intro: assms(1) assms(3) [OF str] simp: json_schema_bare)
  next
    case (AnnLiteral vs)
    then show ?thesis using json_schema_literal [of vs] assms(2) by blast
  qed (use json_schema_leaf [of a] in \<open>auto intro!: assms(1)\<close>)
qed

lemma annotation_schema_typed: "typed_schema (json_schema_for_annotation a)"
proof (induction a rule: annotation_node_induct)
  case (leaf a)
  then show ?case using typed_node_typed [of a] by (auto simp: node_simps)
next
  case (literal t vs)
  then show ?case by (simp only: literal_node_typed)
qed simp_all

lemma parameter_schema_typed: "typed_schema (fst (parameter_schema a d))"
  by (auto simp: parameter_schema_def Let_def annotation_schema_typed split: tool_annotation.split)

text \<open>No node names a description, so capping the descriptions leaves it alone.\<close>

lemma annotation_schema_uncapped: "cap_schema_descriptions cap (json_schema_for_annotation a) = json_schema_for_annotation a"
proof (induction a rule: annotation_node_induct)
  case (leaf a)
  then show ?case by (auto simp: node_simps)
qed (simp_all add: array_node_def)

lemma parameter_schema_uncapped: "cap_schema_descriptions cap (fst (parameter_schema a d)) = fst (parameter_schema a d)"
  by (auto simp: parameter_schema_def Let_def annotation_schema_uncapped string_node_def split: tool_annotation.split)

text \<open>A tool's schema: nodes made by \<open>parameter_schema\<close>, and the required names among them.\<close>

lemma tool_schema_shape:
  obtains props req where
    "tool_schema fn = [(''type'', PStr ''object''), (''properties'', PDict props)] @
        (if req \<noteq> [] then [(''required'', PList (map PStr req))] else [])"
    "list_all (\<lambda>kv. (\<exists>a d. snd kv = fst (parameter_schema a d)) \<and> \<not> starts_with ''_'' (fst kv)) props"
    "set req \<subseteq> set (dkeys props)"
proof (cases "fn_signature fn")
  case None
  then show ?thesis using that [of "[]" "[]"] by (simp add: tool_schema_def)
next
  case (Some params)
  define nodes where "nodes = map (\<lambda>p. (sp_name p, parameter_schema (resolved_annotation (fn_hints fn) p) (sp_default p)))
                       (filter public_param params)"
  define props where "props = map (\<lambda>n. (fst n, fst (snd n))) nodes"
  define req where "req = map fst (filter (\<lambda>n. snd (snd n)) nodes)"
  have "tool_schema fn = [(''type'', PStr ''object''), (''properties'', PDict props)] @
      (if req \<noteq> [] then [(''required'', PList (map PStr req))] else [])"
    unfolding tool_schema_def Some props_def req_def nodes_def Let_def by simp
  moreover have "list_all (\<lambda>kv. (\<exists>a d. snd kv = fst (parameter_schema a d)) \<and> \<not> starts_with ''_'' (fst kv)) props"
    by (auto simp: list_all_iff props_def nodes_def public_param_def)
  moreover have "set req \<subseteq> set (dkeys props)" by (auto simp: req_def props_def nodes_def dkeys_def)
  ultimately show ?thesis by (rule that)
qed

text \<open>
  C29: whatever is registered, every declared schema is an object schema in which every node
  carries a known type, no node an \<open>anyOf\<close> or a \<open>$ref\<close>, every array its items; what it requires
  are properties of it, none of them an injected (underscored) name.
\<close>

theorem catalog_schemas_typed:
  "list_all (\<lambda>decl. typed_schema (PDict (td_schema decl)) \<and> pget (td_schema decl) ''type'' = PStr ''object'' \<and>
      (\<exists>props req. dget (td_schema decl) ''properties'' = Some (PDict props) \<and>
         dget_or (td_schema decl) ''required'' (PList []) = PList (map PStr req) \<and>
         set req \<subseteq> set (dkeys props) \<and> list_all (\<lambda>k. \<not> starts_with ''_'' k) (dkeys props)))
     (build_tool_declarations registry)"
proof -
  have "typed_schema (PDict (tool_schema fn)) \<and> pget (tool_schema fn) ''type'' = PStr ''object'' \<and>
      (\<exists>props req. dget (tool_schema fn) ''properties'' = Some (PDict props) \<and>
         dget_or (tool_schema fn) ''required'' (PList []) = PList (map PStr req) \<and>
         set req \<subseteq> set (dkeys props) \<and> list_all (\<lambda>k. \<not> starts_with ''_'' k) (dkeys props))" for fn
  proof (rule tool_schema_shape [of fn])
    fix props req
    assume schema: "tool_schema fn = [(''type'', PStr ''object''), (''properties'', PDict props)] @
        (if req \<noteq> [] then [(''required'', PList (map PStr req))] else [])"
      and props: "list_all (\<lambda>kv. (\<exists>a d. snd kv = fst (parameter_schema a d)) \<and> \<not> starts_with ''_'' (fst kv)) props"
      and "set req \<subseteq> set (dkeys props)"
    have "typed_values props" using props by (auto simp: typed_values_iff list_all_iff parameter_schema_typed)
    moreover have "list_all (\<lambda>k. \<not> starts_with ''_'' k) (dkeys props)"
      using props by (auto simp: dkeys_def list_all_iff)
    ultimately show ?thesis using \<open>set req \<subseteq> set (dkeys props)\<close> by (auto simp: schema node_simps)
  qed
  then show ?thesis by (simp add: list_all_iff build_tool_declarations_def split: prod.split del: typed_schema.simps)
qed

section \<open>What the caps cut\<close>

lemma rstrip_prefix: "\<exists>w. s = rstrip s @ w"
  unfolding rstrip_def by (metis rev_append rev_rev_ident takeWhile_dropWhile_id)

lemma truncated_text:
  assumes "0 < cap" "cap < int (length t)"
  obtains p w where "truncate_word_boundary t cap = p @ trunc_marker" "t = p @ w" "length p \<le> nat (max (cap - 3) 1)"
proof -
  define room where "room = max (cap - int (length trunc_marker)) 1"
  define cut where "cut = (let c = take (nat room) t in if room div 2 < last_space c then take (nat (last_space c)) c else c)"
  obtain w where w: "cut = rstrip cut @ w" using rstrip_prefix by blast
  have "\<exists>n. n \<le> nat room \<and> cut = take n t" by (auto simp: cut_def Let_def min_def)
  then obtain n where n: "n \<le> nat room" "cut = take n t" by blast
  have "truncate_word_boundary t cap = rstrip cut @ trunc_marker"
    using assms by (simp add: truncate_word_boundary_def room_def [symmetric] cut_def Let_def)
  moreover have "t = rstrip cut @ (w @ drop n t)" using w n(2) by (metis append.assoc append_take_drop_id)
  moreover have "length (rstrip cut) \<le> nat room"
  proof -
    have "length (rstrip cut) \<le> length cut" using arg_cong [OF w, of length] by simp
    with n show ?thesis by simp
  qed
  ultimately show ?thesis by (intro that [of "rstrip cut" "w @ drop n t"]) (simp_all add: room_def trunc_marker_def)
qed

lemma truncated_length: "0 < cap \<Longrightarrow> int (length (truncate_word_boundary t cap)) \<le> max cap 4"
proof (cases "cap < int (length t)")
  assume "0 < cap"
  case True
  from truncated_text [OF \<open>0 < cap\<close> True] obtain p where
    "truncate_word_boundary t cap = p @ trunc_marker" "length p \<le> nat (max (cap - 3) 1)" by metis
  then show ?thesis by (simp add: trunc_marker_def)
qed (simp add: truncate_word_boundary_def)

lemma declared_schema_uncapped: "cap_schema_descriptions cap (PDict (tool_schema fn)) = PDict (tool_schema fn)"
proof (rule tool_schema_shape [of fn])
  fix props req
  assume "tool_schema fn = [(''type'', PStr ''object''), (''properties'', PDict props)] @
      (if req \<noteq> [] then [(''required'', PList (map PStr req))] else [])"
    and props: "list_all (\<lambda>kv. (\<exists>a d. snd kv = fst (parameter_schema a d)) \<and> \<not> starts_with ''_'' (fst kv)) props"
  moreover have "cap_values cap props = props"
    using props by (induction props) (auto simp: parameter_schema_uncapped)
  ultimately show ?thesis by auto
qed

lemma declared_schema_object: "pget (tool_schema fn) ''type'' = PStr ''object''"
  by (rule tool_schema_shape [of fn]) (simp add: node_simps)

lemma declared_after: "td_schema decl = tool_schema fn \<Longrightarrow> declaration_after tc pc decl = decl"
proof -
  assume schema: "td_schema decl = tool_schema fn"
  have cut: "cap_fields pc d = map (\<lambda>(k, v). (k, if k = ''description'' then v else snd (hd (cap_fields pc [(k, v)])))) d"
    if "\<not> dhas d ''description''" for d
    using that by (induction d) (auto simp: dhas_def)
  have "\<not> dhas (tool_schema fn) ''description''" by (rule tool_schema_shape [of fn]) (simp add: dhas_def)
  from cut [OF this] declared_schema_uncapped [of pc fn] show ?thesis
    by (auto simp: declaration_after_def schema)
qed

text \<open>
  the tools of a registry go out on the OpenAI wire in order, each with its schema whole and
  its description the registered one, or a start of it and the mark, within the cap (a cap under
  four characters is four); nothing the turn shares is changed by the cuts.
\<close>

theorem catalog_on_the_wire:
  "let decls = build_tool_declarations registry; (tools, after) = tool_declarations_to_openai_tools tool_cap param_cap decls
   in after = decls \<and>
      list_all2 (\<lambda>tool decl. \<exists>t full. tool = PDict [(''type'', PStr ''function''),
            (''function'', PDict [(''name'', PStr (td_name decl)), (''description'', PStr t),
               (''parameters'', PDict (td_schema decl))])] \<and>
          full = take 1000 (td_description decl) \<and>
          (t = full \<or> (\<exists>p w. t = p @ trunc_marker \<and> full = p @ w)) \<and>
          int (length t) \<le> (if 0 < tool_cap then max tool_cap 4 else 1000))
        tools decls"
proof -
  have "\<exists>t full. openai_tool tool_cap param_cap decl = PDict [(''type'', PStr ''function''),
            (''function'', PDict [(''name'', PStr (td_name decl)), (''description'', PStr t),
               (''parameters'', PDict (td_schema decl))])] \<and>
          full = take 1000 (td_description decl) \<and>
          (t = full \<or> (\<exists>p w. t = p @ trunc_marker \<and> full = p @ w)) \<and>
          int (length t) \<le> (if 0 < tool_cap then max tool_cap 4 else 1000)"
    if "decl \<in> set (build_tool_declarations registry)" for decl
  proof -
    from that obtain fn name where fn: "td_schema decl = tool_schema fn" "td_description decl = text_or (fn_doc fn) (''Tool: '' @ name)"
      by (auto simp: build_tool_declarations_def)
    then have full: "td_description decl \<noteq> []" by (auto simp: text_or_def some_text_def)
    let ?full = "take 1000 (td_description decl)"
    let ?t = "if 0 < tool_cap then truncate_word_boundary ?full tool_cap else ?full"
    have "openai_tool tool_cap param_cap decl = PDict [(''type'', PStr ''function''),
            (''function'', PDict [(''name'', PStr (td_name decl)), (''description'', PStr ?t),
               (''parameters'', PDict (td_schema decl))])]"
      using full declared_schema_uncapped [of param_cap fn]
      by (auto simp: openai_tool_def wire_schema_def fn(1) declared_schema_object Let_def)
    moreover have "?t = ?full \<or> (\<exists>p w. ?t = p @ trunc_marker \<and> ?full = p @ w)"
    proof (cases "0 < tool_cap \<and> tool_cap < int (length ?full)")
      case True
      with truncated_text [of tool_cap ?full] show ?thesis by metis
    qed (auto simp: truncate_word_boundary_def)
    moreover have "int (length ?t) \<le> (if 0 < tool_cap then max tool_cap 4 else 1000)"
      using truncated_length [of tool_cap ?full] by auto
    ultimately show ?thesis by blast
  qed
  moreover have "map (declaration_after tool_cap param_cap) (build_tool_declarations registry) = build_tool_declarations registry"
    by (auto simp: build_tool_declarations_def declared_after split: prod.split)
  ultimately show ?thesis
    by (auto simp: tool_declarations_to_openai_tools_def Let_def list_all2_map1 intro!: list.rel_refl_strong)
qed

section \<open>Where the code departs from its comments\<close>

text \<open>
  A union of a coordinate tuple and another spelling that admits \<open>None\<close> and has the default
  \<open>None\<close> (the \<open>bbox\<close> of \<open>build_mesh\<close>) is required of the model all the same.
\<close>

lemma nullable_tuple_union_required:
  "parameter_schema (AnnUnion [AnnOf TupleC [AnnFloat, AnnFloat, AnnFloat, AnnFloat], AnnOf ListC [AnnFloat], AnnStr, AnnNone])
     (Some PNone) = (string_node, True)"
  by (simp add: parameter_schema_def is_custom_class_def union_members_def)

text \<open>
  A description of a property is cut in the shared declaration, and the Anthropic tools made of it
  later carry the cut text.
\<close>

lemma slimming_cuts_the_shared_declaration:
  "let decl = \<lparr>td_name = ''t'', td_description = ''d'',
        td_schema = [(''type'', PStr ''object''),
          (''properties'', PDict [(''a'', PDict [(''type'', PStr ''string''), (''description'', PStr ''0123456789'')])])]\<rparr>;
       after = hd (snd (tool_declarations_to_openai_tools 600 8 [decl]))
   in td_schema after = [(''type'', PStr ''object''),
          (''properties'', PDict [(''a'', PDict [(''type'', PStr ''string''), (''description'', PStr ''01234...'')])])] \<and>
      anthropic_tool after \<noteq> anthropic_tool decl"
  by (simp add: tool_declarations_to_openai_tools_def declaration_after_def anthropic_tool_def wire_schema_def
      truncate_word_boundary_def last_space_def rstrip_def trunc_marker_def is_space_def char_code_def node_simps)

text \<open>A cap under four characters is exceeded.\<close>

lemma tiny_cap_exceeded: "truncate_word_boundary ''abcdef'' 2 = ''a...''"
  by (simp add: truncate_word_boundary_def last_space_def rstrip_def trunc_marker_def is_space_def char_code_def)

end
