(* ===== verification/ModelRounds.thy ===== *)
theory ModelRounds
  imports ReplyGuards ProviderWire ToolSchemas
begin

text \<open>
  One model turn on the OpenAI wire, of trid3nt_server/model/adapters: the stream events and the
  retry policy of adapter.py, and the round of openai_adapter.py with its retries and its guard
  against a clipped prompt. What the provider answers, request by request, is a parameter.
\<close>

section \<open>Stream events\<close>

record usage_metadata =
  um_cached :: "int option"
  um_total :: "int option"
  um_prompt :: "int option"
  um_candidates :: "int option"
  um_cache_hit :: bool
  um_reasoning :: "int option"

datatype stream_event =
    TextDelta string
  | ThinkingDelta string
  | FunctionCallEvent string "string option" "(string, pyval) dict"
  | UsageMetadata usage_metadata
  | CompactionStart
  | CompactionComplete int int

definition compaction_events :: "turn_plan \<Rightarrow> stream_event list" where
  "compaction_events plan = [CompactionStart, CompactionComplete (tp_before_tokens plan) (tp_after_tokens plan)]"

section \<open>The retry policy\<close>

definition provider_retries :: nat where
  "provider_retries = 3"

definition provider_backoff_s :: rat where
  "provider_backoff_s = 5"

definition provider_backoff_wait :: "nat \<Rightarrow> rat \<Rightarrow> rat" where
  "provider_backoff_wait attempt cap = max 0 (min (provider_backoff_s * 2 ^ attempt) cap)"

text \<open>
  An exception of a provider package, with what the code reads of it: \<open>message\<close>, \<open>status_code\<close>,
  the status and the headers of its response, and its body. A header is absent or a text.
\<close>

record api_error =
  ae_exn :: py_exn
  ae_message :: "string option"
  ae_status :: "int option"
  ae_response_status :: "int option"
  ae_headers :: "(string \<Rightarrow> string option) option"
  ae_body :: pyval

definition upstream_provider_error :: "string \<Rightarrow> string \<Rightarrow> nat \<Rightarrow> py_exn" where
  "upstream_provider_error provider detail attempts =
     \<lparr>exc_class = Derived ''UpstreamProviderError'' ExcRuntimeError,
      exc_text = ''upstream provider '' @ provider @ '' unavailable after '' @ show_nat attempts @ '' attempt(s): '' @ detail,
      exc_attrs = [(''error_class'', PStr ''upstream_provider''), (''provider'', PStr provider),
                   (''detail'', PStr detail), (''attempts'', PInt (int attempts))]\<rparr>"

definition overflow_error :: py_exn where
  "overflow_error = plain_exn (Derived ''OverflowError'' (Derived ''ArithmeticError'' ExcException))
     ''int too large to convert to float''"

section \<open>Transient faults of an OpenAI-compatible provider\<close>

text \<open>The classes of the \<open>openai\<close> package the code tests.\<close>

record openai_classes =
  oc_api_error :: exn_class
  oc_rejections :: "exn_class list"
  oc_rate_limit :: exn_class
  oc_connection :: exn_class

definition transient_upstream_signatures :: "string list" where
  "transient_upstream_signatures =
     [''resourceexhausted'', ''worker local total request limit'', ''temporarily rate-limited'',
      ''temporarily rate limited'', ''overloaded'', ''over capacity'', ''please try again'',
      ''service unavailable'', ''bad gateway'', ''gateway timeout'', ''502'', ''503'', ''504'']"

definition is_transient_upstream :: "openai_classes \<Rightarrow> api_error \<Rightarrow> bool" where
  "is_transient_upstream C e =
     (if isinstance (ae_exn e) (oc_rejections C) then False
      else if isinstance (ae_exn e) [oc_rate_limit C] then True
      else if isinstance (ae_exn e) [oc_connection C] then True
      else if (case (case ae_status e of None \<Rightarrow> ae_response_status e | s \<Rightarrow> s) of
                 None \<Rightarrow> False | Some status \<Rightarrow> 500 \<le> status) then True
      else isinstance (ae_exn e) [oc_api_error C] \<and>
           (let msg = py_lower (text_or (ae_message e) [] @ '' '' @ exc_text (ae_exn e))
            in list_ex (\<lambda>sig. contains sig msg) transient_upstream_signatures))"

definition rate_limit_max_wait_s :: rat where
  "rate_limit_max_wait_s = 45"

definition backoff_wait_s :: "nat \<Rightarrow> rat" where
  "backoff_wait_s attempt = max 1 (provider_backoff_wait attempt rate_limit_max_wait_s)"

text \<open>\<open>max(1.0, min(wait, 45.0))\<close>; a comparison with a NaN is false.\<close>

definition clamp_wait :: "pyfloat \<Rightarrow> rat" where
  "clamp_wait w =
     (case w of
        Fin q \<Rightarrow> max 1 (min q rate_limit_max_wait_s)
      | PosInf \<Rightarrow> rate_limit_max_wait_s
      | NegInf \<Rightarrow> 1
      | NaN \<Rightarrow> 1)"

definition header_wait :: "api_error \<Rightarrow> pyfloat option" where
  "header_wait e =
     (case ae_headers e of
        None \<Rightarrow> None
      | Some get \<Rightarrow>
          (case (if some_text (get ''retry-after'') then get ''retry-after'' else get ''Retry-After'') of
             None \<Rightarrow> None
           | Some raw \<Rightarrow> float_of_text raw))"

text \<open>\<open>(body or {}).get("error", {}).get("metadata", {}).get("retry_after_seconds")\<close>.\<close>

definition body_retry_after :: "pyval \<Rightarrow> pyval" where
  "body_retry_after body =
     (case py_or body (PDict []) of
        PDict b \<Rightarrow>
          (case dget_or b ''error'' (PDict []) of
             PDict err \<Rightarrow>
               (case dget_or err ''metadata'' (PDict []) of
                  PDict meta \<Rightarrow> pget meta ''retry_after_seconds''
                | _ \<Rightarrow> PNone)
           | _ \<Rightarrow> PNone)
      | _ \<Rightarrow> PNone)"

text \<open>\<open>None\<close> is the \<open>OverflowError\<close> of an integer no double holds, which is not caught.\<close>

definition retry_after_seconds :: "api_error \<Rightarrow> nat \<Rightarrow> rat option" where
  "retry_after_seconds e attempt =
     (case header_wait e of
        Some w \<Rightarrow> Some (clamp_wait w)
      | None \<Rightarrow>
          (case float_of_value (body_retry_after (ae_body e)) of
             Inr w \<Rightarrow> Some (clamp_wait w)
           | Inl False \<Rightarrow> Some (backoff_wait_s attempt)
           | Inl True \<Rightarrow> None))"

text \<open>A 429 honors the provider; any other fault waits by the schedule.\<close>

definition openai_wait :: "openai_classes \<Rightarrow> api_error \<Rightarrow> nat \<Rightarrow> rat option" where
  "openai_wait C e attempt =
     (if isinstance (ae_exn e) [oc_rate_limit C] then retry_after_seconds e attempt else Some (backoff_wait_s attempt))"

section \<open>Opening a stream\<close>

text \<open>What a request gets: an exception of the package, or a stream.\<close>

record oai_request =
  rq_model :: string
  rq_messages :: "oai_message list"
  rq_tools :: "pyval list"
  rq_temperature :: pyfloat
  rq_max_tokens :: int

definition openai_base_url :: "environ \<Rightarrow> string option" where
  "openai_base_url env =
     (let url = env_stripped env ''TRID3NT_OPENAI_BASE_URL'' in if url = [] then None else Some url)"

definition provider_label :: "environ \<Rightarrow> string" where
  "provider_label env =
     (case openai_base_url env of
        None \<Rightarrow> ''unknown''
      | Some url \<Rightarrow> if url_split_raises url then ''unknown''
                    else if url_netloc url \<noteq> [] then url_netloc url else url) @ '' (openai-compatible)''"

text \<open>
  The attempts of \<open>_create_stream_with_retry\<close>: \<open>left\<close> retries left after this attempt, \<open>n\<close>
  requests made by the process before it. The result is the waits, the requests made and the
  stream or the exception.
\<close>

fun create_attempts ::
  "openai_classes \<Rightarrow> string \<Rightarrow> (nat \<Rightarrow> api_error + 's) \<Rightarrow> nat \<Rightarrow> nat \<Rightarrow> nat \<Rightarrow> rat list \<times> nat \<times> (py_exn + 's)" where
  "create_attempts C label answer left attempt n =
     (case answer n of
        Inr stream \<Rightarrow> ([], Suc n, Inr stream)
      | Inl e \<Rightarrow>
          if \<not> isinstance (ae_exn e) [oc_api_error C] \<or> \<not> is_transient_upstream C e
          then ([], Suc n, Inl (ae_exn e))
          else (case left of
                  0 \<Rightarrow> ([], Suc n, Inl (upstream_provider_error label (exc_text (ae_exn e)) (Suc attempt)))
                | Suc left' \<Rightarrow>
                    (case openai_wait C e attempt of
                       None \<Rightarrow> ([], Suc n, Inl overflow_error)
                     | Some wait \<Rightarrow>
                         (let (waits, n', r) = create_attempts C label answer left' (Suc attempt) (Suc n)
                          in (wait # waits, n', r)))))"

declare create_attempts.simps [simp del]

definition create_stream_with_retry ::
  "openai_classes \<Rightarrow> string \<Rightarrow> (nat \<Rightarrow> api_error + 's) \<Rightarrow> nat \<Rightarrow> rat list \<times> nat \<times> (py_exn + 's)" where
  "create_stream_with_retry C label answer n = create_attempts C label answer provider_retries 0 n"

section \<open>One streamed round\<close>

text \<open>
  A chunk of the stream: its choices, each with a delta or none, and its usage report. A fragment
  of a tool call names the call's index; the reasoning channel is an attribute or an extra field.
\<close>

record call_fragment =
  cf_index :: int
  cf_id :: "string option"
  cf_name :: "string option"
  cf_arguments :: "string option"

record stream_delta =
  de_content :: "string option"
  de_reasoning :: pyval
  de_reasoning_content :: pyval
  de_extra :: pyval
  de_calls :: "call_fragment list"

datatype usage_details = DetailsObject pyval | DetailsValue pyval

record stream_usage =
  su_prompt :: "int option"
  su_completion :: "int option"
  su_total :: "int option"
  su_details :: "usage_details option"
  su_extra :: pyval

record stream_chunk =
  ck_choices :: "stream_delta option list"
  ck_usage :: "stream_usage option"

definition delta_reasoning :: "stream_delta \<Rightarrow> pyval" where
  "delta_reasoning d =
     (let reasoning = py_or (de_reasoning d) (de_reasoning_content d) in
      if py_truth reasoning then reasoning
      else (case de_extra d of
              PDict extra \<Rightarrow> py_or (pget extra ''reasoning'') (pget extra ''reasoning_content'')
            | _ \<Rightarrow> reasoning))"

definition delta_events :: "stream_delta \<Rightarrow> stream_event list" where
  "delta_events d =
     (if some_text (de_content d) then [TextDelta (the (de_content d))] else []) @
     (case delta_reasoning d of PStr t \<Rightarrow> if t \<noteq> [] then [ThinkingDelta t] else [] | _ \<Rightarrow> [])"

text \<open>\<open>isinstance(v, int)\<close>, which takes a boolean.\<close>

definition as_int :: "pyval \<Rightarrow> int option" where
  "as_int v = (case v of PInt n \<Rightarrow> Some n | PBool b \<Rightarrow> Some (if b then 1 else 0) | _ \<Rightarrow> None)"

definition reasoning_tokens :: "stream_usage \<Rightarrow> int option" where
  "reasoning_tokens u =
     (let details = (case su_details u of
            None \<Rightarrow> (case su_extra u of PDict extra \<Rightarrow> DetailsValue (pget extra ''completion_tokens_details'')
                                       | _ \<Rightarrow> DetailsValue PNone)
          | Some d \<Rightarrow> d)
      in case details of
           DetailsObject v \<Rightarrow> as_int v
         | DetailsValue (PDict d) \<Rightarrow> as_int (pget d ''reasoning_tokens'')
         | DetailsValue _ \<Rightarrow> None)"

definition usage_event :: "stream_usage \<Rightarrow> stream_event list" where
  "usage_event u =
     (if su_prompt u = None \<and> su_completion u = None \<and> su_total u = None then []
      else [UsageMetadata \<lparr>um_cached = None, um_total = su_total u, um_prompt = su_prompt u,
              um_candidates = su_completion u, um_cache_hit = False, um_reasoning = reasoning_tokens u\<rparr>])"

definition chunk_events :: "stream_chunk \<Rightarrow> stream_event list" where
  "chunk_events ck =
     concat (map (\<lambda>choice. case choice of None \<Rightarrow> [] | Some d \<Rightarrow> delta_events d) (ck_choices ck)) @
     (case ck_usage ck of None \<Rightarrow> [] | Some u \<Rightarrow> usage_event u)"

record call_buffer =
  cb_id :: string
  cb_name :: string
  cb_args :: string

definition fresh_buffer :: call_buffer where
  "fresh_buffer = \<lparr>cb_id = [], cb_name = [], cb_args = []\<rparr>"

definition add_fragment :: "call_fragment \<Rightarrow> (int, call_buffer) dict \<Rightarrow> (int, call_buffer) dict" where
  "add_fragment f accs =
     (let acc = dget_or accs (cf_index f) fresh_buffer
      in dput (cf_index f)
           \<lparr>cb_id = cb_id acc @ text_or (cf_id f) [], cb_name = cb_name acc @ text_or (cf_name f) [],
            cb_args = cb_args acc @ text_or (cf_arguments f) []\<rparr> accs)"

definition chunk_fragments :: "stream_chunk \<Rightarrow> call_fragment list" where
  "chunk_fragments ck = concat (map (\<lambda>choice. case choice of None \<Rightarrow> [] | Some d \<Rightarrow> de_calls d) (ck_choices ck))"

definition accumulate_calls :: "stream_chunk list \<Rightarrow> (int, call_buffer) dict" where
  "accumulate_calls chunks = fold add_fragment (concat (map chunk_fragments chunks)) []"

text \<open>\<open>loads\<close> is \<open>json.loads\<close>, \<open>None\<close> where it raises \<open>JSONDecodeError\<close>.\<close>

definition buffer_args :: "(string \<Rightarrow> pyval option) \<Rightarrow> string \<Rightarrow> (string, pyval) dict" where
  "buffer_args loads buf =
     (if py_strip buf = [] then [] else case loads buf of Some (PDict d) \<Rightarrow> d | _ \<Rightarrow> [])"

definition call_event :: "(string \<Rightarrow> pyval option) \<Rightarrow> call_buffer \<Rightarrow> stream_event list" where
  "call_event loads acc =
     (if cb_name acc = [] then []
      else [FunctionCallEvent (cb_name acc) (if cb_id acc = [] then None else Some (cb_id acc))
              (buffer_args loads (cb_args acc))])"

definition call_events :: "(string \<Rightarrow> pyval option) \<Rightarrow> (int, call_buffer) dict \<Rightarrow> stream_event list" where
  "call_events loads accs = concat (map (\<lambda>(i, acc). call_event loads acc) (sort_key fst accs))"

text \<open>A stream: its chunks, and the exception that broke it off, if any did.\<close>

type_synonym openai_stream = "stream_chunk list \<times> py_exn option"

definition stream_events_of :: "(string \<Rightarrow> pyval option) \<Rightarrow> openai_stream \<Rightarrow> stream_event list" where
  "stream_events_of loads stream =
     (let (chunks, broken) = stream
      in concat (map chunk_events chunks) @ (if broken = None then call_events loads (accumulate_calls chunks) else []))"

text \<open>
  What a part of a turn leaves: the events yielded, the waits slept, the requests the process has
  made, and the exception raised, if any.
\<close>

record run_trace =
  rt_events :: "stream_event list"
  rt_waits :: "rat list"
  rt_requests :: nat
  rt_error :: "py_exn option"

definition trace_then :: "run_trace \<Rightarrow> (nat \<Rightarrow> run_trace) \<Rightarrow> run_trace" where
  "trace_then t next =
     (if rt_error t \<noteq> None then t
      else (let u = next (rt_requests t)
            in u\<lparr>rt_events := rt_events t @ rt_events u, rt_waits := rt_waits t @ rt_waits u\<rparr>))"

definition stream_one_round ::
  "openai_classes \<Rightarrow> string \<Rightarrow> (string \<Rightarrow> pyval option) \<Rightarrow> (nat \<Rightarrow> api_error + openai_stream) \<Rightarrow> nat \<Rightarrow> run_trace" where
  "stream_one_round C label loads answer n =
     (let (waits, n', opened) = create_stream_with_retry C label answer n
      in case opened of
           Inl e \<Rightarrow> \<lparr>rt_events = [], rt_waits = waits, rt_requests = n', rt_error = Some e\<rparr>
         | Inr stream \<Rightarrow> \<lparr>rt_events = stream_events_of loads stream, rt_waits = waits, rt_requests = n',
                          rt_error = snd stream\<rparr>)"

section \<open>The turn\<close>

text \<open>What a turn is given: the package's classes, the environment, the provider and the settings.\<close>

record openai_setup =
  os_classes :: openai_classes
  os_env :: environ
  os_text :: text_env
  os_answers :: provider_answers
  os_client :: "nat \<Rightarrow> oai_request \<Rightarrow> api_error + openai_stream"
  os_loads :: "string \<Rightarrow> pyval option"
  os_temperature :: pyfloat
  os_tool_cap :: int
  os_param_cap :: int

definition openai_model :: "environ \<Rightarrow> string option \<Rightarrow> string option" where
  "openai_model env session_model =
     (if some_text session_model then session_model
      else (let configured = env_stripped env ''TRID3NT_OPENAI_MODEL'' in if configured = [] then None else Some configured))"

definition unset_error :: "string \<Rightarrow> string \<Rightarrow> py_exn" where
  "unset_error name examples = plain_exn ExcRuntimeError
     (''MODEL_PROVIDER=openai requires '' @ name @ '' to be set (e.g. '' @ examples @
      ''). Set it in the environment and restart the agent.'')"

text \<open>The \<open>TypeError\<close> of \<open>json.dumps\<close>; the class it names is left out of the text.\<close>

definition not_json_error :: py_exn where
  "not_json_error = plain_exn ExcTypeError ''Object is not JSON serializable''"

fun role_text :: "oai_role \<Rightarrow> string" where
  "role_text SystemR = ''system''"
| "role_text UserR = ''user''"
| "role_text AssistantR = ''assistant''"
| "role_text ToolR = ''tool''"

definition call_value :: "oai_call \<Rightarrow> pyval" where
  "call_value c =
     PDict [(''id'', PStr (oc_id c)), (''type'', PStr ''function''),
            (''function'', PDict [(''name'', PStr (oc_name c)), (''arguments'', PStr (oc_arguments c))])]"

definition message_value :: "oai_message \<Rightarrow> pyval" where
  "message_value m =
     PDict ([(''role'', PStr (role_text (om_role m)))] @
       (case om_call_id m of None \<Rightarrow> [] | Some i \<Rightarrow> [(''tool_call_id'', PStr i)]) @
       (if om_calls m = [] then [] else [(''tool_calls'', PList (map call_value (om_calls m)))]) @
       [(''content'', case om_content m of None \<Rightarrow> PNone | Some t \<Rightarrow> PStr t)])"

record openai_turn =
  ot_setup :: openai_setup
  ot_model :: string
  ot_window :: context_window
  ot_tools :: "pyval list"
  ot_tool_tokens :: int
  ot_sys_tokens :: int
  ot_system_prompt :: "string option"
  ot_show_thinking :: bool

definition turn_messages :: "openai_turn \<Rightarrow> message list \<Rightarrow> oai_message list option" where
  "turn_messages T contents =
     contents_to_openai_messages (num_text (os_text (ot_setup T))) (os_env (ot_setup T)) contents
       (ot_system_prompt T) (ot_show_thinking T)"

definition turn_request :: "openai_turn \<Rightarrow> oai_message list \<Rightarrow> oai_request" where
  "turn_request T messages =
     \<lparr>rq_model = ot_model T, rq_messages = messages, rq_tools = ot_tools T,
      rq_temperature = os_temperature (ot_setup T), rq_max_tokens = openai_max_output_tokens\<rparr>"

definition last_prompt_tokens :: "stream_event list \<Rightarrow> int option" where
  "last_prompt_tokens events =
     (case filter (\<lambda>e. case e of UsageMetadata u \<Rightarrow> True | _ \<Rightarrow> False) (rev events) of
        UsageMetadata u # rest \<Rightarrow> um_prompt u
      | _ \<Rightarrow> None)"

definition reactive_plan :: "openai_turn \<Rightarrow> message list \<Rightarrow> turn_plan" where
  "reactive_plan T contents =
     plan_turn (os_text (ot_setup T)) contents (ot_window T) (ot_tool_tokens T) (ot_sys_tokens T) None None None Reactive"

definition openai_round :: "openai_turn \<Rightarrow> oai_message list \<Rightarrow> nat \<Rightarrow> run_trace" where
  "openai_round T messages n =
     stream_one_round (os_classes (ot_setup T)) (provider_label (os_env (ot_setup T))) (os_loads (ot_setup T))
       (\<lambda>k. os_client (ot_setup T) k (turn_request T messages)) n"

text \<open>The loop of \<open>stream_openai\<close>, in its \<open>attempt\<close>th pass.\<close>

function openai_rounds :: "openai_turn \<Rightarrow> message list \<Rightarrow> oai_message list \<Rightarrow> nat \<Rightarrow> nat \<Rightarrow> run_trace" where
  "openai_rounds T contents messages attempt n =
     (let t = openai_round T messages n in
      if rt_error t \<noteq> None \<or> \<not> is_prompt_clipped (last_prompt_tokens (rt_events t)) (win_tokens (ot_window T))
      then t
      else if 2 \<le> attempt
      then t\<lparr>rt_error := Some (context_window_exceeded (win_tokens (ot_window T)))\<rparr>
      else (let plan = reactive_plan T contents in
            case turn_messages T (tp_contents plan) of
              None \<Rightarrow> t\<lparr>rt_error := Some not_json_error\<rparr>
            | Some messages' \<Rightarrow>
                trace_then (t\<lparr>rt_events := rt_events t @ compaction_events plan\<rparr>)
                  (\<lambda>n'. openai_rounds T (tp_contents plan) messages' (Suc attempt) n')))"
  by pat_completeness auto

termination
  by (relation "measure (\<lambda>(T, contents, messages, attempt, n). 2 - attempt)") auto

declare openai_rounds.simps [simp del]

text \<open>
  What comes before the loop: the model and the base URL, the window, the tools, and the check of
  the budget. The result is the turn, its contents and messages, and the events of a compaction.
\<close>

definition openai_start ::
  "openai_setup \<Rightarrow> message list \<Rightarrow> tool_declaration list \<Rightarrow> string option \<Rightarrow> string option \<Rightarrow> bool \<Rightarrow> window_cache
     \<Rightarrow> (py_exn + openai_turn \<times> message list \<times> oai_message list \<times> stream_event list) \<times> window_cache" where
  "openai_start S contents decls system_prompt model show_thinking cache =
     (case openai_model (os_env S) model of
        None \<Rightarrow> (Inl (unset_error ''TRID3NT_OPENAI_MODEL'' (CHR 0x27 # ''llama3.2:3b'' @ CHR 0x27 # '' for Ollama or '' @ CHR 0x27 # ''gpt-4o'' @ CHR 0x27 # '' for OpenAI'')), cache)
      | Some resolved \<Rightarrow>
          (case openai_base_url (os_env S) of
             None \<Rightarrow> (Inl (unset_error ''TRID3NT_OPENAI_BASE_URL'' ''http://localhost:11434/v1 for Ollama''), cache)
           | Some base_url \<Rightarrow>
               (let (window, cache') = discover_context_window (os_env S) (os_answers S) ''openai'' resolved (Some base_url) cache;
                    tools = fst (tool_declarations_to_openai_tools (os_tool_cap S) (os_param_cap S) decls);
                    T = \<lparr>ot_setup = S, ot_model = resolved, ot_window = window, ot_tools = tools,
                         ot_tool_tokens = estimate_tokens_for_tools (os_text S) (Some tools),
                         ot_sys_tokens = (if some_text system_prompt then estimate_tokens (the system_prompt) else 0),
                         ot_system_prompt = system_prompt, ot_show_thinking = show_thinking\<rparr>
                in (case turn_messages T contents of
                      None \<Rightarrow> Inl not_json_error
                    | Some messages \<Rightarrow>
                        (let plan = plan_turn (os_text S) contents window (ot_tool_tokens T) (ot_sys_tokens T)
                               (Some (estimate_tokens_for_messages (os_text S) (map message_value messages) + ot_tool_tokens T))
                               None None Proactive
                         in if \<not> tp_compacted plan then Inr (T, contents, messages, [])
                            else (case turn_messages T (tp_contents plan) of
                                    None \<Rightarrow> Inl not_json_error
                                  | Some messages' \<Rightarrow> Inr (T, tp_contents plan, messages', compaction_events plan))),
                    cache'))))"

definition stream_openai ::
  "openai_setup \<Rightarrow> message list \<Rightarrow> tool_declaration list \<Rightarrow> string option \<Rightarrow> string option \<Rightarrow> bool \<Rightarrow> nat \<Rightarrow> window_cache
     \<Rightarrow> run_trace \<times> window_cache" where
  "stream_openai S contents decls system_prompt model show_thinking n cache =
     (let (start, cache') = openai_start S contents decls system_prompt model show_thinking cache in
      (case start of
         Inl e \<Rightarrow> \<lparr>rt_events = [], rt_waits = [], rt_requests = n, rt_error = Some e\<rparr>
       | Inr (T, contents', messages, events) \<Rightarrow>
           trace_then \<lparr>rt_events = events, rt_waits = [], rt_requests = n, rt_error = None\<rparr>
             (\<lambda>n. openai_rounds T contents' messages 1 n),
       cache'))"

section \<open>Waits between attempts\<close>

text \<open>
  A retry policy waits within its limits; the waits of a run are bounded together by their number.
\<close>

locale wait_policy =
  fixes wait :: "'e \<Rightarrow> nat \<Rightarrow> rat option"
    and shortest longest :: rat
  assumes within: "wait e k = Some w \<Longrightarrow> shortest \<le> w \<and> w \<le> longest"
begin

definition waited :: "rat list \<Rightarrow> bool" where
  "waited ws \<longleftrightarrow> list_all (\<lambda>w. \<exists>e k. wait e k = Some w) ws"

lemma waited_Cons: "wait e k = Some w \<Longrightarrow> waited ws \<Longrightarrow> waited (w # ws)"
  by (auto simp: waited_def)

lemma waited_Nil [simp]: "waited []"
  by (simp add: waited_def)

lemma waited_append [simp]: "waited (ws @ vs) \<longleftrightarrow> waited ws \<and> waited vs"
  by (simp add: waited_def)

lemma waited_within: "waited ws \<Longrightarrow> list_all (\<lambda>w. shortest \<le> w \<and> w \<le> longest) ws"
  using within by (auto simp: waited_def list_all_iff)

lemma waited_total: "waited ws \<Longrightarrow> sum_list ws \<le> of_nat (length ws) * longest"
proof (induction ws)
  case (Cons w ws)
  then have "w \<le> longest" "sum_list ws \<le> of_nat (length ws) * longest" using within by (auto simp: waited_def)
  then show ?case by (simp add: algebra_simps)
qed simp

end

lemma backoff_wait_within: "1 \<le> backoff_wait_s k \<and> backoff_wait_s k \<le> 45"
  by (simp add: backoff_wait_s_def provider_backoff_wait_def rate_limit_max_wait_s_def)

lemma clamp_wait_within: "1 \<le> clamp_wait w \<and> clamp_wait w \<le> 45"
  by (auto simp: clamp_wait_def rate_limit_max_wait_s_def split: pyfloat.split)

interpretation openai_waits: wait_policy "openai_wait C" 1 45 for C
  by unfold_locales
     (auto simp: openai_wait_def retry_after_seconds_def backoff_wait_within clamp_wait_within
       split: if_splits option.splits sum.splits bool.splits)

lemma create_attempts_bounds:
  "create_attempts C label answer left attempt n = (waits, n', r) \<Longrightarrow>
     openai_waits.waited C waits \<and> length waits \<le> left \<and> n' = n + Suc (length waits)"
proof (induction left arbitrary: attempt n waits n' r)
  case 0
  then show ?case by (auto simp: create_attempts.simps [of _ _ _ 0] split: sum.splits if_splits)
next
  case (Suc left)
  note step = create_attempts.simps [of C label answer "Suc left" attempt n]
  show ?case
  proof (cases "\<exists>e w. answer n = Inl e \<and> isinstance (ae_exn e) [oc_api_error C] \<and> is_transient_upstream C e \<and>
      openai_wait C e attempt = Some w")
    case True
    then obtain e w where e: "answer n = Inl e" "isinstance (ae_exn e) [oc_api_error C]" "is_transient_upstream C e"
      "openai_wait C e attempt = Some w" by blast
    obtain ws m s where rec: "create_attempts C label answer left (Suc attempt) (Suc n) = (ws, m, s)"
      by (metis prod_cases3)
    with Suc.prems e have "waits = w # ws" "n' = m" by (auto simp: step)
    with Suc.IH [OF rec] e(4) show ?thesis by (auto intro: openai_waits.waited_Cons)
  next
    case False
    with Suc.prems show ?thesis by (auto simp: step split: sum.splits if_splits option.splits)
  qed
qed

lemma openai_round_bounds:
  "openai_waits.waited C (rt_waits (stream_one_round C label loads answer n)) \<and>
   length (rt_waits (stream_one_round C label loads answer n)) \<le> 3 \<and>
   rt_requests (stream_one_round C label loads answer n) =
     n + Suc (length (rt_waits (stream_one_round C label loads answer n)))"
proof -
  obtain waits n' r where c: "create_attempts C label answer 3 0 n = (waits, n', r)" by (metis prod_cases3)
  from create_attempts_bounds [OF this] show ?thesis
    by (simp add: stream_one_round_def create_stream_with_retry_def provider_retries_def c split: sum.split)
qed

section \<open>The turn ends\<close>

lemma trace_then_error: "rt_error t \<noteq> None \<Longrightarrow> trace_then t f = t"
  by (simp add: trace_then_def)

lemma trace_then_ok:
  "rt_error t = None \<Longrightarrow> trace_then t f =
     (f (rt_requests t))\<lparr>rt_events := rt_events t @ rt_events (f (rt_requests t)),
                         rt_waits := rt_waits t @ rt_waits (f (rt_requests t))\<rparr>"
  by (simp add: trace_then_def Let_def)

definition turn_classes :: "openai_turn \<Rightarrow> openai_classes" where
  "turn_classes T = os_classes (ot_setup T)"

lemma round_bounds:
  "openai_waits.waited (turn_classes T) (rt_waits (openai_round T messages n)) \<and>
   length (rt_waits (openai_round T messages n)) \<le> 3 \<and>
   rt_requests (openai_round T messages n) = n + Suc (length (rt_waits (openai_round T messages n)))"
  unfolding openai_round_def turn_classes_def by (rule openai_round_bounds)

definition within_budget_of :: "openai_turn \<Rightarrow> nat \<Rightarrow> nat \<Rightarrow> run_trace \<Rightarrow> bool" where
  "within_budget_of T rounds n t \<longleftrightarrow>
     openai_waits.waited (turn_classes T) (rt_waits t) \<and> length (rt_waits t) \<le> 3 * rounds \<and>
     rt_requests t \<le> n + rounds + length (rt_waits t)"

lemma second_pass_bounds: "2 \<le> attempt \<Longrightarrow> within_budget_of T 1 n (openai_rounds T cs ms attempt n)"
  using round_bounds [of T ms n] by (subst openai_rounds.simps) (auto simp: within_budget_of_def Let_def)

lemma first_pass_bounds: "within_budget_of T 2 n (openai_rounds T cs ms 1 n)"
proof -
  let ?r = "openai_round T ms n" and ?plan = "reactive_plan T cs"
  have one: "within_budget_of T 1 n (?r\<lparr>rt_error := e\<rparr>)" "within_budget_of T 1 n ?r" for e
    using round_bounds [of T ms n] by (simp_all add: within_budget_of_def)
  have more: "within_budget_of T 2 n t" if "within_budget_of T 1 n t" for t
    using that by (auto simp: within_budget_of_def)
  show ?thesis
  proof (cases "rt_error ?r \<noteq> None \<or> \<not> is_prompt_clipped (last_prompt_tokens (rt_events ?r)) (win_tokens (ot_window T))
      \<or> turn_messages T (tp_contents ?plan) = None")
    case True
    then show ?thesis by (subst openai_rounds.simps) (auto simp: Let_def intro!: more one split: option.split)
  next
    case False
    then obtain ms' where ms': "turn_messages T (tp_contents ?plan) = Some ms'" by auto
    let ?t = "openai_rounds T (tp_contents ?plan) ms' 2 (rt_requests ?r)"
    have "openai_rounds T cs ms 1 n =
        ?t\<lparr>rt_events := (rt_events ?r @ compaction_events ?plan) @ rt_events ?t, rt_waits := rt_waits ?r @ rt_waits ?t\<rparr>"
      using False ms' by (subst openai_rounds.simps) (simp add: Let_def trace_then_ok numeral_2_eq_2)
    moreover have "within_budget_of T 1 (rt_requests ?r) ?t" by (rule second_pass_bounds) simp
    ultimately show ?thesis using round_bounds [of T ms n] by (simp add: within_budget_of_def)
  qed
qed

text \<open>
  C25: whatever the provider answers, a turn makes at most eight requests and ends, with a result
  or an exception, after at most six waits of between 1 and 45 seconds.
\<close>

theorem stream_openai_ends:
  "let t = fst (stream_openai S contents decls system_prompt model show_thinking n cache)
   in rt_requests t \<le> n + 8 \<and> length (rt_waits t) \<le> 6 \<and>
      list_all (\<lambda>w. 1 \<le> w \<and> w \<le> 45) (rt_waits t) \<and> sum_list (rt_waits t) \<le> 270"
proof -
  have *: "rt_requests t \<le> n + 8 \<and> length (rt_waits t) \<le> 6 \<and>
      list_all (\<lambda>w. 1 \<le> w \<and> w \<le> 45) (rt_waits t) \<and> sum_list (rt_waits t) \<le> 270"
    if t: "within_budget_of T 2 n t" for T t
  proof -
    have "of_nat (length (rt_waits t)) \<le> (6 :: rat)" using t by (simp add: within_budget_of_def)
    moreover have "sum_list (rt_waits t) \<le> of_nat (length (rt_waits t)) * 45"
      using t openai_waits.waited_total [of "turn_classes T" "rt_waits t"] by (simp add: within_budget_of_def)
    ultimately have "sum_list (rt_waits t) \<le> 270" by linarith
    then show ?thesis using t openai_waits.waited_within by (auto simp: within_budget_of_def)
  qed
  obtain start cache' where start: "openai_start S contents decls system_prompt model show_thinking cache = (start, cache')"
    by (metis prod.exhaust)
  show ?thesis
  proof (cases start)
    case (Inl e)
    then show ?thesis by (simp add: stream_openai_def start)
  next
    case (Inr r)
    obtain T cs ms evs where r: "r = (T, cs, ms, evs)" by (cases r)
    from first_pass_bounds [of T n cs ms] have "within_budget_of T 2 n
        (trace_then \<lparr>rt_events = evs, rt_waits = [], rt_requests = n, rt_error = None\<rparr> (\<lambda>n. openai_rounds T cs ms 1 n))"
      by (simp add: trace_then_ok within_budget_of_def)
    from * [OF this] show ?thesis by (simp add: stream_openai_def start Inr r)
  qed
qed

section \<open>A provider that recovers is answered\<close>

lemma create_attempts_recovers:
  assumes "\<And>j. j < k \<Longrightarrow> \<exists>e. answer (n + j) = Inl e \<and> isinstance (ae_exn e) [oc_api_error C] \<and>
       is_transient_upstream C e \<and> openai_wait C e (attempt + j) \<noteq> None"
    and "answer (n + k) = Inr stream" and "k \<le> left"
  shows "\<exists>ws. length ws = k \<and> create_attempts C label answer left attempt n = (ws, n + Suc k, Inr stream)"
  using assms
proof (induction k arbitrary: left attempt n)
  case 0
  then show ?case by (subst create_attempts.simps) simp
next
  case (Suc k)
  then obtain left' where left: "left = Suc left'" "k \<le> left'" by (cases left) auto
  from Suc.prems(1) [of 0] obtain e w where e: "answer n = Inl e" "isinstance (ae_exn e) [oc_api_error C]"
    "is_transient_upstream C e" "openai_wait C e attempt = Some w" by auto
  have "\<exists>e. answer (Suc n + j) = Inl e \<and> isinstance (ae_exn e) [oc_api_error C] \<and>
       is_transient_upstream C e \<and> openai_wait C e (Suc attempt + j) \<noteq> None" if "j < k" for j
    using Suc.prems(1) [of "Suc j"] that by simp
  from Suc.IH [OF this _ left(2)] Suc.prems(2) obtain ws where
    "length ws = k" "create_attempts C label answer left' (Suc attempt) (Suc n) = (ws, Suc n + Suc k, Inr stream)" by auto
  then show ?case using e left(1) by (subst create_attempts.simps) simp
qed

lemma start_turn_setup:
  "openai_start S contents decls system_prompt model show_thinking cache = (Inr (T, cs, ms, evs), cache') \<Longrightarrow> ot_setup T = S"
  by (auto simp: openai_start_def Let_def split: option.splits prod.splits if_splits)

text \<open>
  C26: a provider that fails transiently at most three times and then streams a reply it did not
  clip is answered in full: every event of that stream is delivered, after those of a compaction,
  with no error and no further request.
\<close>

theorem recovering_provider_is_answered:
  assumes start: "openai_start S contents decls system_prompt model show_thinking cache = (Inr (T, cs, ms, evs), cache')"
    and "k \<le> provider_retries"
    and transient: "\<And>j. j < k \<Longrightarrow> \<exists>e. os_client S (n + j) (turn_request T ms) = Inl e \<and>
         isinstance (ae_exn e) [oc_api_error (os_classes S)] \<and> is_transient_upstream (os_classes S) e \<and>
         openai_wait (os_classes S) e j \<noteq> None"
    and reply: "os_client S (n + k) (turn_request T ms) = Inr (chunks, None)"
    and whole: "\<not> is_prompt_clipped (last_prompt_tokens (stream_events_of (os_loads S) (chunks, None))) (win_tokens (ot_window T))"
  shows "\<exists>ws. length ws = k \<and> stream_openai S contents decls system_prompt model show_thinking n cache =
     (\<lparr>rt_events = evs @ stream_events_of (os_loads S) (chunks, None), rt_waits = ws,
       rt_requests = n + Suc k, rt_error = None\<rparr>, cache')"
proof -
  have S: "ot_setup T = S" using start by (rule start_turn_setup)
  let ?answer = "\<lambda>m. os_client S m (turn_request T ms)"
  have "\<exists>e. ?answer (n + j) = Inl e \<and> isinstance (ae_exn e) [oc_api_error (os_classes S)] \<and>
       is_transient_upstream (os_classes S) e \<and> openai_wait (os_classes S) e (0 + j) \<noteq> None" if "j < k" for j
    using transient [OF that] by simp
  from create_attempts_recovers [where answer = ?answer, OF this reply assms(2)] obtain ws where
    ws: "length ws = k"
        "create_attempts (os_classes S) (provider_label (os_env S)) ?answer provider_retries 0 n = (ws, n + Suc k, Inr (chunks, None))"
    by blast
  then have "openai_round T ms n = \<lparr>rt_events = stream_events_of (os_loads S) (chunks, None), rt_waits = ws,
      rt_requests = n + Suc k, rt_error = None\<rparr>"
    by (simp add: openai_round_def stream_one_round_def create_stream_with_retry_def S)
  then have "openai_rounds T cs ms 1 n = \<lparr>rt_events = stream_events_of (os_loads S) (chunks, None), rt_waits = ws,
      rt_requests = n + Suc k, rt_error = None\<rparr>"
    using whole by (subst openai_rounds.simps) simp
  then show ?thesis using ws(1) by (auto simp: stream_openai_def start trace_then_ok)
qed

section \<open>Tool calls come whole out of their fragments\<close>

definition fragments_of :: "int \<Rightarrow> call_fragment list \<Rightarrow> call_fragment list" where
  "fragments_of i fs = filter (\<lambda>f. cf_index f = i) fs"

text \<open>The texts of one call, each the join of its pieces.\<close>

definition joined_call :: "int \<Rightarrow> call_fragment list \<Rightarrow> call_buffer" where
  "joined_call i fs =
     \<lparr>cb_id = concat (map (\<lambda>f. text_or (cf_id f) []) (fragments_of i fs)),
      cb_name = concat (map (\<lambda>f. text_or (cf_name f) []) (fragments_of i fs)),
      cb_args = concat (map (\<lambda>f. text_or (cf_arguments f) []) (fragments_of i fs))\<rparr>"

lemma add_fragment_get:
  "dget (add_fragment f accs) i =
     (if i = cf_index f
      then Some (let acc = dget_or accs i fresh_buffer in
             \<lparr>cb_id = cb_id acc @ text_or (cf_id f) [], cb_name = cb_name acc @ text_or (cf_name f) [],
              cb_args = cb_args acc @ text_or (cf_arguments f) []\<rparr>)
      else dget accs i)"
  by (simp add: add_fragment_def Let_def)

lemma accumulated_get:
  "dget (fold add_fragment fs []) i = (if i \<in> cf_index ` set fs then Some (joined_call i fs) else None)"
proof (induction fs arbitrary: i rule: rev_induct)
  case (snoc f fs)
  have miss: "joined_call (cf_index f) fs = fresh_buffer" if "cf_index f \<notin> cf_index ` set fs"
  proof -
    have "fragments_of (cf_index f) fs = []" using that unfolding fragments_of_def filter_empty_conv by (metis image_eqI)
    then show ?thesis by (simp add: joined_call_def fresh_buffer_def)
  qed
  have other: "joined_call i (fs @ [f]) = joined_call i fs" if "cf_index f \<noteq> i"
    using that by (simp add: joined_call_def fragments_of_def)
  have same: "joined_call i (fs @ [f]) = \<lparr>cb_id = cb_id (joined_call i fs) @ text_or (cf_id f) [],
      cb_name = cb_name (joined_call i fs) @ text_or (cf_name f) [],
      cb_args = cb_args (joined_call i fs) @ text_or (cf_arguments f) []\<rparr>" if "cf_index f = i"
    using that by (simp add: joined_call_def fragments_of_def)
  show ?case
    using miss other same by (auto simp: add_fragment_get Let_def snoc dget_or_def)
qed simp

lemma accumulated_ok: "dict_ok (fold add_fragment fs [])"
proof (induction fs rule: rev_induct)
  case (snoc f fs)
  then show ?case by (simp add: add_fragment_def Let_def)
qed simp

lemma sorted_dict_entries:
  assumes "dict_ok d"
  shows "sort_key fst d = map (\<lambda>k. (k, the (dget d k))) (sorted_list_of_set (set (dkeys d)))"
proof -
  have dist: "distinct (map fst d)" using assms by (simp add: dict_ok_def)
  have "sorted (map fst (sort_key fst d))" "distinct (map fst (sort_key fst d))"
    using dist by (simp_all add: distinct_map)
  from sorted_list_of_set.idem_if_sorted_distinct [OF this]
  have keys: "map fst (sort_key fst d) = sorted_list_of_set (set (dkeys d))" by (simp add: dkeys_def)
  have "map (\<lambda>kv. (fst kv, the (dget d (fst kv)))) (sort_key fst d) = sort_key fst d"
    using assms by (intro map_idI) (auto simp: dget_in)
  then have "sort_key fst d = map (\<lambda>k. (k, the (dget d k))) (map fst (sort_key fst d))" by (simp add: comp_def)
  then show ?thesis by (simp add: keys)
qed

definition stream_fragments :: "stream_chunk list \<Rightarrow> call_fragment list" where
  "stream_fragments chunks = concat (map chunk_fragments chunks)"

lemma call_events_joined:
  "call_events loads (accumulate_calls chunks) =
     concat (map (\<lambda>i. call_event loads (joined_call i (stream_fragments chunks)))
       (sorted_list_of_set (cf_index ` set (stream_fragments chunks))))"
proof -
  let ?fs = "stream_fragments chunks"
  have accs: "accumulate_calls chunks = fold add_fragment ?fs []" by (simp add: accumulate_calls_def stream_fragments_def)
  have keys: "set (dkeys (accumulate_calls chunks)) = cf_index ` set ?fs"
    unfolding pydict.set_keys accs by (auto simp: accumulated_get split: if_splits)
  have "sort_key fst (accumulate_calls chunks) =
      map (\<lambda>i. (i, joined_call i ?fs)) (sorted_list_of_set (cf_index ` set ?fs))"
    using sorted_dict_entries [of "accumulate_calls chunks"] accumulated_ok [of ?fs]
    by (auto simp: accs accumulated_get keys [unfolded accs])
  then show ?thesis by (simp add: call_events_def comp_def)
qed

text \<open>
  C27: the tool calls a reply ends with depend on nothing but the joined texts of each call: however
  a provider cuts, interleaves and spreads the pieces over chunks, the same calls come out, in the
  order of their indices.
\<close>

theorem calls_independent_of_fragmentation:
  assumes "\<And>i. joined_call i (stream_fragments chunks) = joined_call i (stream_fragments chunks')"
  shows "call_events loads (accumulate_calls chunks) = call_events loads (accumulate_calls chunks')"
proof -
  let ?fs = "stream_fragments chunks" and ?gs = "stream_fragments chunks'"
  let ?I = "cf_index ` set ?fs" and ?J = "cf_index ` set ?gs"
  have drop: "concat (map (\<lambda>i. call_event loads (joined_call i hs)) (sorted_list_of_set (cf_index ` set hs))) =
      concat (map (\<lambda>i. call_event loads (joined_call i hs)) (sorted_list_of_set K))"
    if "cf_index ` set hs \<subseteq> K" "finite K" for hs K
  proof -
    have none: "call_event loads (joined_call i hs) = []" if "i \<notin> cf_index ` set hs" for i
    proof -
      have "fragments_of i hs = []" using that unfolding fragments_of_def filter_empty_conv by (metis image_eqI)
      then show ?thesis by (simp add: joined_call_def call_event_def)
    qed
    have "sorted_list_of_set (cf_index ` set hs) = filter (\<lambda>i. i \<in> cf_index ` set hs) (sorted_list_of_set K)"
      using that by (intro sorted_distinct_set_unique) (auto simp: sorted_wrt_filter)
    moreover have "concat (map g (filter P xs)) = concat (map g xs)" if "\<And>x. \<not> P x \<Longrightarrow> g x = []"
      for g :: "int \<Rightarrow> stream_event list" and P xs using that by (induction xs) auto
    ultimately show ?thesis using none by simp
  qed
  have "(\<lambda>i. call_event loads (joined_call i ?fs)) = (\<lambda>i. call_event loads (joined_call i ?gs))" using assms by simp
  then show ?thesis using drop [of ?fs "?I \<union> ?J"] drop [of ?gs "?I \<union> ?J"] by (simp add: call_events_joined)
qed

theorem calls_independent_of_fragmentation_witness:
  "let whole = \<lparr>cf_index = 0, cf_id = Some ''c1'', cf_name = Some ''fetch'', cf_arguments = Some ''{}''\<rparr>;
       other = \<lparr>cf_index = 1, cf_id = None, cf_name = Some ''zoom'', cf_arguments = None\<rparr>;
       head = \<lparr>cf_index = 0, cf_id = Some ''c1'', cf_name = Some ''fe'', cf_arguments = Some ''{''\<rparr>;
       tail = \<lparr>cf_index = 0, cf_id = None, cf_name = Some ''tch'', cf_arguments = Some ''}''\<rparr>;
       chunk = (\<lambda>fs. \<lparr>ck_choices = [Some \<lparr>de_content = None, de_reasoning = PNone, de_reasoning_content = PNone,
                        de_extra = PNone, de_calls = fs\<rparr>], ck_usage = None\<rparr>)
   in call_events (\<lambda>s. None) (accumulate_calls [chunk [whole, other]]) =
      call_events (\<lambda>s. None) (accumulate_calls [chunk [head], chunk [other, tail]])"
  unfolding Let_def
  by (rule calls_independent_of_fragmentation)
     (simp add: stream_fragments_def chunk_fragments_def joined_call_def fragments_of_def)

section \<open>What a finished turn delivered\<close>

text \<open>A round the guard takes for clipped.\<close>

definition clipped :: "openai_turn \<Rightarrow> run_trace \<Rightarrow> bool" where
  "clipped T t = is_prompt_clipped (last_prompt_tokens (rt_events t)) (win_tokens (ot_window T))"

text \<open>
  a turn that ends without an exception delivered one round that was not clipped; or a clipped
  round, the report of a harder compaction, and one round on the compacted contents that was not.
\<close>

theorem clean_turn_shape:
  assumes "rt_error (openai_rounds T contents messages 1 n) = None"
  shows "let t = openai_rounds T contents messages 1 n; one = openai_round T messages n; plan = reactive_plan T contents
    in if \<not> clipped T one then rt_events t = rt_events one \<and> rt_requests t = rt_requests one
       else (\<exists>messages'. turn_messages T (tp_contents plan) = Some messages' \<and>
          (let two = openai_round T messages' (rt_requests one)
           in \<not> clipped T two \<and> rt_error two = None \<and> rt_requests t = rt_requests two \<and>
              rt_events t = rt_events one @ compaction_events plan @ rt_events two))"
proof (cases "clipped T (openai_round T messages n) \<and> rt_error (openai_round T messages n) = None")
  case False
  then show ?thesis using assms
    by (auto simp: openai_rounds.simps [of T contents messages "Suc 0" n] clipped_def Let_def)
next
  case True
  let ?one = "openai_round T messages n" and ?plan = "reactive_plan T contents"
  note step = openai_rounds.simps [of T contents messages "Suc 0" n]
  from True assms obtain ms' where ms': "turn_messages T (tp_contents ?plan) = Some ms'"
    by (auto simp: step clipped_def Let_def split: option.splits)
  let ?t = "openai_rounds T (tp_contents ?plan) ms' 2 (rt_requests ?one)"
  let ?two = "openai_round T ms' (rt_requests ?one)"
  have t: "openai_rounds T contents messages (Suc 0) n =
      ?t\<lparr>rt_events := (rt_events ?one @ compaction_events ?plan) @ rt_events ?t, rt_waits := rt_waits ?one @ rt_waits ?t\<rparr>"
    using True ms' by (simp add: step clipped_def Let_def trace_then_ok numeral_2_eq_2)
  with assms have "rt_error ?t = None" by simp
  then have "\<not> clipped T ?two \<and> rt_error ?two = None \<and> ?t = ?two"
    by (auto simp: openai_rounds.simps [of _ _ _ 2] clipped_def Let_def split: if_splits)
  then show ?thesis using True ms' by (simp add: t Let_def)
qed

text \<open>
  The events of the clipped round, its tool calls among them, are delivered whatever follows; the
  calls of the retried round come after them.
\<close>

lemma clipped_calls_are_delivered:
  "set (rt_events (openai_round T messages n)) \<subseteq> set (rt_events (openai_rounds T contents messages 1 n))"
  by (subst openai_rounds.simps) (auto simp: Let_def trace_then_def split: option.split)

section \<open>A turn that runs\<close>

definition demo_classes :: openai_classes where
  "demo_classes = (let api = Derived ''APIError'' ExcException
     in \<lparr>oc_api_error = api, oc_rejections = [Derived ''BadRequestError'' api],
         oc_rate_limit = Derived ''RateLimitError'' api, oc_connection = Derived ''APIConnectionError'' api\<rparr>)"

definition demo_fault :: api_error where
  "demo_fault = \<lparr>ae_exn = plain_exn (oc_connection demo_classes) ''Connection error.'', ae_message = None, ae_status = None,
     ae_response_status = None, ae_headers = None, ae_body = PNone\<rparr>"

definition demo_chunk :: stream_chunk where
  "demo_chunk = \<lparr>ck_choices = [Some \<lparr>de_content = Some ''hi'', de_reasoning = PNone, de_reasoning_content = PNone,
     de_extra = PNone, de_calls = []\<rparr>], ck_usage = None\<rparr>"

definition demo_setup :: openai_setup where
  "demo_setup = \<lparr>os_classes = demo_classes,
     os_env = [(''TRID3NT_OPENAI_MODEL'', ''m''), (''TRID3NT_OPENAI_BASE_URL'', ''u'')],
     os_text = \<lparr>row_dump = (\<lambda>m. Inl []), num_text = (\<lambda>f. [])\<rparr>,
     os_answers = \<lparr>pa_show = (\<lambda>u m. None), pa_models = (\<lambda>u. None), pa_anthropic = (\<lambda>m. None)\<rparr>,
     os_client = (\<lambda>n r. if n = 0 then Inl demo_fault else Inr ([demo_chunk], None)),
     os_loads = (\<lambda>s. None), os_temperature = Fin 0, os_tool_cap = 600, os_param_cap = 200\<rparr>"

definition demo_messages :: "oai_message list" where
  "demo_messages = the (contents_to_openai_messages (num_text (os_text demo_setup)) (os_env demo_setup)
     [user_text_message ''go''] None False)"

definition demo_window :: context_window where
  "demo_window = \<lparr>win_tokens = 5120 + max 256 (estimate_tokens_for_messages (os_text demo_setup) (map message_value demo_messages)),
     win_source = EnvPin, win_provider = ''openai'', win_model = ''m''\<rparr>"

definition demo_turn :: openai_turn where
  "demo_turn = \<lparr>ot_setup = demo_setup, ot_model = ''m'', ot_window = demo_window, ot_tools = [], ot_tool_tokens = 0,
     ot_sys_tokens = 0, ot_system_prompt = None, ot_show_thinking = False\<rparr>"

lemma demo_start:
  "openai_start demo_setup [user_text_message ''go''] [] None None False [((''openai'', ''m''), demo_window)] =
     (Inr (demo_turn, [user_text_message ''go''], demo_messages, []), [((''openai'', ''m''), demo_window)])"
proof -
  have strip: "py_strip ''m'' = ''m''" "py_strip ''u'' = ''u''" by (simp_all add: py_strip_id is_space_def char_code_def)
  have messages: "contents_to_openai_messages (num_text (os_text demo_setup)) (os_env demo_setup)
      [user_text_message ''go''] None False = Some demo_messages"
    by (simp add: demo_messages_def contents_to_openai_messages_def Let_def user_text_message_def text_part_def
        wire_item_of_def named_call_def named_response_def split: prod.split)
  have env: "env_stripped (os_env demo_setup) ''TRID3NT_OPENAI_MODEL'' = ''m''"
    "env_stripped (os_env demo_setup) ''TRID3NT_OPENAI_BASE_URL'' = ''u''"
    by (simp_all add: demo_setup_def env_stripped_def strip dget_or_def)
  have "turn_messages demo_turn [user_text_message ''go''] = Some demo_messages"
    by (simp add: turn_messages_def demo_turn_def messages)
  then show ?thesis
    by (simp add: openai_start_def openai_model_def openai_base_url_def env Let_def discover_context_window_def
        tool_declarations_to_openai_tools_def estimate_tokens_for_tools_def demo_turn_def plan_turn_def demo_window_def
        reserve_output_tokens_def openai_max_output_tokens_def openai_max_tokens_default_def safety_tokens_default_def)
qed

theorem recovering_provider_is_answered_witness:
  "\<exists>ws. length ws = 1 \<and> stream_openai demo_setup [user_text_message ''go''] [] None None False 0 [((''openai'', ''m''), demo_window)] =
     (\<lparr>rt_events = [TextDelta ''hi''], rt_waits = ws, rt_requests = 2, rt_error = None\<rparr>, [((''openai'', ''m''), demo_window)])"
proof -
  have events: "stream_events_of (os_loads demo_setup) ([demo_chunk], None) = [TextDelta ''hi'']"
    by (simp add: stream_events_of_def chunk_events_def demo_chunk_def delta_events_def delta_reasoning_def py_or_def
        call_events_def accumulate_calls_def chunk_fragments_def)
  have fault: "isinstance (ae_exn demo_fault) [oc_api_error demo_classes]" "is_transient_upstream demo_classes demo_fault"
    "openai_wait demo_classes demo_fault 0 \<noteq> None" "os_classes demo_setup = demo_classes"
    by (simp_all add: demo_fault_def demo_classes_def demo_setup_def is_transient_upstream_def isinstance_def plain_exn_def
        Let_def openai_wait_def)
  have "\<exists>e. os_client demo_setup (0 + j) (turn_request demo_turn demo_messages) = Inl e \<and>
         isinstance (ae_exn e) [oc_api_error (os_classes demo_setup)] \<and> is_transient_upstream (os_classes demo_setup) e \<and>
         openai_wait (os_classes demo_setup) e j \<noteq> None" if "j < 1" for j
    using that fault by (simp add: demo_setup_def)
  moreover have "os_client demo_setup (0 + 1) (turn_request demo_turn demo_messages) = Inr ([demo_chunk], None)"
    by (simp add: demo_setup_def)
  moreover have "\<not> is_prompt_clipped (last_prompt_tokens (stream_events_of (os_loads demo_setup) ([demo_chunk], None)))
      (win_tokens (ot_window demo_turn))"
    by (simp add: events last_prompt_tokens_def is_prompt_clipped_def)
  ultimately have "\<exists>ws. length ws = 1 \<and> stream_openai demo_setup [user_text_message ''go''] [] None None False 0
        [((''openai'', ''m''), demo_window)] =
      (\<lparr>rt_events = [] @ stream_events_of (os_loads demo_setup) ([demo_chunk], None), rt_waits = ws,
        rt_requests = 0 + Suc 1, rt_error = None\<rparr>, [((''openai'', ''m''), demo_window)])"
    by (intro recovering_provider_is_answered [OF demo_start]) (simp_all add: provider_retries_def)
  then show ?thesis by (simp add: events numeral_2_eq_2)
qed

theorem clean_turn_shape_witness:
  "rt_error (openai_rounds demo_turn [user_text_message ''go''] demo_messages 1 1) = None \<and>
   rt_events (openai_rounds demo_turn [user_text_message ''go''] demo_messages 1 1) = [TextDelta ''hi'']"
proof -
  have events: "stream_events_of (os_loads demo_setup) ([demo_chunk], None) = [TextDelta ''hi'']"
    by (simp add: stream_events_of_def chunk_events_def demo_chunk_def delta_events_def delta_reasoning_def py_or_def
        call_events_def accumulate_calls_def chunk_fragments_def)
  have "os_client demo_setup 1 r = Inr ([demo_chunk], None)" for r by (simp add: demo_setup_def)
  then have one: "openai_round demo_turn demo_messages 1 =
      \<lparr>rt_events = [TextDelta ''hi''], rt_waits = [], rt_requests = 2, rt_error = None\<rparr>"
    using events by (simp add: openai_round_def stream_one_round_def create_stream_with_retry_def create_attempts.simps demo_turn_def)
  have open1: "\<not> clipped demo_turn (openai_round demo_turn demo_messages 1)"
    by (simp add: one [simplified] clipped_def last_prompt_tokens_def is_prompt_clipped_def)
  then have "rt_error (openai_rounds demo_turn [user_text_message ''go''] demo_messages 1 1) = None"
    by (subst openai_rounds.simps) (simp add: one [simplified] Let_def clipped_def)
  with clean_turn_shape [OF this] open1 show ?thesis by (simp add: Let_def one [simplified])
qed

end
