(* ===== verification/AnthropicRounds.thy ===== *)
theory AnthropicRounds
  imports ModelRounds
begin

text \<open>
  One model turn on the Anthropic Messages API, of trid3nt_server/model/adapters/anthropic_adapter.py:
  the request, the reading of the final message, and the loop that retries a transient fault and
  recompacts once when the prompt did not fit. What the provider answers is a parameter.
\<close>

section \<open>Faults\<close>

record anthropic_classes =
  ac_api_error :: exn_class
  ac_rejections :: "exn_class list"
  ac_rate_limit :: exn_class
  ac_status_error :: exn_class
  ac_connection :: exn_class

definition is_transient_anthropic_error :: "anthropic_classes \<Rightarrow> api_error \<Rightarrow> bool" where
  "is_transient_anthropic_error C e =
     (if isinstance (ae_exn e) (ac_rejections C) then False
      else if isinstance (ae_exn e) [ac_rate_limit C] then True
      else if isinstance (ae_exn e) [ac_status_error C]
      then 500 \<le> (case ae_status e of None \<Rightarrow> 0 | Some s \<Rightarrow> s)
      else isinstance (ae_exn e) [ac_connection C])"

text \<open>A positive \<open>retry-after\<close>, at most a minute; else the schedule.\<close>

definition anth_header_wait :: "api_error \<Rightarrow> rat option" where
  "anth_header_wait e =
     (case ae_headers e of
        None \<Rightarrow> None
      | Some get \<Rightarrow>
          (if \<not> some_text (get ''retry-after'') then None
           else (case float_of_text (the (get ''retry-after'')) of
                   Some (Fin q) \<Rightarrow> if 0 < q then Some (min q 60) else None
                 | Some PosInf \<Rightarrow> Some 60
                 | _ \<Rightarrow> None)))"

definition anth_retry_after_seconds :: "api_error \<Rightarrow> nat \<Rightarrow> rat" where
  "anth_retry_after_seconds e attempt =
     (case anth_header_wait e of Some w \<Rightarrow> w | None \<Rightarrow> provider_backoff_wait attempt 60)"

interpretation anthropic_waits: wait_policy "\<lambda>e attempt. Some (anth_retry_after_seconds e attempt)" 0 60
  by unfold_locales
     (auto simp: anth_retry_after_seconds_def anth_header_wait_def provider_backoff_wait_def
       split: option.splits pyfloat.splits if_splits)

section \<open>Requests and replies\<close>

record anth_request =
  rqa_model :: string
  rqa_messages :: "anth_message list"
  rqa_tools :: "pyval list"
  rqa_system :: "pyval list"

definition anthropic_default_model :: string where
  "anthropic_default_model = ''claude-sonnet-5''"

definition default_max_tokens :: int where
  "default_max_tokens = 16000"

definition anthropic_model :: "environ \<Rightarrow> string option \<Rightarrow> string" where
  "anthropic_model env session_model =
     (if some_text session_model \<and> starts_with ''claude-'' (py_strip (the session_model)) then py_strip (the session_model)
      else (let configured = env_stripped env ''TRID3NT_ANTHROPIC_MODEL''
            in if configured = [] then anthropic_default_model else configured))"

definition cache_control :: "string \<times> pyval" where
  "cache_control = (''cache_control'', PDict [(''type'', PStr ''ephemeral'')])"

text \<open>
  The breakpoints: the last tool and the system block carry \<open>cache_control\<close>. The token ceiling
  and the adaptive thinking are the same in every request.
\<close>

definition mark_last_tool :: "pyval list \<Rightarrow> pyval list" where
  "mark_last_tool tools =
     (if tools = [] then []
      else butlast tools @ [case last tools of PDict d \<Rightarrow> PDict (dput (fst cache_control) (snd cache_control) d) | v \<Rightarrow> v])"

definition build_message_kwargs ::
  "(pyfloat \<Rightarrow> string) \<Rightarrow> environ \<Rightarrow> message list \<Rightarrow> tool_declaration list \<Rightarrow> string option \<Rightarrow> string option \<Rightarrow> anth_request" where
  "build_message_kwargs ft env contents decls system_prompt model =
     \<lparr>rqa_model = anthropic_model env model,
      rqa_messages = contents_to_anthropic_messages ft contents,
      rqa_tools = mark_last_tool (tool_declarations_to_anthropic_tools decls),
      rqa_system = (if some_text system_prompt
                    then [PDict [(''type'', PStr ''text''), (''text'', PStr (the system_prompt)), cache_control]] else [])\<rparr>"

text \<open>The final message: its blocks, its usage and why it stopped.\<close>

record final_block =
  fb_type :: string
  fb_name :: "string option"
  fb_id :: "string option"
  fb_input :: pyval

record anth_usage =
  au_input :: pyval
  au_output :: pyval
  au_cache_read :: pyval
  au_cache_write :: pyval

record final_message =
  fm_content :: "final_block list"
  fm_usage :: "anth_usage option"
  fm_stop_reason :: pyval
  fm_category :: pyval

definition anth_usage_event :: "anth_usage \<Rightarrow> stream_event" where
  "anth_usage_event u =
     (let parts = filter (\<lambda>v. v \<noteq> 0) (List.map_filter as_int [au_input u, au_cache_read u, au_cache_write u, au_output u])
      in UsageMetadata \<lparr>um_cached = as_int (au_cache_read u), um_total = (if parts = [] then None else Some (sum_list parts)),
           um_prompt = as_int (au_input u), um_candidates = as_int (au_output u),
           um_cache_hit = (as_int (au_cache_read u) \<notin> {None, Some 0}), um_reasoning = None\<rparr>)"

definition block_args :: "(string \<Rightarrow> pyval option) \<Rightarrow> pyval \<Rightarrow> (string, pyval) dict" where
  "block_args loads raw = (case raw of PStr s \<Rightarrow> buffer_args loads s | PDict d \<Rightarrow> d | _ \<Rightarrow> [])"

definition function_call_events :: "(string \<Rightarrow> pyval option) \<Rightarrow> final_message \<Rightarrow> stream_event list" where
  "function_call_events loads m =
     concat (map (\<lambda>b. if fb_type b = ''tool_use'' \<and> some_text (fb_name b)
                      then [FunctionCallEvent (the (fb_name b)) (fb_id b) (block_args loads (fb_input b))] else [])
       (fm_content m))"

definition refusal_notice :: "(pyval \<Rightarrow> string) \<Rightarrow> final_message \<Rightarrow> string option" where
  "refusal_notice rep m =
     (if fm_stop_reason m \<noteq> PStr ''refusal'' then None
      else Some (''The model declined to answer this request'' @
        (if py_truth (fm_category m) then '' (category: '' @ py_str rep (fm_category m) @ '')'' else []) @ ''.''))"

section \<open>The turn\<close>

text \<open>
  A stream: its events, each a text or of another type, and its end, the final message or the
  exception that broke it off. \<open>as_count\<close> is the provider's token counter, \<open>None\<close> where it raises.
\<close>

type_synonym anth_stream = "string option list \<times> (api_error + final_message)"

record anth_setup =
  as_classes :: anthropic_classes
  as_env :: environ
  as_text :: text_env
  as_answers :: provider_answers
  as_client :: "nat \<Rightarrow> anth_request \<Rightarrow> api_error + anth_stream"
  as_count :: "anth_request \<Rightarrow> pyval option"
  as_loads :: "string \<Rightarrow> pyval option"
  as_rep :: "pyval \<Rightarrow> string"

record anth_turn =
  at_setup :: anth_setup
  at_decls :: "tool_declaration list"
  at_system_prompt :: "string option"
  at_session_model :: "string option"
  at_window :: context_window
  at_tool_tokens :: int
  at_sys_tokens :: int

text \<open>The trace of a turn: what was yielded, the waits, the requests sent, the exception raised.\<close>

record anth_trace =
  an_events :: "stream_event list"
  an_waits :: "rat list"
  an_sent :: "anth_request list"
  an_error :: "py_exn option"

definition turn_kwargs :: "anth_turn \<Rightarrow> message list \<Rightarrow> anth_request" where
  "turn_kwargs T contents =
     build_message_kwargs (num_text (as_text (at_setup T))) (as_env (at_setup T)) contents (at_decls T)
       (at_system_prompt T) (at_session_model T)"

definition anth_reactive_plan :: "anth_turn \<Rightarrow> message list \<Rightarrow> turn_plan" where
  "anth_reactive_plan T contents =
     plan_turn (as_text (at_setup T)) contents (at_window T) (at_tool_tokens T) (at_sys_tokens T) None None
       (Some default_max_tokens) Reactive"

definition streamed_text :: "api_error + anth_stream \<Rightarrow> bool" where
  "streamed_text answer = (case answer of Inl e \<Rightarrow> False | Inr (events, ending) \<Rightarrow> list_ex (\<lambda>e. e \<noteq> None) events)"

definition text_deltas :: "api_error + anth_stream \<Rightarrow> stream_event list" where
  "text_deltas answer =
     (case answer of
        Inl e \<Rightarrow> []
      | Inr (events, ending) \<Rightarrow> concat (map (\<lambda>e. if some_text e then [TextDelta (the e)] else []) events))"

definition answer_end :: "api_error + anth_stream \<Rightarrow> api_error + final_message" where
  "answer_end answer = (case answer of Inl e \<Rightarrow> Inl e | Inr (events, ending) \<Rightarrow> ending)"

definition final_events :: "anth_turn \<Rightarrow> final_message \<Rightarrow> stream_event list" where
  "final_events T m =
     (case refusal_notice (as_rep (at_setup T)) m of None \<Rightarrow> [] | Some notice \<Rightarrow> [TextDelta notice]) @
     function_call_events (as_loads (at_setup T)) m @
     (case fm_usage m of None \<Rightarrow> [] | Some u \<Rightarrow> [anth_usage_event u])"

definition anth_provider_label :: string where
  "anth_provider_label = ''Anthropic API''"

text \<open>What is raised when the attempts run out on \<open>last_exc\<close>.\<close>

definition exhausted_error :: "anth_turn \<Rightarrow> api_error \<Rightarrow> py_exn" where
  "exhausted_error T last_exc =
     (if looks_like_context_overflow_error (Some (ae_exn last_exc)) then context_window_exceeded (win_tokens (at_window T))
      else upstream_provider_error anth_provider_label (exc_text (ae_exn last_exc)) (Suc provider_retries))"

definition anth_prepend :: "stream_event list \<Rightarrow> rat list \<Rightarrow> anth_request \<Rightarrow> anth_trace \<Rightarrow> anth_trace" where
  "anth_prepend events waits kw t =
     t\<lparr>an_events := events @ an_events t, an_waits := waits @ an_waits t, an_sent := kw # an_sent t\<rparr>"

definition anth_raise :: "stream_event list \<Rightarrow> anth_request \<Rightarrow> py_exn \<Rightarrow> anth_trace" where
  "anth_raise events kw e = \<lparr>an_events = events, an_waits = [], an_sent = [kw], an_error = Some e\<rparr>"

text \<open>
  The attempts: \<open>left\<close> after this one, the \<open>attempt\<close>th, with \<open>n\<close> requests made by the process
  before it. Every path on which text has been streamed leaves the loop, so an attempt starts with
  \<open>streamed_any\<close> false.
\<close>

fun anth_attempts :: "anth_turn \<Rightarrow> message list \<Rightarrow> nat \<Rightarrow> nat \<Rightarrow> nat \<Rightarrow> bool \<Rightarrow> anth_trace" where
  "anth_attempts T contents left attempt n overflow_retried =
     (let kw = turn_kwargs T contents;
          answer = as_client (at_setup T) n kw;
          said = text_deltas answer
      in case answer_end answer of
           Inr m \<Rightarrow> \<lparr>an_events = said @ final_events T m, an_waits = [], an_sent = [kw], an_error = None\<rparr>
         | Inl e \<Rightarrow>
             if \<not> isinstance (ae_exn e) [ac_api_error (as_classes (at_setup T))] then anth_raise said kw (ae_exn e)
             else if looks_like_context_overflow_error (Some (ae_exn e)) \<and> \<not> streamed_text answer
             then (if overflow_retried then anth_raise said kw (context_window_exceeded (win_tokens (at_window T)))
                   else (let plan = anth_reactive_plan T contents;
                             events = said @ compaction_events plan
                         in case left of
                              0 \<Rightarrow> anth_raise events kw (exhausted_error T e)
                            | Suc left' \<Rightarrow> anth_prepend events [] kw
                                (anth_attempts T (tp_contents plan) left' (Suc attempt) (Suc n) True)))
             else if \<not> is_transient_anthropic_error (as_classes (at_setup T)) e then anth_raise said kw (ae_exn e)
             else if streamed_text answer
             then anth_raise said kw (upstream_provider_error anth_provider_label (exc_text (ae_exn e)) (Suc attempt))
             else (case left of
                     0 \<Rightarrow> anth_raise said kw (exhausted_error T e)
                   | Suc left' \<Rightarrow> anth_prepend said [anth_retry_after_seconds e attempt] kw
                       (anth_attempts T contents left' (Suc attempt) (Suc n) overflow_retried)))"

declare anth_attempts.simps [simp del]

definition count_tokens_consult_ratio :: rat where
  "count_tokens_consult_ratio = 7 / 10"

text \<open>A count that is no positive integer is no count.\<close>

definition exact_prompt_tokens :: "anth_setup \<Rightarrow> anth_request \<Rightarrow> int option" where
  "exact_prompt_tokens S kw =
     (case as_count S kw of
        None \<Rightarrow> None
      | Some v \<Rightarrow> (case as_int v of Some n \<Rightarrow> if 0 < n then Some n else None | None \<Rightarrow> None))"

text \<open>What comes before the first request: the turn, its contents and the events of a compaction.\<close>

definition anth_start ::
  "anth_setup \<Rightarrow> message list \<Rightarrow> tool_declaration list \<Rightarrow> string option \<Rightarrow> string option \<Rightarrow> window_cache
     \<Rightarrow> anth_turn \<times> message list \<times> stream_event list \<times> window_cache" where
  "anth_start S contents decls system_prompt model cache =
     (let model_id = anthropic_model (as_env S) model;
          (window, cache') = discover_context_window (as_env S) (as_answers S) ''anthropic'' model_id None cache;
          T = \<lparr>at_setup = S, at_decls = decls, at_system_prompt = system_prompt, at_session_model = model, at_window = window,
               at_tool_tokens = estimate_tokens_for_tools (as_text S) (Some (tool_declarations_to_anthropic_tools decls)),
               at_sys_tokens = (if some_text system_prompt then estimate_tokens (the system_prompt) else 0)\<rparr>;
          heuristic = estimate_tokens_for_contents (as_text S) contents + at_tool_tokens T + at_sys_tokens T;
          exact = (if of_int (win_tokens window) * count_tokens_consult_ratio \<le> of_int heuristic
                   then exact_prompt_tokens S (turn_kwargs T contents) else None);
          plan = plan_turn (as_text S) contents window (at_tool_tokens T) (at_sys_tokens T) exact None
                   (Some default_max_tokens) Proactive
      in if tp_compacted plan then (T, tp_contents plan, compaction_events plan, cache') else (T, contents, [], cache'))"

definition stream_anthropic ::
  "anth_setup \<Rightarrow> message list \<Rightarrow> tool_declaration list \<Rightarrow> string option \<Rightarrow> string option \<Rightarrow> nat \<Rightarrow> window_cache
     \<Rightarrow> anth_trace \<times> window_cache" where
  "stream_anthropic S contents decls system_prompt model n cache =
     (if env_stripped (as_env S) ''ANTHROPIC_API_KEY'' = []
      then (\<lparr>an_events = [], an_waits = [], an_sent = [],
             an_error = Some (plain_exn ExcRuntimeError
               (''MODEL_PROVIDER=anthropic requires ANTHROPIC_API_KEY to be set. '' @
                ''Add it to .env.local and restart the agent.''))\<rparr>, cache)
      else
        (let (T, contents', events, cache') = anth_start S contents decls system_prompt model cache;
             t = anth_attempts T contents' provider_retries 0 n False
         in (t\<lparr>an_events := events @ an_events t\<rparr>, cache')))"

section \<open>What a turn does at most\<close>

text \<open>The trace of the attempts within a number of them, from \<open>n\<close> requests on.\<close>

definition unspoken :: "anth_turn \<Rightarrow> nat \<Rightarrow> anth_request list \<Rightarrow> bool" where
  "unspoken T n kws \<longleftrightarrow> list_all (\<lambda>(j, kw). \<not> streamed_text (as_client (at_setup T) j kw)) (enumerate n kws)"

definition compactions :: "stream_event list \<Rightarrow> nat" where
  "compactions events = length (filter (\<lambda>e. e = CompactionStart) events)"

definition sound_attempts :: "anth_turn \<Rightarrow> nat \<Rightarrow> nat \<Rightarrow> nat \<Rightarrow> anth_trace \<Rightarrow> bool" where
  "sound_attempts T left n recompactions t \<longleftrightarrow>
     an_sent t \<noteq> [] \<and> length (an_sent t) \<le> Suc left \<and> length (an_waits t) < length (an_sent t) \<and>
     anthropic_waits.waited (an_waits t) \<and> unspoken T n (butlast (an_sent t)) \<and> compactions (an_events t) \<le> recompactions"

lemma unspoken_Cons [simp]: "unspoken T n (kw # kws) \<longleftrightarrow> \<not> streamed_text (as_client (at_setup T) n kw) \<and> unspoken T (Suc n) kws"
  by (simp add: unspoken_def)

lemma unspoken_Nil [simp]: "unspoken T n []"
  by (simp add: unspoken_def)

lemma compactions_Nil [simp]: "compactions [] = 0"
  by (simp add: compactions_def)

lemma compactions_append [simp]: "compactions (a @ b) = compactions a + compactions b"
  by (simp add: compactions_def)

lemma compactions_said [simp]: "compactions (text_deltas answer) = 0"
  by (auto simp: compactions_def text_deltas_def split: sum.split)

lemma compactions_final [simp]: "compactions (final_events T m) = 0"
  by (auto simp: compactions_def final_events_def function_call_events_def anth_usage_event_def Let_def split: option.split)

lemma compactions_plan [simp]: "compactions (compaction_events plan) = 1"
  by (simp add: compactions_def compaction_events_def)

lemma unspoken_no_text: "\<not> streamed_text answer \<Longrightarrow> text_deltas answer = []"
  by (auto simp: streamed_text_def text_deltas_def list_ex_iff some_text_def split: sum.splits)

lemma sound_raise: "compactions events \<le> c \<Longrightarrow> sound_attempts T left n c (anth_raise events kw e)"
  by (simp add: sound_attempts_def anth_raise_def)

lemma sound_answered:
  "sound_attempts T left n c \<lparr>an_events = text_deltas answer @ final_events T m, an_waits = [], an_sent = [kw], an_error = None\<rparr>"
  by (simp add: sound_attempts_def)

lemma sound_prepend:
  assumes "sound_attempts T left (Suc n) c t" "\<not> streamed_text (as_client (at_setup T) n kw)"
    and "length waits \<le> 1" "anthropic_waits.waited waits" "compactions events + c \<le> d"
  shows "sound_attempts T (Suc left) n d (anth_prepend events waits kw t)"
  using assms by (auto simp: sound_attempts_def anth_prepend_def)

lemma attempts_sound:
  "sound_attempts T left n (if overflow_retried then 0 else 1) (anth_attempts T contents left attempt n overflow_retried)"
proof (induction left arbitrary: contents attempt n overflow_retried)
  case 0
  show ?case
    by (subst anth_attempts.simps)
       (auto simp: Let_def intro!: sound_raise sound_answered split: sum.split)
next
  case (Suc left)
  let ?kw = "turn_kwargs T contents"
  have waited: "anthropic_waits.waited [anth_retry_after_seconds e attempt]" for e
    by (auto intro: anthropic_waits.waited_Cons)
  have again: "sound_attempts T (Suc left) n 1 (anth_prepend (compaction_events plan) [] ?kw
      (anth_attempts T cs left (Suc attempt) (Suc n) True))" if "\<not> streamed_text (as_client (at_setup T) n ?kw)" for plan cs
    using Suc.IH [of "Suc n" True cs "Suc attempt"] that by (intro sound_prepend) auto
  have later: "sound_attempts T (Suc left) n (if overflow_retried then 0 else 1)
      (anth_prepend [] [anth_retry_after_seconds e attempt] ?kw (anth_attempts T contents left (Suc attempt) (Suc n) overflow_retried))"
    if "\<not> streamed_text (as_client (at_setup T) n ?kw)" for e
    using Suc.IH [of "Suc n" overflow_retried contents "Suc attempt"] that waited
    by (intro sound_prepend) (auto simp: compactions_def)
  show ?case
    by (cases overflow_retried; subst anth_attempts.simps)
       (use later in \<open>auto simp: Let_def unspoken_no_text again [simplified] intro!: sound_raise sound_answered split: sum.split\<close>)
qed

text \<open>
  C28: a turn on the Messages API makes at most four requests, waits at most three times, a minute
  each at the longest, compacts at most twice, and ends; and no request is made once the provider
  has streamed a piece of text: what was streamed is never replayed.
\<close>

theorem stream_anthropic_ends:
  "let t = fst (stream_anthropic S contents decls system_prompt model n cache)
   in length (an_sent t) \<le> 4 \<and> length (an_waits t) \<le> 3 \<and> sum_list (an_waits t) \<le> 180 \<and> compactions (an_events t) \<le> 2 \<and>
      list_all (\<lambda>(j, kw). \<not> streamed_text (as_client S j kw)) (enumerate n (butlast (an_sent t)))"
proof -
  have *: "length (an_sent u) \<le> 4 \<and> length (an_waits u) \<le> 3 \<and> sum_list (an_waits u) \<le> 180 \<and> compactions (an_events u) \<le> 1 \<and>
      list_all (\<lambda>(j, kw). \<not> streamed_text (as_client (at_setup T) j kw)) (enumerate n (butlast (an_sent u)))"
    if u: "sound_attempts T 3 n 1 u" for T u
  proof -
    have "length (an_sent u) \<le> 4" "length (an_waits u) \<le> 3" using u by (auto simp: sound_attempts_def)
    moreover have "sum_list (an_waits u) \<le> of_nat (length (an_waits u)) * 60"
      using u anthropic_waits.waited_total [of "an_waits u"] by (simp add: sound_attempts_def)
    moreover have "of_nat (length (an_waits u)) \<le> (3 :: rat)" using calculation(2) by simp
    ultimately show ?thesis using u by (auto simp: sound_attempts_def unspoken_def)
  qed
  obtain T cs events cache' where start: "anth_start S contents decls system_prompt model cache = (T, cs, events, cache')"
    by (metis prod_cases4)
  then have T: "at_setup T = S" and "compactions events \<le> 1"
    by (auto simp: anth_start_def Let_def split: prod.splits if_splits)
  moreover from * [OF attempts_sound [of T 3 n False cs 0, unfolded if_False]] have
    "let u = anth_attempts T cs 3 0 n False
     in length (an_sent u) \<le> 4 \<and> length (an_waits u) \<le> 3 \<and> sum_list (an_waits u) \<le> 180 \<and> compactions (an_events u) \<le> 1 \<and>
      list_all (\<lambda>(j, kw). \<not> streamed_text (as_client S j kw)) (enumerate n (butlast (an_sent u)))"
    by (simp add: T)
  ultimately show ?thesis by (simp add: stream_anthropic_def start provider_retries_def Let_def)
qed

section \<open>Overflow\<close>

text \<open>
  a prompt the API refuses as too long, before any text, is sent once more with the contents
  compacted harder, and an answer to that is delivered whole behind the report of the compaction; a
  second refusal ends the turn as a context-window error.
\<close>

theorem overflow_recompacts_once:
  assumes "as_client (at_setup T) n (turn_kwargs T contents) = Inl e"
    and "isinstance (ae_exn e) [ac_api_error (as_classes (at_setup T))]"
    and "looks_like_context_overflow_error (Some (ae_exn e))" and "attempt < provider_retries"
  shows "let plan = anth_reactive_plan T contents; kw = turn_kwargs T (tp_contents plan);
             t = anth_attempts T contents (provider_retries - attempt) attempt n False
         in case as_client (at_setup T) (Suc n) kw of
              Inr (events, Inr m) \<Rightarrow>
                an_error t = None \<and> an_sent t = [turn_kwargs T contents, kw] \<and>
                an_events t = compaction_events plan @ text_deltas (Inr (events, Inr m)) @ final_events T m
            | Inl f \<Rightarrow>
                (if isinstance (ae_exn f) [ac_api_error (as_classes (at_setup T))] \<and>
                    looks_like_context_overflow_error (Some (ae_exn f))
                 then an_error t = Some (context_window_exceeded (win_tokens (at_window T))) \<and>
                      an_sent t = [turn_kwargs T contents, kw]
                 else True)
            | _ \<Rightarrow> True"
proof -
  obtain left where left: "provider_retries - attempt = Suc left" using assms(4) by (metis Suc_diff_Suc)
  let ?plan = "anth_reactive_plan T contents"
  have "anth_attempts T contents (Suc left) attempt n False =
      anth_prepend (compaction_events ?plan) [] (turn_kwargs T contents)
        (anth_attempts T (tp_contents ?plan) left (Suc attempt) (Suc n) True)"
    using assms(1-3) by (subst anth_attempts.simps) (simp add: answer_end_def text_deltas_def streamed_text_def Let_def)
  then show ?thesis
    unfolding left Let_def
    by (auto simp: anth_attempts.simps [of _ _ left] anth_prepend_def anth_raise_def answer_end_def text_deltas_def
        streamed_text_def Let_def split: sum.split)
qed

definition demo_overflow :: api_error where
  "demo_overflow = \<lparr>ae_exn = plain_exn (Derived ''BadRequestError'' (Derived ''APIError'' ExcException)) ''prompt is too long'',
     ae_message = None, ae_status = Some 400, ae_response_status = None, ae_headers = None, ae_body = PNone\<rparr>"

definition demo_final :: final_message where
  "demo_final = \<lparr>fm_content = [], fm_usage = None, fm_stop_reason = PStr ''end_turn'', fm_category = PNone\<rparr>"

definition demo_anth_turn :: anth_turn where
  "demo_anth_turn = \<lparr>at_setup =
       \<lparr>as_classes = \<lparr>ac_api_error = Derived ''APIError'' ExcException, ac_rejections = [],
          ac_rate_limit = Derived ''RateLimitError'' ExcException, ac_status_error = Derived ''APIStatusError'' ExcException,
          ac_connection = Derived ''APIConnectionError'' ExcException\<rparr>,
        as_env = [], as_text = \<lparr>row_dump = (\<lambda>m. Inl []), num_text = (\<lambda>f. [])\<rparr>,
        as_answers = \<lparr>pa_show = (\<lambda>u m. None), pa_models = (\<lambda>u. None), pa_anthropic = (\<lambda>m. None)\<rparr>,
        as_client = (\<lambda>n kw. if n = 0 then Inl demo_overflow else Inr ([Some ''hi''], Inr demo_final)),
        as_count = (\<lambda>kw. None), as_loads = (\<lambda>s. None), as_rep = (\<lambda>v. [])\<rparr>,
     at_decls = [], at_system_prompt = None, at_session_model = None,
     at_window = \<lparr>win_tokens = 200000, win_source = AnthropicModels, win_provider = ''anthropic'', win_model = ''m''\<rparr>,
     at_tool_tokens = 0, at_sys_tokens = 0\<rparr>"

theorem overflow_recompacts_once_witness:
  "an_events (anth_attempts demo_anth_turn [user_text_message ''go''] 3 0 0 False) =
     compaction_events (anth_reactive_plan demo_anth_turn [user_text_message ''go'']) @ [TextDelta ''hi'']"
proof -
  have client: "as_client (at_setup demo_anth_turn) = (\<lambda>n kw. if n = 0 then Inl demo_overflow else Inr ([Some ''hi''], Inr demo_final))"
    and "isinstance (ae_exn demo_overflow) [ac_api_error (as_classes (at_setup demo_anth_turn))]"
    by (simp_all add: demo_anth_turn_def demo_overflow_def isinstance_def plain_exn_def)
  moreover have "looks_like_context_overflow_error (Some (ae_exn demo_overflow))"
    by (simp add: looks_like_context_overflow_error_def demo_overflow_def plain_exn_def context_overflow_phrases_def
        py_lower_def lower_char_def char_code_def starts_with_def)
  ultimately show ?thesis
    using overflow_recompacts_once [of demo_anth_turn 0 "[user_text_message ''go'']" demo_overflow 0]
    by (simp add: provider_retries_def Let_def text_deltas_def final_events_def refusal_notice_def demo_final_def
        function_call_events_def)
qed

text \<open>
  On the last attempt there is no request left for the recompacted prompt: the compaction is
  reported, never sent, and the turn ends as if the window were exceeded.
\<close>

lemma late_overflow_compacts_for_nothing:
  assumes "as_client (at_setup T) n (turn_kwargs T contents) = Inl e"
    and "isinstance (ae_exn e) [ac_api_error (as_classes (at_setup T))]"
    and "looks_like_context_overflow_error (Some (ae_exn e))"
  shows "anth_attempts T contents 0 attempt n False =
     anth_raise (compaction_events (anth_reactive_plan T contents)) (turn_kwargs T contents)
       (context_window_exceeded (win_tokens (at_window T)))"
  using assms by (subst anth_attempts.simps)
    (simp add: answer_end_def text_deltas_def streamed_text_def exhausted_error_def Let_def)

end
