(* ===== verification/Spec2Isabelle.thy ===== *)
theory Spec2Isabelle
  imports ToolFaults ConfirmGates ReplyGuards ProviderConfig ProviderWire ChatHistory ToolSummary
    AnthropicRounds
begin

text \<open>
  The agent server behind the TRID3NT QGIS plugin (src/trid3nt_server with the contracts of
  src/contracts): the part of it that decides what a model is told, what a tool is called with
  and what the user must have approved.

  \<^bold>\<open>How a turn runs.\<close> The server rebuilds the conversation (\<open>ChatHistory\<close>), fits it to the
  window of the model (\<open>ContextWindow\<close>, \<open>Compaction\<close>), puts it and the tool catalog
  (\<open>ToolSchemas\<close>) on the wire of a provider (\<open>ProviderWire\<close>) and streams the reply, retrying and
  recompacting (\<open>ModelRounds\<close>, \<open>AnthropicRounds\<close>, \<open>ReplyGuards\<close>). Each call of the reply goes through the
  circuit breaker (\<open>ToolFaults\<close>), the argument normalizer (\<open>ArgNormalizer\<close>, \<open>AliasTable\<close>) and the gates
  the user answers (\<open>ConfirmGates\<close>, parked in \<open>PendingReplies\<close>), has its layer handles resolved
  (\<open>LayerHandles\<close>), reads through the cache (\<open>FetchCache\<close>), shows a card (\<open>PipelineCards\<close>) and returns to the model
  as a summary within a budget (\<open>ToolSummary\<close>).

  \<^bold>\<open>Theories and sources.\<close>
    \<^item> \<open>Prelude\<close>: insertion-ordered dictionaries with the locale \<open>ordered_dict\<close>, actions on a state that may
      raise (\<open>act\<close>), \<open>run_ops\<close> with the locale \<open>kept_invariant\<close>, the locale \<open>fresh_counter\<close>.
    \<^item> \<open>PyValues\<close>, \<open>PyNumbers\<close>, \<open>JsonText\<close>, \<open>Sha256\<close>: what the code uses of Python: values, strings,
      exceptions and their classes, \<open>int\<close>, \<open>float\<close> and \<open>==\<close>, \<open>json.dumps\<close>, \<open>hashlib.sha256\<close> on 32-bit words.
    \<^item> \<open>ToolFaults\<close>: model/guards/actionability.py, circuit_breaker.py, runaway_guard.py.
    \<^item> \<open>TurnMessages\<close>, \<open>Compaction\<close>, \<open>ContextWindow\<close>: contracts message.py, model/guards/context_budget.py.
    \<^item> \<open>CacheWindows\<close>, \<open>FetchCache\<close>: contracts tool_registry.py, tools/cache.py.
    \<^item> \<open>LayerHandles\<close>: render/uri_registry.py.
    \<^item> \<open>AliasTable\<close>, \<open>ArgNormalizer\<close>: tools/tool_arg_normalizer.py, as_bbox of inputs/extent.py.
    \<^item> \<open>PipelineCards\<close>: render/pipeline_emitter.py, render/layer_uri_emit.py and the contracts they send.
    \<^item> \<open>PendingReplies\<close>, \<open>ConfirmGates\<close>: inputs/gate (pending.py, confirm.py, errors.py, cards), contracts
      payload_warning.py and gate_spec.py, the gates of server/dispatch/emitter.py, run_pyqgis.
    \<^item> \<open>ReplyGuards\<close>, \<open>ProviderConfig\<close>, \<open>ProviderWire\<close>, \<open>ChatHistory\<close>, \<open>ToolSchemas\<close>, \<open>ModelRounds\<close>,
      \<open>AnthropicRounds\<close>, \<open>ToolSummary\<close>: model/adapters (model_discovery.py, openai_adapter.py,
      anthropic_adapter.py, adapter.py).

  \<^bold>\<open>State and operations.\<close> A class with state is a record and its methods are functions from the
  record to the result and the record left; a method that may raise half-way is an action, so
  what it wrote stays. Exceptions are values with a class, a text and attributes. What lies
  outside src/ is an argument: the network and its answers, SDK clients, pydantic's own
  verdicts, the clock, \<open>repr\<close> and the text of a float. What other coroutines do while one
  waits is an explicit sequence of operations.

  \<^bold>\<open>What is shown.\<close>
    \<^item> Guards: the breaker refines one circuit per tool; the watchdog counts trailing rounds.
    \<^item> Context: compaction keeps tool rows and ends under its target or exhausted; a planned round
      fits its window; discovery always yields a usable window.
    \<^item> Wire: what goes out is paired and alternating; stored conversations come back as they were
      and thinking never does; schemas are typed.
    \<^item> Rounds: both adapters end after a bounded number of requests and waits; a provider that
      recovers is answered; tool calls do not depend on how the stream cuts them.
    \<^item> Results: summaries fit, refusals and empty runs are told as such.
    \<^item> Cache and handles: keys, paths and replays; short handles persist, export and import, and
      store uris resolve to registered ones only.
    \<^item> Cards: every frame sent is within the contract and every call has the card it earned.
    \<^item> Gates: an answer ends a wait only if its session's owner sent it, and then does; code runs
      only as approved, a solver only as confirmed, a fetch past the cap only narrowed; a refusal
      leaves its card.
  Theorems of kind error, and the theorems the findings name, show where the code does not do
  what it says: among them a respelt call of run_pyqgis that no card is shown for.

  \<^bold>\<open>Bounds and fuel.\<close> Every definition terminates. The retry loops recurse over the attempts
  the settings allow, the ladder of compaction over the size it shrinks, \<open>replace_all\<close> and the
  matchers over the text; no definition has fuel. Token counts, sizes and times are unbounded
  integers or rationals, as in Python; only the rounds of SHA-256 wrap.

  \<^bold>\<open>Not modelled.\<close> Logging and telemetry; the rounding of floats (a float is its exact value, with
  infinities where a double overflows); characters beyond the 256 of \<open>char\<close>, so U+2026 is
  written as another character; \<open>model_dump\<close> of pydantic objects; interleaving inside one
  operation. Whole parts: the plugin (user interface and transport, driven by Qt), the
  workflows that author and run the solvers and the workers that execute them (numeric
  and file work over GDAL, meshio and external programs), the fetchers and the mesh tools (network and
  raster libraries), search, presets and publishing, the object store, session and protocol
  handling of the server beyond the gates, the settings reader and its module files. They
  rest on libraries the sources only call, or are declarations without logic of their own.
\<close>

end
